theory Spec2Isabelle
  imports Complex_Main "HOL-Library.AList"
begin

section \<open>The progress updater of TopicTracker (scripts/update-progress.py)\<close>

text \<open>
  The script fetches the issues of a repository, aggregates counters, a velocity and the
  status of six development phases, and merges them into progress.yaml. Every function of
  the script is embedded below under its own name; a Python exception is a value of
  \<open>error\<close>, returned as \<open>Inl\<close>.
\<close>

subsection \<open>Issues as the GitHub API delivers them\<close>

datatype error =
    FileNotFoundError | YAMLError | ConnectionError | JSONDecodeError
  | KeyError | TypeError | AttributeError | ValueError | OSError

text \<open>A label object; the script reads its key "name" only.\<close>

record label =
  name :: string

text \<open>
  The object of links that the API attaches under "pull_request" to an issue that is a pull
  request. It is never empty, so \<open>i.get("pull_request")\<close> is truthy exactly when the key is
  present.
\<close>

record pr_links =
  url :: string
  html_url :: string

record issue =
  title :: string
  state :: string
  labels :: "label list"
  closed_at :: "string option"
  pull_request :: "pr_links option"

subsection \<open>get_project_metrics\<close>

record metrics =
  total_tasks :: nat
  completed_tasks :: nat
  in_progress_tasks :: nat
  blocked_tasks :: nat

definition get_project_metrics :: "issue list \<Rightarrow> metrics" where
  "get_project_metrics issues =
     (let total = length [i \<leftarrow> issues. pull_request i = None];
          completed = length [i \<leftarrow> issues. state i = ''closed'' \<and> pull_request i = None];
          in_progress = length [i \<leftarrow> issues. state i = ''open'' \<and>
                          list_ex (\<lambda>label. label.name label = ''in-progress'') (labels i)];
          blocked = length [i \<leftarrow> issues. state i = ''open'' \<and>
                          list_ex (\<lambda>label. label.name label = ''blocked'') (labels i)]
      in \<lparr>total_tasks = total, completed_tasks = completed,
          in_progress_tasks = in_progress, blocked_tasks = blocked\<rparr>)"

subsection \<open>calculate_velocity\<close>

text \<open>
  Timestamps are seconds since the epoch, as exact rationals. The parameter \<open>fromisoformat\<close>
  stands for \<open>datetime.fromisoformat(s).timestamp()\<close> of the standard library, with its
  exceptions as \<open>Inl\<close>; \<open>now\<close> is the one reading of the UTC clock that the function takes.
\<close>

definition replace_Z :: "string \<Rightarrow> string" where
  "replace_Z s = concat (map (\<lambda>c. if c = CHR ''Z'' then ''+00:00'' else [c]) s)"

definition closed_at_timestamp :: "(string \<Rightarrow> error + rat) \<Rightarrow> issue \<Rightarrow> error + rat" where
  "closed_at_timestamp fromisoformat i =
     (case closed_at i of
        None \<Rightarrow> Inl AttributeError
      | Some s \<Rightarrow> fromisoformat (replace_Z s))"

text \<open>The comprehension \<open>recent_closed\<close>: it stops at the first timestamp that fails to parse.\<close>

fun recent_closed :: "(string \<Rightarrow> error + rat) \<Rightarrow> rat \<Rightarrow> issue list \<Rightarrow> error + issue list" where
  "recent_closed fromisoformat seven_days_ago [] = Inr []"
| "recent_closed fromisoformat seven_days_ago (i # closed_issues) =
     (case closed_at_timestamp fromisoformat i of
        Inl e \<Rightarrow> Inl e
      | Inr ts \<Rightarrow>
          (case recent_closed fromisoformat seven_days_ago closed_issues of
             Inl e \<Rightarrow> Inl e
           | Inr rest \<Rightarrow> Inr (if ts > seven_days_ago then i # rest else rest)))"

definition calculate_velocity :: "(string \<Rightarrow> error + rat) \<Rightarrow> rat \<Rightarrow> issue list \<Rightarrow> error + rat" where
  "calculate_velocity fromisoformat now issues =
     (let closed_issues = [i \<leftarrow> issues. state i = ''closed'' \<and> pull_request i = None]
      in if closed_issues = [] then Inr 0
         else
           (let seven_days_ago = now - (7 * 24 * 60 * 60)
            in case recent_closed fromisoformat seven_days_ago closed_issues of
                 Inl e \<Rightarrow> Inl e
               | Inr recent \<Rightarrow> Inr (of_nat (length recent) / 7)))"

subsection \<open>get_phase_status\<close>

text \<open>Python's \<open>sub in s\<close> on strings: \<open>sub\<close> occurs in \<open>s\<close> as a contiguous piece.\<close>

fun startswith :: "string \<Rightarrow> string \<Rightarrow> bool" where
  "startswith s [] = True"
| "startswith [] (c # sub) = False"
| "startswith (d # s) (c # sub) = (d = c \<and> startswith s sub)"

fun str_contains :: "string \<Rightarrow> string \<Rightarrow> bool" where
  "str_contains [] sub = (sub = [])"
| "str_contains (d # s) sub = (startswith (d # s) sub \<or> str_contains s sub)"

definition phase_mapping :: "(int \<times> string list) list" where
  "phase_mapping =
     [(1, [''Core Data Models'', ''Thread-Safe Message Store'', ''Mock SNS Endpoint'',
           ''Result Pattern Integration'']),
      (2, [''Basic Test Client'', ''Verification Methods'', ''TUnit Test Helpers'']),
      (3, [''Query Endpoints'', ''Advanced Queries'', ''ASP.NET Core Integration'']),
      (4, [''Basic Web UI'', ''Advanced UI Features'', ''Developer Tools'']),
      (5, [''Aspire Resource'', ''Aspire Dashboard'']),
      (6, [''Performance Optimization'', ''NuGet Package'', ''Documentation''])]"

definition phase_names :: "(int \<times> string) list" where
  "phase_names =
     [(1, ''Core Foundation''),
      (2, ''Testing Infrastructure''),
      (3, ''API & Integration''),
      (4, ''Developer Experience''),
      (5, ''Platform Integration''),
      (6, ''Production Readiness'')]"

text \<open>One entry of the list that \<open>get_phase_status\<close> returns.\<close>

record phase_entry =
  phase :: int
  name :: string
  status :: string
  tasks_total :: nat
  tasks_completed :: nat

text \<open>
  The loop over \<open>phase_mapping.items()\<close>, in the order of the dictionary. The lookup
  \<open>phase_names[phase_num]\<close> raises KeyError for a number without a name.
\<close>

fun phase_loop :: "issue list \<Rightarrow> (int \<times> string list) list \<Rightarrow> error + phase_entry list" where
  "phase_loop issues [] = Inr []"
| "phase_loop issues ((phase_num, task_titles) # rest) =
     (let phase_issues =
            [i \<leftarrow> issues. list_ex (\<lambda>title'. str_contains (title i) title') task_titles];
          total = length phase_issues;
          completed = length [i \<leftarrow> phase_issues. state i = ''closed''];
          status =
            (if completed = total \<and> total > 0 then ''completed''
             else if completed > 0 then ''in_progress''
             else if list_ex (\<lambda>i. state i = ''open'' \<and>
                        list_ex (\<lambda>label. label.name label = ''in-progress'') (labels i))
                      phase_issues
               then ''in_progress''
             else ''not_started'')
      in case map_of phase_names phase_num of
           None \<Rightarrow> Inl KeyError
         | Some phase_name \<Rightarrow>
             (case phase_loop issues rest of
                Inl e \<Rightarrow> Inl e
              | Inr phases \<Rightarrow>
                  Inr (\<lparr>phase = phase_num, name = phase_name, status = status,
                        tasks_total = total, tasks_completed = completed\<rparr> # phases)))"

definition get_phase_status :: "issue list \<Rightarrow> error + phase_entry list" where
  "get_phase_status issues = phase_loop issues phase_mapping"

subsection \<open>The progress document\<close>

text \<open>
  What \<open>yaml.safe_load\<close> returns: scalars, sequences and mappings. A mapping keeps the order
  of its keys (an association list; a key is looked up at its first entry and replaced there,
  a new key goes to the end, as in a Python dictionary). A mapping that the text anchors and
  refers to again through aliases is one dictionary, shared by all the places that name it:
  such a place holds \<open>YAlias\<close> with the anchor's name, and the dictionary itself stands in the
  table of anchors. A mapping written in place, \<open>YMap\<close>, is a dictionary of its own.
\<close>

datatype yaml =
    YNull | YBool bool | YInt int | YFloat rat | YStr string
  | YSeq "yaml list" | YMap "(string \<times> yaml) list" | YAlias string

type_synonym items = "(string \<times> yaml) list"

type_synonym anchors = "(string \<times> items) list"

record document =
  anchors :: anchors
  root :: yaml

definition and_then :: "error + 'a \<Rightarrow> ('a \<Rightarrow> error + 'b) \<Rightarrow> error + 'b" where
  "and_then r f = (case r of Inl e \<Rightarrow> Inl e | Inr x \<Rightarrow> f x)"

text \<open>
  The dictionary behind a value. An alias without an anchor does not occur in a loaded
  document (see \<open>load\<close>).
\<close>

definition items_of :: "anchors \<Rightarrow> yaml \<Rightarrow> items option" where
  "items_of tbl obj =
     (case obj of
        YMap its \<Rightarrow> Some its
      | YAlias a \<Rightarrow> map_of tbl a
      | _ \<Rightarrow> None)"

text \<open>
  Giving the dictionary behind \<open>obj\<close> new contents: a shared dictionary changes in the table,
  for every place that names it; a dictionary of its own changes where it stands.
\<close>

definition put :: "anchors \<Rightarrow> yaml \<Rightarrow> items \<Rightarrow> anchors \<times> yaml" where
  "put tbl obj its =
     (case obj of
        YAlias a \<Rightarrow> (AList.update a its tbl, obj)
      | _ \<Rightarrow> (tbl, YMap its))"

text \<open>\<open>obj[key]\<close>, \<open>obj[key] = v\<close> and \<open>obj.update(new)\<close> for a string key.\<close>

definition getitem :: "anchors \<Rightarrow> yaml \<Rightarrow> string \<Rightarrow> error + yaml" where
  "getitem tbl obj key =
     (case items_of tbl obj of
        None \<Rightarrow> Inl TypeError
      | Some its \<Rightarrow> (case map_of its key of None \<Rightarrow> Inl KeyError | Some v \<Rightarrow> Inr v))"

definition setitem :: "anchors \<Rightarrow> yaml \<Rightarrow> string \<Rightarrow> yaml \<Rightarrow> error + anchors \<times> yaml" where
  "setitem tbl obj key v =
     (case items_of tbl obj of
        None \<Rightarrow> Inl TypeError
      | Some its \<Rightarrow> Inr (put tbl obj (AList.update key v its)))"

definition dict_update :: "anchors \<Rightarrow> yaml \<Rightarrow> items \<Rightarrow> error + anchors \<times> yaml" where
  "dict_update tbl obj new =
     (case items_of tbl obj of
        None \<Rightarrow> Inl AttributeError
      | Some its \<Rightarrow> Inr (put tbl obj (fold (\<lambda>(k, v). AList.update k v) new its)))"

text \<open>
  The script mutates nested dictionaries in place, as in \<open>progress["metrics"].update(metrics)\<close>:
  the dictionary under \<open>obj[key]\<close> is fetched and changed by \<open>f\<close>. When it is a shared one the
  change is in the table and \<open>obj\<close> still names it; when it is a dictionary of its own, \<open>obj\<close>
  holds the changed dictionary under the same key.
\<close>

definition in_place ::
  "anchors \<Rightarrow> yaml \<Rightarrow> string \<Rightarrow> (anchors \<Rightarrow> yaml \<Rightarrow> error + anchors \<times> yaml)
     \<Rightarrow> error + anchors \<times> yaml" where
  "in_place tbl obj key f =
     and_then (getitem tbl obj key) (\<lambda>child.
     and_then (f tbl child) (\<lambda>(tbl', child').
       case child of
         YAlias a \<Rightarrow> Inr (tbl', obj)
       | _ \<Rightarrow> setitem tbl' obj key child'))"

text \<open>The dictionaries that the aggregating functions return, as they enter the document.\<close>

definition metrics_items :: "metrics \<Rightarrow> items" where
  "metrics_items m =
     [(''total_tasks'', YInt (int (total_tasks m))),
      (''completed_tasks'', YInt (int (completed_tasks m))),
      (''in_progress_tasks'', YInt (int (in_progress_tasks m))),
      (''blocked_tasks'', YInt (int (blocked_tasks m)))]"

definition phase_yaml :: "phase_entry \<Rightarrow> yaml" where
  "phase_yaml p =
     YMap [(''phase'', YInt (phase p)),
           (''name'', YStr (phase_entry.name p)),
           (''status'', YStr (status p)),
           (''tasks_total'', YInt (int (tasks_total p))),
           (''tasks_completed'', YInt (int (tasks_completed p)))]"

text \<open>\<open>round(x, ndigits)\<close>: to the nearest multiple of \<open>10 ^ -ndigits\<close>, a tie to the even one.\<close>

definition py_round :: "rat \<Rightarrow> nat \<Rightarrow> rat" where
  "py_round x ndigits =
     (let scaled = x * 10 ^ ndigits;
          lower = \<lfloor>scaled\<rfloor>;
          frac = scaled - of_int lower;
          nearest = (if frac < 1 / 2 then lower
                     else if frac > 1 / 2 then lower + 1
                     else if even lower then lower else lower + 1)
      in of_int nearest / 10 ^ ndigits)"

text \<open>\<open>v > n\<close> for a loaded value \<open>v\<close> and an integer literal \<open>n\<close>.\<close>

definition py_gt :: "yaml \<Rightarrow> int \<Rightarrow> error + bool" where
  "py_gt v n =
     (case v of
        YInt a \<Rightarrow> Inr (a > n)
      | YFloat a \<Rightarrow> Inr (a > of_int n)
      | YBool b \<Rightarrow> Inr ((if b then 1 else 0) > n)
      | _ \<Rightarrow> Inl TypeError)"

subsection \<open>update_progress_file\<close>

text \<open>
  The steps below take the table of anchors and the value of the variable \<open>progress\<close>, and
  return both as the step leaves them.
\<close>

text \<open>Lines 117 to 120, "Update progress".\<close>

definition update_progress ::
  "string \<Rightarrow> metrics \<Rightarrow> rat \<Rightarrow> phase_entry list \<Rightarrow> anchors \<Rightarrow> yaml
     \<Rightarrow> error + anchors \<times> yaml" where
  "update_progress timestamp metrics velocity phases tbl progress =
     and_then (in_place tbl progress ''current_status''
                 (\<lambda>tbl cs. setitem tbl cs ''last_updated'' (YStr timestamp))) (\<lambda>(tbl, progress).
     and_then (in_place tbl progress ''metrics''
                 (\<lambda>tbl m. dict_update tbl m (metrics_items metrics))) (\<lambda>(tbl, progress).
     and_then (in_place tbl progress ''metrics'' (\<lambda>tbl m.
                 in_place tbl m ''velocity''
                   (\<lambda>tbl v. setitem tbl v ''current'' (YFloat (py_round velocity 2)))))
       (\<lambda>(tbl, progress).
     setitem tbl progress ''phases'' (YSeq (map phase_yaml phases)))))"

text \<open>Lines 122 to 127, "Determine current phase": the loop leaves at its first hit.\<close>

fun determine_current_phase ::
  "phase_entry list \<Rightarrow> anchors \<Rightarrow> yaml \<Rightarrow> error + anchors \<times> yaml" where
  "determine_current_phase [] tbl progress = Inr (tbl, progress)"
| "determine_current_phase (p # phases) tbl progress =
     (if status p = ''in_progress'' then
        and_then (in_place tbl progress ''current_status''
                    (\<lambda>tbl cs. setitem tbl cs ''phase'' (YInt (phase p)))) (\<lambda>(tbl, progress).
        in_place tbl progress ''current_status''
          (\<lambda>tbl cs. setitem tbl cs ''phase_name'' (YStr (phase_entry.name p))))
      else determine_current_phase phases tbl progress)"

text \<open>Lines 129 to 135, "Update health status".\<close>

definition update_health_status :: "anchors \<Rightarrow> yaml \<Rightarrow> error + anchors \<times> yaml" where
  "update_health_status tbl progress =
     and_then (getitem tbl progress ''metrics'') (\<lambda>m.
     and_then (getitem tbl m ''blocked_tasks'') (\<lambda>b.
     and_then (py_gt b 2) (\<lambda>above_two.
       if above_two then
         in_place tbl progress ''current_status''
           (\<lambda>tbl cs. setitem tbl cs ''health'' (YStr ''red''))
       else
         and_then (getitem tbl progress ''metrics'') (\<lambda>m.
         and_then (getitem tbl m ''blocked_tasks'') (\<lambda>b.
         and_then (py_gt b 0) (\<lambda>above_zero.
           if above_zero then
             in_place tbl progress ''current_status''
               (\<lambda>tbl cs. setitem tbl cs ''health'' (YStr ''yellow''))
           else
             in_place tbl progress ''current_status''
               (\<lambda>tbl cs. setitem tbl cs ''health'' (YStr ''green''))))))))"

text \<open>
  The world around a run. The file progress.yaml is absent, empty (read as \<open>None\<close>), not
  YAML, or the text of a document; \<open>dumps\<close> counts the documents written to it in full, and
  \<open>console\<close> holds the lines printed. The text that \<open>yaml.dump\<close> writes for a document, with
  an anchor for every shared dictionary, is read back as that document.
\<close>

datatype file_state = NoFile | Empty | NotYaml | Text document

datatype line = ProgressUpdated nat nat | CurrentVelocity rat

record world =
  progress_file :: file_state
  dumps :: nat
  console :: "line list"

text \<open>
  What a run meets outside the script. The answer to its one request: the request raises, the
  body is not JSON, the body is a JSON object with the given keys, as the API sends with an
  error status, or the body is the array of issues. The timestamp parser and the two readings
  of the clock. Writing the file back: it succeeds, or opening for writing is refused, or the
  file is opened, which empties it, and the dump fails after a part of the new text has
  reached the file; that part is nothing, something that is not YAML, or a text that reads
  as some document. The standard output: it takes every line, or it takes the given number
  of lines and raises on the next.
\<close>

datatype response = RequestRaises | BodyNotJson | JsonObject "string list" | JsonArray "issue list"

datatype payload = Object "string list" | Array "issue list"

datatype flushed = Nothing | Unreadable | ReadsAs document

datatype write_result = WriteOk | OpenRefused | DumpFails flushed

datatype stdout = Healthy | BreaksAfter nat

record env =
  response :: response
  fromisoformat :: "string \<Rightarrow> error + rat"
  now_velocity :: rat
  now_isoformat :: string
  write_result :: write_result
  stdout :: stdout

definition get_issues :: "response \<Rightarrow> error + payload" where
  "get_issues r =
     (case r of
        RequestRaises \<Rightarrow> Inl ConnectionError
      | BodyNotJson \<Rightarrow> Inl JSONDecodeError
      | JsonObject keys \<Rightarrow> Inr (Object keys)
      | JsonArray issues \<Rightarrow> Inr (Array issues))"

text \<open>
  The aggregating functions iterate over what \<open>get_issues\<close> returned. Iterating over a JSON
  object yields its keys, and the first comprehension of \<open>get_project_metrics\<close> calls
  \<open>i.get\<close> on the first of them, a string.
\<close>

definition iterate :: "payload \<Rightarrow> error + issue list" where
  "iterate p =
     (case p of
        Array issues \<Rightarrow> Inr issues
      | Object [] \<Rightarrow> Inr []
      | Object (k # ks) \<Rightarrow> Inl AttributeError)"

text \<open>
  A text with an alias that no anchor defines is refused by the loader; an empty file is read
  as \<open>None\<close>.
\<close>

fun aliases_defined :: "string list \<Rightarrow> yaml \<Rightarrow> bool" where
  "aliases_defined names (YAlias a) = (a \<in> set names)"
| "aliases_defined names (YSeq vs) = list_all (aliases_defined names) vs"
| "aliases_defined names (YMap its) = list_all (aliases_defined names) (map snd its)"
| "aliases_defined names v = True"

definition well_formed :: "document \<Rightarrow> bool" where
  "well_formed doc =
     (aliases_defined (map fst (anchors doc)) (root doc)
      \<and> list_all (\<lambda>its. list_all (aliases_defined (map fst (anchors doc))) (map snd its))
           (map snd (anchors doc)))"

definition load :: "file_state \<Rightarrow> error + document" where
  "load f =
     (case f of
        NoFile \<Rightarrow> Inl FileNotFoundError
      | Empty \<Rightarrow> Inr \<lparr>anchors = [], root = YNull\<rparr>
      | NotYaml \<Rightarrow> Inl YAMLError
      | Text doc \<Rightarrow> if well_formed doc then Inr doc else Inl YAMLError)"

text \<open>
  Lines 137 to 139: \<open>open(progress_file, 'w')\<close> empties the file, then \<open>yaml.dump\<close> writes.
\<close>

definition write_back :: "write_result \<Rightarrow> document \<Rightarrow> world \<Rightarrow> (error + unit) \<times> world" where
  "write_back r doc w =
     (case r of
        OpenRefused \<Rightarrow> (Inl OSError, w)
      | DumpFails part \<Rightarrow>
          (Inl OSError,
           w\<lparr>progress_file :=
                (case part of Nothing \<Rightarrow> Empty | Unreadable \<Rightarrow> NotYaml | ReadsAs d \<Rightarrow> Text d)\<rparr>)
      | WriteOk \<Rightarrow> (Inr (), w\<lparr>progress_file := Text doc, dumps := dumps w + 1\<rparr>))"

text \<open>
  Lines 141 and 142: the two lines printed after the write, the second with the velocity to
  two decimals. A print that raises ends the run there.
\<close>

fun print_lines :: "stdout \<Rightarrow> line list \<Rightarrow> world \<Rightarrow> (error + unit) \<times> world" where
  "print_lines out [] w = (Inr (), w)"
| "print_lines Healthy (l # ls) w = print_lines Healthy ls (w\<lparr>console := console w @ [l]\<rparr>)"
| "print_lines (BreaksAfter 0) (l # ls) w = (Inl OSError, w)"
| "print_lines (BreaksAfter (Suc n)) (l # ls) w =
     print_lines (BreaksAfter n) ls (w\<lparr>console := console w @ [l]\<rparr>)"

text \<open>
  Everything between reading the file and writing it back; nothing here touches the file.
  The result is the document to write, with the counters and the velocity for the printed
  lines.
\<close>

definition updated_document :: "env \<Rightarrow> document \<Rightarrow> error + document \<times> metrics \<times> rat" where
  "updated_document env doc =
     and_then (get_issues (response env)) (\<lambda>fetched.
     and_then (iterate fetched) (\<lambda>issues.
       let metrics = get_project_metrics issues in
       and_then (calculate_velocity (fromisoformat env) (now_velocity env) issues) (\<lambda>velocity.
       and_then (get_phase_status issues) (\<lambda>phases.
       and_then (update_progress (now_isoformat env) metrics velocity phases
                   (anchors doc) (root doc)) (\<lambda>(tbl, progress).
       and_then (determine_current_phase phases tbl progress) (\<lambda>(tbl, progress).
       and_then (update_health_status tbl progress) (\<lambda>(tbl, progress).
       Inr (\<lparr>anchors = tbl, root = progress\<rparr>, metrics, velocity))))))))"

definition update_progress_file :: "env \<Rightarrow> world \<Rightarrow> (error + unit) \<times> world" where
  "update_progress_file env w =
     (case and_then (load (progress_file w)) (updated_document env) of
        Inl e \<Rightarrow> (Inl e, w)
      | Inr (doc, metrics, velocity) \<Rightarrow>
          (case write_back (write_result env) doc w of
             (Inl e, w') \<Rightarrow> (Inl e, w')
           | (Inr u, w') \<Rightarrow>
               print_lines (stdout env)
                 [ProgressUpdated (completed_tasks metrics) (total_tasks metrics),
                  CurrentVelocity (py_round velocity 2)] w'))"

text \<open>
  Reading \<open>progress[k1][k2]...\<close> out of a document, through aliases; \<open>None\<close> where a key is
  absent or the value is no mapping.
\<close>

definition lookup :: "anchors \<Rightarrow> yaml \<Rightarrow> string \<Rightarrow> yaml option" where
  "lookup tbl obj key = (case items_of tbl obj of None \<Rightarrow> None | Some its \<Rightarrow> map_of its key)"

fun at_path :: "anchors \<Rightarrow> yaml \<Rightarrow> string list \<Rightarrow> yaml option" where
  "at_path tbl v [] = Some v"
| "at_path tbl v (k # ks) =
     (case lookup tbl v k of None \<Rightarrow> None | Some child \<Rightarrow> at_path tbl child ks)"

definition file_at :: "world \<Rightarrow> string list \<Rightarrow> yaml option" where
  "file_at w path =
     (case progress_file w of
        Text doc \<Rightarrow> at_path (anchors doc) (root doc) path
      | _ \<Rightarrow> None)"

subsection \<open>Shared dictionaries\<close>

text \<open>
  The value at a path is shared when the document names it through an alias. The script
  changes four dictionaries in place: the top-level mapping, current_status, metrics and the
  velocity mapping under metrics. \<open>unshared\<close> says that each of them is a dictionary of its
  own in the document of the file.
\<close>

definition shared :: "world \<Rightarrow> string list \<Rightarrow> bool" where
  "shared w path = (case file_at w path of Some (YAlias a) \<Rightarrow> True | _ \<Rightarrow> False)"

definition unshared :: "world \<Rightarrow> bool" where
  "unshared w = (\<not> shared w [] \<and> \<not> shared w [''current_status'']
                 \<and> \<not> shared w [''metrics''] \<and> \<not> shared w [''metrics'', ''velocity''])"

text \<open>
  Two relations for a step that writes the keys in \<open>W\<close> and no others.
  \<open>frame W tbl tbl'\<close>: every value reads the same, under every key outside \<open>W\<close>, in the table
  before and in the table after. \<open>evolves W tbl obj tbl' obj'\<close>: the dictionary \<open>obj\<close>, which
  the step leaves as \<open>obj'\<close>, reads the same under every key outside \<open>W\<close>; a shared dictionary
  is still the same shared one, and a dictionary of its own is still a mapping.
\<close>

definition frame :: "string set \<Rightarrow> anchors \<Rightarrow> anchors \<Rightarrow> bool" where
  "frame W tbl tbl' = (\<forall>v k. k \<notin> W \<longrightarrow> lookup tbl' v k = lookup tbl v k)"

definition evolves :: "string set \<Rightarrow> anchors \<Rightarrow> yaml \<Rightarrow> anchors \<Rightarrow> yaml \<Rightarrow> bool" where
  "evolves W tbl obj tbl' obj' =
     ((\<forall>k. k \<notin> W \<longrightarrow> lookup tbl' obj' k = lookup tbl obj k)
      \<and> (\<forall>a. obj = YAlias a \<longrightarrow> obj' = obj)
      \<and> ((\<forall>a. obj \<noteq> YAlias a) \<longrightarrow> (\<exists>its. obj' = YMap its)))"

subsection \<open>An instance of the timestamp parser, and a run\<close>

text \<open>
  \<open>datetime.fromisoformat(s).timestamp()\<close> on the one format the API writes after
  \<open>replace("Z", "+00:00")\<close>, \<open>YYYY-MM-DDTHH:MM:SS+00:00\<close>, computed as the standard library
  does (days before the year, days before the month, the day; 1970-01-01 is day 719163).
  Every other string is refused here. The properties below hold for any parser; this one
  serves the examples.
\<close>

definition digit :: "char \<Rightarrow> int option" where
  "digit c = map_of (zip ''0123456789'' [0, 1, 2, 3, 4, 5, 6, 7, 8, 9]) c"

fun digits :: "int \<Rightarrow> string \<Rightarrow> int option" where
  "digits acc [] = Some acc"
| "digits acc (c # cs) = (case digit c of None \<Rightarrow> None | Some d \<Rightarrow> digits (10 * acc + d) cs)"

definition is_leap :: "int \<Rightarrow> bool" where
  "is_leap y = (y mod 4 = 0 \<and> (y mod 100 \<noteq> 0 \<or> y mod 400 = 0))"

definition days_in_month :: "int \<Rightarrow> int \<Rightarrow> int" where
  "days_in_month y m =
     (if m = 2 \<and> is_leap y then 29
      else [31, 28, 31, 30, 31, 30, 31, 31, 30, 31, 30, 31] ! nat (m - 1))"

definition days_before_year :: "int \<Rightarrow> int" where
  "days_before_year y = (y - 1) * 365 + (y - 1) div 4 - (y - 1) div 100 + (y - 1) div 400"

definition days_before_month :: "int \<Rightarrow> int \<Rightarrow> int" where
  "days_before_month y m =
     [0, 31, 59, 90, 120, 151, 181, 212, 243, 273, 304, 334] ! nat (m - 1)
     + (if m > 2 \<and> is_leap y then 1 else 0)"

definition fromisoformat_utc :: "string \<Rightarrow> error + rat" where
  "fromisoformat_utc s =
     (if length s = 25 \<and> s ! 4 = CHR ''-'' \<and> s ! 7 = CHR ''-'' \<and> s ! 10 = CHR ''T''
         \<and> s ! 13 = CHR '':'' \<and> s ! 16 = CHR '':'' \<and> drop 19 s = ''+00:00''
      then
        (case (digits 0 (take 4 s), digits 0 (take 2 (drop 5 s)), digits 0 (take 2 (drop 8 s)),
               digits 0 (take 2 (drop 11 s)), digits 0 (take 2 (drop 14 s)),
               digits 0 (take 2 (drop 17 s))) of
           (Some y, Some m, Some d, Some hh, Some mm, Some ss) \<Rightarrow>
             if 1 \<le> y \<and> 1 \<le> m \<and> m \<le> 12 \<and> 1 \<le> d \<and> d \<le> days_in_month y m
                \<and> hh \<le> 23 \<and> mm \<le> 59 \<and> ss \<le> 59
             then Inr (of_int ((days_before_year y + days_before_month y m + d - 719163) * 86400
                               + hh * 3600 + mm * 60 + ss))
             else Inl ValueError
         | _ \<Rightarrow> Inl ValueError)
      else Inl ValueError)"

text \<open>
  The scenario of the specification: a closed task of phase 1 and an open, blocked one, and a
  document with one key of its own under metrics. The run takes place on 2024-03-10 at noon.
\<close>

definition issue_core_data_models :: issue where
  "issue_core_data_models =
     \<lparr>title = ''Core Data Models'', state = ''closed'', labels = [],
      closed_at = Some ''2024-03-09T12:00:00Z'', pull_request = None\<rparr>"

definition issue_mock_sns_endpoint :: issue where
  "issue_mock_sns_endpoint =
     \<lparr>title = ''Mock SNS Endpoint'', state = ''open'', labels = [\<lparr>label.name = ''blocked''\<rparr>],
      closed_at = None, pull_request = None\<rparr>"

definition example_issues :: "issue list" where
  "example_issues = [issue_core_data_models, issue_mock_sns_endpoint]"

definition example_progress :: document where
  "example_progress = \<lparr>anchors = [], root =
     YMap [(''project'', YStr ''TopicTracker''),
           (''current_status'',
              YMap [(''phase'', YInt 2), (''phase_name'', YStr ''Testing Infrastructure''),
                    (''health'', YStr ''green''),
                    (''last_updated'', YStr ''2024-03-01T00:00:00+00:00'')]),
           (''metrics'',
              YMap [(''total_tasks'', YInt 0), (''completed_tasks'', YInt 0),
                    (''in_progress_tasks'', YInt 0), (''blocked_tasks'', YInt 0),
                    (''test_coverage'', YInt 85),
                    (''velocity'', YMap [(''current'', YFloat 0), (''target'', YFloat 2)])]),
           (''phases'', YSeq [])]\<rparr>"

definition example_world :: world where
  "example_world = \<lparr>progress_file = Text example_progress, dumps = 0, console = []\<rparr>"

definition example_env :: env where
  "example_env =
     \<lparr>response = JsonArray example_issues, fromisoformat = fromisoformat_utc,
      now_velocity = 1710072000, now_isoformat = ''2024-03-10T12:00:00.250000+00:00'',
      write_result = WriteOk, stdout = Healthy\<rparr>"

text \<open>The document that this run writes, and the two lines it prints.\<close>

definition example_progress_after :: document where
  "example_progress_after = \<lparr>anchors = [], root =
     YMap [(''project'', YStr ''TopicTracker''),
           (''current_status'',
              YMap [(''phase'', YInt 1), (''phase_name'', YStr ''Core Foundation''),
                    (''health'', YStr ''yellow''),
                    (''last_updated'', YStr ''2024-03-10T12:00:00.250000+00:00'')]),
           (''metrics'',
              YMap [(''total_tasks'', YInt 2), (''completed_tasks'', YInt 1),
                    (''in_progress_tasks'', YInt 0), (''blocked_tasks'', YInt 1),
                    (''test_coverage'', YInt 85),
                    (''velocity'', YMap [(''current'', YFloat (7 / 50)), (''target'', YFloat 2)])]),
           (''phases'',
              YSeq [YMap [(''phase'', YInt 1), (''name'', YStr ''Core Foundation''),
                          (''status'', YStr ''in_progress''), (''tasks_total'', YInt 2),
                          (''tasks_completed'', YInt 1)],
                    YMap [(''phase'', YInt 2), (''name'', YStr ''Testing Infrastructure''),
                          (''status'', YStr ''not_started''), (''tasks_total'', YInt 0),
                          (''tasks_completed'', YInt 0)],
                    YMap [(''phase'', YInt 3), (''name'', YStr ''API & Integration''),
                          (''status'', YStr ''not_started''), (''tasks_total'', YInt 0),
                          (''tasks_completed'', YInt 0)],
                    YMap [(''phase'', YInt 4), (''name'', YStr ''Developer Experience''),
                          (''status'', YStr ''not_started''), (''tasks_total'', YInt 0),
                          (''tasks_completed'', YInt 0)],
                    YMap [(''phase'', YInt 5), (''name'', YStr ''Platform Integration''),
                          (''status'', YStr ''not_started''), (''tasks_total'', YInt 0),
                          (''tasks_completed'', YInt 0)],
                    YMap [(''phase'', YInt 6), (''name'', YStr ''Production Readiness''),
                          (''status'', YStr ''not_started''), (''tasks_total'', YInt 0),
                          (''tasks_completed'', YInt 0)]])]\<rparr>"

definition example_world_after :: world where
  "example_world_after =
     \<lparr>progress_file = Text example_progress_after, dumps = 1,
      console = [ProgressUpdated 1 2, CurrentVelocity (7 / 50)]\<rparr>"

text \<open>Two more issues: one closed exactly seven days before that run, one open with both labels.\<close>

definition issue_closed_a_week_ago :: issue where
  "issue_closed_a_week_ago =
     \<lparr>title = ''Query Endpoints'', state = ''closed'', labels = [],
      closed_at = Some ''2024-03-03T12:00:00Z'', pull_request = None\<rparr>"

definition issue_in_progress_and_blocked :: issue where
  "issue_in_progress_and_blocked =
     \<lparr>title = ''Basic Web UI'', state = ''open'',
      labels = [\<lparr>label.name = ''in-progress''\<rparr>, \<lparr>label.name = ''blocked''\<rparr>],
      closed_at = None, pull_request = None\<rparr>"

text \<open>
  Runs under other conditions: the request raises; the API answers with the JSON object of a
  refused credential; the dump fails right after the file was opened for writing; the
  standard output is closed. And two runs in succession on the same issues, one second before
  and one second after the closed task leaves the seven-day window.
\<close>

definition offline_env :: env where
  "offline_env = example_env\<lparr>response := RequestRaises\<rparr>"

definition unauthorized_env :: env where
  "unauthorized_env =
     example_env\<lparr>response := JsonObject [''message'', ''documentation_url'', ''status'']\<rparr>"

definition disk_full_env :: env where
  "disk_full_env = example_env\<lparr>write_result := DumpFails Nothing\<rparr>"

definition closed_stdout_env :: env where
  "closed_stdout_env = example_env\<lparr>stdout := BreaksAfter 0\<rparr>"

definition first_run_env :: env where
  "first_run_env =
     example_env\<lparr>now_velocity := 1710590399,
                  now_isoformat := ''2024-03-16T11:59:59.100000+00:00''\<rparr>"

definition second_run_env :: env where
  "second_run_env =
     example_env\<lparr>now_velocity := 1710590401,
                  now_isoformat := ''2024-03-16T12:00:01.100000+00:00''\<rparr>"

definition after_first_run :: world where
  "after_first_run = snd (update_progress_file first_run_env example_world)"

definition after_second_run :: world where
  "after_second_run = snd (update_progress_file second_run_env after_first_run)"

text \<open>
  A document in which the key last_sprint under metrics is an alias of the velocity mapping,
  as in \<open>velocity: &v {current: 0.0, target: 2.0}\<close> followed by \<open>last_sprint: *v\<close>.
\<close>

definition aliased_progress :: document where
  "aliased_progress = \<lparr>anchors = [(''v'', [(''current'', YFloat 0), (''target'', YFloat 2)])],
     root =
     YMap [(''current_status'',
              YMap [(''phase'', YInt 2), (''phase_name'', YStr ''Testing Infrastructure''),
                    (''health'', YStr ''green''),
                    (''last_updated'', YStr ''2024-03-01T00:00:00+00:00'')]),
           (''metrics'',
              YMap [(''total_tasks'', YInt 0), (''completed_tasks'', YInt 0),
                    (''in_progress_tasks'', YInt 0), (''blocked_tasks'', YInt 0),
                    (''velocity'', YAlias ''v''),
                    (''last_sprint'', YAlias ''v'')]),
           (''phases'', YSeq [])]\<rparr>"

definition aliased_world :: world where
  "aliased_world = \<lparr>progress_file = Text aliased_progress, dumps = 0, console = []\<rparr>"

section \<open>Properties\<close>

subsection \<open>Auxiliary facts\<close>

lemma startswith_iff: "startswith s sub \<longleftrightarrow> (\<exists>suf. s = sub @ suf)"
  by (induction s sub rule: startswith.induct) auto

text \<open>\<open>str_contains\<close> is substring containment, as Python's \<open>in\<close> on strings.\<close>

lemma str_contains_iff: "str_contains s sub \<longleftrightarrow> (\<exists>pre suf. s = pre @ sub @ suf)"
proof (induction s)
  case Nil
  then show ?case by auto
next
  case (Cons d s)
  show ?case
  proof
    assume "str_contains (d # s) sub"
    then consider "startswith (d # s) sub" | "str_contains s sub" by auto
    then show "\<exists>pre suf. d # s = pre @ sub @ suf"
    proof cases
      case 1
      then obtain suf where "d # s = sub @ suf" by (auto simp: startswith_iff)
      then have "d # s = [] @ sub @ suf" by simp
      then show ?thesis by blast
    next
      case 2
      then obtain pre suf where "s = pre @ sub @ suf" using Cons.IH by auto
      then have "d # s = (d # pre) @ sub @ suf" by simp
      then show ?thesis by blast
    qed
  next
    assume "\<exists>pre suf. d # s = pre @ sub @ suf"
    then obtain pre suf where eq: "d # s = pre @ sub @ suf" by auto
    show "str_contains (d # s) sub"
    proof (cases pre)
      case Nil
      with eq have "startswith (d # s) sub" by (auto simp: startswith_iff)
      then show ?thesis by simp
    next
      case (Cons a pre')
      with eq have "s = pre' @ sub @ suf" by simp
      then have "str_contains s sub" using Cons.IH by blast
      then show ?thesis by simp
    qed
  qed
qed

lemma list_ex_label:
  "list_ex (\<lambda>label. label.name label = l) ls \<longleftrightarrow> l \<in> label.name ` set ls"
  by (auto simp: list_ex_iff)

lemma recent_closed_Inr:
  assumes "\<forall>i \<in> set closed_issues. \<exists>ts. closed_at_timestamp f i = Inr ts"
  shows "recent_closed f t closed_issues =
           Inr [i \<leftarrow> closed_issues. \<exists>ts. closed_at_timestamp f i = Inr ts \<and> ts > t]"
  using assms
proof (induction closed_issues)
  case Nil
  then show ?case by simp
next
  case (Cons i rest)
  then obtain ts where ts: "closed_at_timestamp f i = Inr ts" by auto
  from Cons have "recent_closed f t rest =
           Inr [i \<leftarrow> rest. \<exists>ts. closed_at_timestamp f i = Inr ts \<and> ts > t]" by simp
  then show ?case using ts by simp
qed

lemma length_filter_filter:
  "length (filter Q (filter P xs)) = card {n. n < length xs \<and> P (xs ! n) \<and> Q (xs ! n)}"
proof -
  have "filter Q (filter P xs) = filter (\<lambda>x. P x \<and> Q x) xs" by (simp add: conj_commute)
  then show ?thesis by (simp add: length_filter_conv_card)
qed

lemma phase_loop_numbers:
  "phase_loop issues pm = Inr phases \<Longrightarrow> map phase phases = map fst pm"
proof (induction pm arbitrary: phases)
  case Nil
  then show ?case by simp
next
  case (Cons entry pm)
  obtain num titles where entry: "entry = (num, titles)" by (cases entry)
  from Cons.prems obtain rest where "phase_loop issues pm = Inr rest"
    and "map phase phases = num # map phase rest"
    by (auto simp: entry Let_def split: option.splits sum.splits)
  then show ?case using Cons.IH entry by simp
qed

lemma phase_loop_member:
  assumes "phase_loop issues pm = Inr phases" and "p \<in> set phases"
  obtains titles where "(phase p, titles) \<in> set pm"
    and "tasks_total p =
         length [i \<leftarrow> issues. \<exists>t \<in> set titles. str_contains (title i) t]"
    and "tasks_completed p =
         length [i \<leftarrow> [i \<leftarrow> issues. \<exists>t \<in> set titles. str_contains (title i) t].
                   state i = ''closed'']"
    and "status p =
         (if tasks_completed p = tasks_total p \<and> tasks_total p > 0 then ''completed''
          else if tasks_completed p > 0 then ''in_progress''
          else if \<exists>i \<in> set issues. (\<exists>t \<in> set titles. str_contains (title i) t)
                     \<and> state i = ''open''
                     \<and> ''in-progress'' \<in> label.name ` set (labels i)
            then ''in_progress''
          else ''not_started'')"
  using assms
proof (induction pm arbitrary: phases thesis)
  case Nil
  then show ?case by simp
next
  case (Cons entry pm)
  obtain num titles where entry: "entry = (num, titles)" by (cases entry)
  let ?issues = "[i \<leftarrow> issues. list_ex (\<lambda>t. str_contains (title i) t) titles]"
  let ?total = "length ?issues"
  let ?completed = "length [i \<leftarrow> ?issues. state i = ''closed'']"
  let ?status = "if ?completed = ?total \<and> ?total > 0 then ''completed''
          else if ?completed > 0 then ''in_progress''
          else if list_ex (\<lambda>i. state i = ''open'' \<and>
                     list_ex (\<lambda>label. label.name label = ''in-progress'') (labels i)) ?issues
            then ''in_progress''
          else ''not_started''"
  from Cons.prems(2) obtain nm rest where rest: "phase_loop issues pm = Inr rest"
    and phases: "phases = \<lparr>phase = num, name = nm, status = ?status,
                        tasks_total = ?total, tasks_completed = ?completed\<rparr> # rest"
    by (auto simp: entry Let_def split: option.splits sum.splits)
  from Cons.prems(3) phases consider
    "p = \<lparr>phase = num, name = nm, status = ?status,
                        tasks_total = ?total, tasks_completed = ?completed\<rparr>" | "p \<in> set rest"
    by auto
  then show ?case
  proof cases
    case 1
    have same: "?issues = [i \<leftarrow> issues. \<exists>t \<in> set titles. str_contains (title i) t]"
      by (simp add: list_ex_iff)
    have a: "(phase p, titles) \<in> set (entry # pm)" using 1 entry by simp
    have b: "tasks_total p =
         length [i \<leftarrow> issues. \<exists>t \<in> set titles. str_contains (title i) t]"
      using 1 same by simp
    have c: "tasks_completed p =
         length [i \<leftarrow> [i \<leftarrow> issues. \<exists>t \<in> set titles. str_contains (title i) t].
                   state i = ''closed'']"
      using 1 same by simp
    have ex: "list_ex (\<lambda>i. state i = ''open'' \<and>
                     list_ex (\<lambda>label. label.name label = ''in-progress'') (labels i)) ?issues
       \<longleftrightarrow> (\<exists>i \<in> set issues. (\<exists>t \<in> set titles. str_contains (title i) t)
                     \<and> state i = ''open''
                     \<and> ''in-progress'' \<in> label.name ` set (labels i))"
      unfolding list_ex_label by (simp add: list_ex_iff) blast
    have "status p = ?status" using 1 by simp
    then have d: "status p =
         (if tasks_completed p = tasks_total p \<and> tasks_total p > 0 then ''completed''
          else if tasks_completed p > 0 then ''in_progress''
          else if \<exists>i \<in> set issues. (\<exists>t \<in> set titles. str_contains (title i) t)
                     \<and> state i = ''open''
                     \<and> ''in-progress'' \<in> label.name ` set (labels i)
            then ''in_progress''
          else ''not_started'')"
      unfolding ex using 1 by simp
    from a b c d show ?thesis by (rule Cons.prems(1))
  next
    case 2
    show ?thesis
    proof (rule Cons.IH [OF _ rest 2])
      fix titles'
      assume "(phase p, titles') \<in> set pm"
        and "tasks_total p =
         length [i \<leftarrow> issues. \<exists>t \<in> set titles'. str_contains (title i) t]"
        and "tasks_completed p =
         length [i \<leftarrow> [i \<leftarrow> issues. \<exists>t \<in> set titles'. str_contains (title i) t].
                   state i = ''closed'']"
        and "status p =
         (if tasks_completed p = tasks_total p \<and> tasks_total p > 0 then ''completed''
          else if tasks_completed p > 0 then ''in_progress''
          else if \<exists>i \<in> set issues. (\<exists>t \<in> set titles'. str_contains (title i) t)
                     \<and> state i = ''open''
                     \<and> ''in-progress'' \<in> label.name ` set (labels i)
            then ''in_progress''
          else ''not_started'')"
      then show thesis by (intro Cons.prems(1) [of titles']) simp_all
    qed
  qed
qed

lemma get_phase_status_returns: "\<exists>phases. get_phase_status issues = Inr phases"
  by (simp add: get_phase_status_def phase_mapping_def phase_names_def Let_def)

lemma distinct_phase_mapping: "distinct (map fst phase_mapping)"
  by (simp add: phase_mapping_def)

lemma status_cases:
  assumes "s = (if A then ''completed'' else if B then ''in_progress''
                else if C then ''in_progress'' else ''not_started'')"
  shows "(s = ''completed'' \<longleftrightarrow> A)"
    and "(s = ''in_progress'' \<longleftrightarrow> \<not> A \<and> (B \<or> C))"
    and "(s = ''not_started'' \<longleftrightarrow> \<not> A \<and> \<not> (B \<or> C))"
  using assms by auto

subsection \<open>What a step writes, with shared dictionaries\<close>

text \<open>
  The facts of this part hold for every document, whatever it shares: they speak of what a
  key reads after a step, through \<open>lookup\<close>.
\<close>

lemma and_then_Inr: "and_then r f = Inr y \<longleftrightarrow> (\<exists>x. r = Inr x \<and> f x = Inr y)"
  by (cases r) (auto simp: and_then_def)

lemma lookup_YMap [simp]: "lookup tbl (YMap its) k = map_of its k"
  by (simp add: lookup_def items_of_def)

lemma getitem_Inr: "getitem tbl obj k = Inr v \<longleftrightarrow> lookup tbl obj k = Some v"
  by (auto simp: getitem_def lookup_def split: option.splits)

lemma frame_refl: "frame W tbl tbl"
  by (simp add: frame_def)

lemma frame_mono: "frame W tbl tbl' \<Longrightarrow> W \<subseteq> W' \<Longrightarrow> frame W' tbl tbl'"
  by (auto simp: frame_def)

lemma frame_trans: "frame W tbl tbl1 \<Longrightarrow> frame W' tbl1 tbl2 \<Longrightarrow> frame (W \<union> W') tbl tbl2"
  by (simp add: frame_def)

lemma frameD: "frame W tbl tbl' \<Longrightarrow> k \<notin> W \<Longrightarrow> lookup tbl' v k = lookup tbl v k"
  by (simp add: frame_def)

lemma evolvesD: "evolves W tbl obj tbl' obj' \<Longrightarrow> k \<notin> W \<Longrightarrow> lookup tbl' obj' k = lookup tbl obj k"
  by (simp add: evolves_def)

lemma evolves_mono: "evolves W tbl obj tbl' obj' \<Longrightarrow> W \<subseteq> W' \<Longrightarrow> evolves W' tbl obj tbl' obj'"
  by (auto simp: evolves_def)

lemma evolves_trans:
  "evolves W tbl obj tbl1 obj1 \<Longrightarrow> evolves W' tbl1 obj1 tbl2 obj2
     \<Longrightarrow> evolves (W \<union> W') tbl obj tbl2 obj2"
  unfolding evolves_def by (cases obj) auto

lemma items_of_update:
  "items_of (AList.update a its tbl) v = (if v = YAlias a then Some its else items_of tbl v)"
  by (cases v) (simp_all add: items_of_def update_conv')

lemma items_of_Some:
  assumes "items_of tbl obj = Some its0"
  obtains a where "obj = YAlias a" | "obj = YMap its0"
  using assms by (cases obj) (simp_all add: items_of_def)

lemma lookup_put:
  assumes "items_of tbl obj = Some its0" and "put tbl obj its = (tbl', obj')"
  shows "lookup tbl' obj' k = map_of its k"
    and "lookup tbl' v k = (if v = obj \<and> (\<exists>a. obj = YAlias a) then map_of its k else lookup tbl v k)"
    and "\<forall>a. obj = YAlias a \<longrightarrow> obj' = obj"
    and "(\<forall>a. obj \<noteq> YAlias a) \<longrightarrow> obj' = YMap its \<and> tbl' = tbl"
proof -
  from assms(1) show "lookup tbl' obj' k = map_of its k"
  proof (cases rule: items_of_Some)
    case (1 a)
    with assms(2) show ?thesis by (auto simp: put_def lookup_def items_of_update)
  next
    case 2
    with assms(2) show ?thesis by (auto simp: put_def)
  qed
  from assms(1) show "lookup tbl' v k =
      (if v = obj \<and> (\<exists>a. obj = YAlias a) then map_of its k else lookup tbl v k)"
  proof (cases rule: items_of_Some)
    case (1 a)
    with assms(2) show ?thesis by (auto simp: put_def lookup_def items_of_update)
  next
    case 2
    with assms(2) show ?thesis by (auto simp: put_def)
  qed
  from assms(1) show "\<forall>a. obj = YAlias a \<longrightarrow> obj' = obj"
  proof (cases rule: items_of_Some)
    case (1 a)
    with assms(2) show ?thesis by (auto simp: put_def)
  next
    case 2
    with assms(2) show ?thesis by (auto simp: put_def)
  qed
  from assms(1) show "(\<forall>a. obj \<noteq> YAlias a) \<longrightarrow> obj' = YMap its \<and> tbl' = tbl"
  proof (cases rule: items_of_Some)
    case (1 a)
    with assms(2) show ?thesis by (auto simp: put_def)
  next
    case 2
    with assms(2) show ?thesis by (auto simp: put_def)
  qed
qed

lemma lookup_items: "items_of tbl obj = Some its \<Longrightarrow> lookup tbl obj k = map_of its k"
  by (simp add: lookup_def)

lemma setitem_writes:
  assumes "setitem tbl obj k x = Inr (tbl', obj')"
  shows "lookup tbl' obj' k = Some x" and "frame {k} tbl tbl'" and "evolves {k} tbl obj tbl' obj'"
proof -
  from assms obtain its where its: "items_of tbl obj = Some its"
    and p: "put tbl obj (AList.update k x its) = (tbl', obj')"
    by (auto simp: setitem_def split: option.splits)
  note l = lookup_put [OF its p]
  show "lookup tbl' obj' k = Some x" by (simp add: l(1) update_conv')
  show "frame {k} tbl tbl'"
    unfolding frame_def by (simp add: l(2) update_conv' lookup_items [OF its])
  show "evolves {k} tbl obj tbl' obj'"
    unfolding evolves_def using l(3,4) by (simp add: l(1) update_conv' lookup_items [OF its])
qed

lemma dict_update_writes:
  assumes "dict_update tbl obj (metrics_items m) = Inr (tbl', obj')"
  shows "lookup tbl' obj' ''total_tasks'' = Some (YInt (int (total_tasks m)))"
    and "lookup tbl' obj' ''completed_tasks'' = Some (YInt (int (completed_tasks m)))"
    and "lookup tbl' obj' ''in_progress_tasks'' = Some (YInt (int (in_progress_tasks m)))"
    and "lookup tbl' obj' ''blocked_tasks'' = Some (YInt (int (blocked_tasks m)))"
    and "frame {''total_tasks'', ''completed_tasks'', ''in_progress_tasks'', ''blocked_tasks''}
           tbl tbl'"
    and "evolves {''total_tasks'', ''completed_tasks'', ''in_progress_tasks'', ''blocked_tasks''}
           tbl obj tbl' obj'"
proof -
  let ?new = "fold (\<lambda>(k, v). AList.update k v) (metrics_items m)"
  from assms obtain its where its: "items_of tbl obj = Some its"
    and p: "put tbl obj (?new its) = (tbl', obj')"
    by (auto simp: dict_update_def split: option.splits)
  note l = lookup_put [OF its p]
  have new: "map_of (?new its) = (map_of its)(
      ''total_tasks'' \<mapsto> YInt (int (total_tasks m)),
      ''completed_tasks'' \<mapsto> YInt (int (completed_tasks m)),
      ''in_progress_tasks'' \<mapsto> YInt (int (in_progress_tasks m)),
      ''blocked_tasks'' \<mapsto> YInt (int (blocked_tasks m)))"
    by (simp add: metrics_items_def update_conv')
  show "lookup tbl' obj' ''total_tasks'' = Some (YInt (int (total_tasks m)))"
    "lookup tbl' obj' ''completed_tasks'' = Some (YInt (int (completed_tasks m)))"
    "lookup tbl' obj' ''in_progress_tasks'' = Some (YInt (int (in_progress_tasks m)))"
    "lookup tbl' obj' ''blocked_tasks'' = Some (YInt (int (blocked_tasks m)))"
    by (simp_all add: l(1) new)
  show "frame {''total_tasks'', ''completed_tasks'', ''in_progress_tasks'', ''blocked_tasks''}
           tbl tbl'"
    unfolding frame_def by (simp add: l(2) new lookup_items [OF its])
  show "evolves {''total_tasks'', ''completed_tasks'', ''in_progress_tasks'', ''blocked_tasks''}
           tbl obj tbl' obj'"
    unfolding evolves_def using l(3,4) by (simp add: l(1) new lookup_items [OF its])
qed

lemma in_place_writes:
  assumes ip: "in_place tbl obj k f = Inr (tbl', obj')"
    and f: "\<And>c tbl1 c1. f tbl c = Inr (tbl1, c1) \<Longrightarrow> frame W tbl tbl1 \<and> evolves W tbl c tbl1 c1"
    and k: "k \<notin> W"
  obtains c tbl1 c' where "lookup tbl obj k = Some c" and "f tbl c = Inr (tbl1, c')"
    and "lookup tbl' obj' k = Some c'"
    and "\<And>j. lookup tbl' c' j = lookup tbl1 c' j"
    and "frame {k} tbl1 tbl'"
    and "frame (insert k W) tbl tbl'"
    and "evolves (insert k W) tbl obj tbl' obj'"
proof -
  from ip obtain c tbl1 c1 where c: "lookup tbl obj k = Some c"
    and fc: "f tbl c = Inr (tbl1, c1)"
    and rest: "(case c of YAlias a \<Rightarrow> Inr (tbl1, obj) | _ \<Rightarrow> setitem tbl1 obj k c1)
                 = Inr (tbl', obj')"
    by (auto simp: in_place_def and_then_Inr getitem_Inr)
  from f [OF fc] have fr: "frame W tbl tbl1" and ev: "evolves W tbl c tbl1 c1" by simp_all
  from c obtain its where its: "items_of tbl obj = Some its"
    by (auto simp: lookup_def split: option.splits)
  show thesis
  proof (cases "\<exists>a. c = YAlias a")
    case True
    then obtain a where a: "c = YAlias a" by blast
    with rest have eq: "tbl' = tbl1" "obj' = obj" by simp_all
    from ev a have c1: "c1 = c" by (simp add: evolves_def)
    have 1: "lookup tbl' obj' k = Some c1"
      using frameD [OF fr k, of obj] c c1 eq by simp
    have 2: "\<And>j. lookup tbl' c1 j = lookup tbl1 c1 j" by (simp add: eq)
    have 5: "frame {k} tbl1 tbl'" by (simp add: eq frame_refl)
    have 3: "frame (insert k W) tbl tbl'"
      using fr eq by (auto intro: frame_mono)
    have 4: "evolves (insert k W) tbl obj tbl' obj'"
      unfolding evolves_def eq using fr its
      by (cases obj) (auto simp: frame_def items_of_def)
    from c fc 1 2 5 3 4 show thesis by (rule that)
  next
    case False
    then have inl: "\<forall>a. c \<noteq> YAlias a" by blast
    with rest have st: "setitem tbl1 obj k c1 = Inr (tbl', obj')"
      by (cases c) simp_all
    from ev inl obtain its1 where c1: "c1 = YMap its1" by (auto simp: evolves_def)
    note s = setitem_writes [OF st]
    have 1: "lookup tbl' obj' k = Some c1" by (rule s(1))
    have 2: "\<And>j. lookup tbl' c1 j = lookup tbl1 c1 j" by (simp add: c1)
    have 5: "frame {k} tbl1 tbl'" by (rule s(2))
    have 3: "frame (insert k W) tbl tbl'"
      using frame_trans [OF fr s(2)] by (simp add: Un_commute)
    have "evolves W tbl obj tbl1 obj"
      unfolding evolves_def using fr its
      by (cases obj) (auto simp: frame_def items_of_def)
    from evolves_trans [OF this s(3)]
    have 4: "evolves (insert k W) tbl obj tbl' obj'" by (simp add: Un_commute)
    from c fc 1 2 5 3 4 show thesis by (rule that)
  qed
qed

lemma write_under:
  assumes ip: "in_place tbl obj k (\<lambda>tbl c. setitem tbl c j x) = Inr (tbl', obj')"
    and kj: "k \<noteq> j"
  obtains c c' where "lookup tbl obj k = Some c"
    and "lookup tbl' obj' k = Some c'"
    and "lookup tbl' c' j = Some x"
    and "\<And>i. i \<noteq> j \<Longrightarrow> lookup tbl' c' i = lookup tbl c i"
    and "frame {k, j} tbl tbl'"
    and "evolves {k, j} tbl obj tbl' obj'"
proof -
  have spec: "frame {j} tbl tbl1 \<and> evolves {j} tbl c tbl1 c1"
    if "setitem tbl c j x = Inr (tbl1, c1)" for c tbl1 c1
    using setitem_writes(2,3) [OF that] by simp
  from kj have notin: "k \<notin> {j}" by simp
  from ip spec notin show thesis
  proof (rule in_place_writes)
    fix c tbl1 c'
    assume c: "lookup tbl obj k = Some c"
      and s: "setitem tbl c j x = Inr (tbl1, c')"
      and c': "lookup tbl' obj' k = Some c'"
      and same: "\<And>i. lookup tbl' c' i = lookup tbl1 c' i"
      and "frame {k} tbl1 tbl'"
      and fr: "frame (insert k {j}) tbl tbl'"
      and ev: "evolves (insert k {j}) tbl obj tbl' obj'"
    note w = setitem_writes [OF s]
    have 1: "lookup tbl' c' j = Some x" using same w(1) by simp
    have 2: "lookup tbl' c' i = lookup tbl c i" if "i \<noteq> j" for i
      using same evolvesD [OF w(3), of i] that by simp
    from c c' 1 2 fr ev show thesis by (rule that)
  qed
qed

lemma update_progress_writes:
  assumes "update_progress t m v ps tbl P = Inr (tbl', P')"
  obtains cs cs' ms' vs' where
      "lookup tbl P ''current_status'' = Some cs"
    and "lookup tbl' P' ''current_status'' = Some cs'"
    and "lookup tbl' cs' ''last_updated'' = Some (YStr t)"
    and "\<And>i. i \<notin> {''last_updated'', ''current_status'', ''metrics'', ''total_tasks'',
                   ''completed_tasks'', ''in_progress_tasks'', ''blocked_tasks'', ''velocity'',
                   ''current'', ''phases''} \<Longrightarrow> lookup tbl' cs' i = lookup tbl cs i"
    and "lookup tbl' P' ''metrics'' = Some ms'"
    and "lookup tbl' ms' ''total_tasks'' = Some (YInt (int (total_tasks m)))"
    and "lookup tbl' ms' ''completed_tasks'' = Some (YInt (int (completed_tasks m)))"
    and "lookup tbl' ms' ''in_progress_tasks'' = Some (YInt (int (in_progress_tasks m)))"
    and "lookup tbl' ms' ''blocked_tasks'' = Some (YInt (int (blocked_tasks m)))"
    and "lookup tbl' ms' ''velocity'' = Some vs'"
    and "lookup tbl' vs' ''current'' = Some (YFloat (py_round v 2))"
    and "lookup tbl' P' ''phases'' = Some (YSeq (map phase_yaml ps))"
    and "frame {''last_updated'', ''current_status'', ''metrics'', ''total_tasks'',
                ''completed_tasks'', ''in_progress_tasks'', ''blocked_tasks'', ''velocity'',
                ''current'', ''phases''} tbl tbl'"
    and "evolves {''last_updated'', ''current_status'', ''metrics'', ''total_tasks'',
                ''completed_tasks'', ''in_progress_tasks'', ''blocked_tasks'', ''velocity'',
                ''current'', ''phases''} tbl P tbl' P'"
proof -
  let ?W = "{''last_updated'', ''current_status'', ''metrics'', ''total_tasks'',
                ''completed_tasks'', ''in_progress_tasks'', ''blocked_tasks'', ''velocity'',
                ''current'', ''phases''}"
  let ?C = "{''total_tasks'', ''completed_tasks'', ''in_progress_tasks'', ''blocked_tasks''}"
  from assms obtain tbl1 P1 tbl2 P2 tbl3 P3 where
    s1: "in_place tbl P ''current_status''
           (\<lambda>tbl cs. setitem tbl cs ''last_updated'' (YStr t)) = Inr (tbl1, P1)"
    and s2: "in_place tbl1 P1 ''metrics''
           (\<lambda>tbl m'. dict_update tbl m' (metrics_items m)) = Inr (tbl2, P2)"
    and s3: "in_place tbl2 P2 ''metrics'' (\<lambda>tbl m'.
                 in_place tbl m' ''velocity''
                   (\<lambda>tbl v'. setitem tbl v' ''current'' (YFloat (py_round v 2))))
               = Inr (tbl3, P3)"
    and s4: "setitem tbl3 P3 ''phases'' (YSeq (map phase_yaml ps)) = Inr (tbl', P')"
    by (auto simp: update_progress_def and_then_Inr)
  \<comment> \<open>step 1\<close>
  from s1 obtain cs cs1 where cs: "lookup tbl P ''current_status'' = Some cs"
    and cs1: "lookup tbl1 P1 ''current_status'' = Some cs1"
    and lu1: "lookup tbl1 cs1 ''last_updated'' = Some (YStr t)"
    and keep1: "\<And>i. i \<noteq> ''last_updated'' \<Longrightarrow> lookup tbl1 cs1 i = lookup tbl cs i"
    and fr1: "frame {''current_status'', ''last_updated''} tbl tbl1"
    and ev1: "evolves {''current_status'', ''last_updated''} tbl P tbl1 P1"
    by (rule write_under) simp_all
  \<comment> \<open>step 2\<close>
  have spec2: "frame ?C tbl1 tblx \<and> evolves ?C tbl1 c tblx cx"
    if "dict_update tbl1 c (metrics_items m) = Inr (tblx, cx)" for c tblx cx
    using dict_update_writes(5,6) [OF that] by simp
  have notin2: "''metrics'' \<notin> ?C" by simp
  from s2 spec2 notin2 obtain c2 tbl2a ms2 where
    c2: "lookup tbl1 P1 ''metrics'' = Some c2"
    and du2: "dict_update tbl1 c2 (metrics_items m) = Inr (tbl2a, ms2)"
    and ms2: "lookup tbl2 P2 ''metrics'' = Some ms2"
    and same2: "\<And>j. lookup tbl2 ms2 j = lookup tbl2a ms2 j"
    and "frame {''metrics''} tbl2a tbl2"
    and fr2: "frame (insert ''metrics'' ?C) tbl1 tbl2"
    and ev2: "evolves (insert ''metrics'' ?C) tbl1 P1 tbl2 P2"
    by (rule in_place_writes) simp_all
  note d = dict_update_writes(1-4) [OF du2]
  have cnt2: "lookup tbl2 ms2 ''total_tasks'' = Some (YInt (int (total_tasks m)))"
    "lookup tbl2 ms2 ''completed_tasks'' = Some (YInt (int (completed_tasks m)))"
    "lookup tbl2 ms2 ''in_progress_tasks'' = Some (YInt (int (in_progress_tasks m)))"
    "lookup tbl2 ms2 ''blocked_tasks'' = Some (YInt (int (blocked_tasks m)))"
    using d by (simp_all add: same2)
  \<comment> \<open>step 3\<close>
  have spec3: "frame {''velocity'', ''current''} tbl2 tblx
                \<and> evolves {''velocity'', ''current''} tbl2 c tblx cx"
    if "in_place tbl2 c ''velocity''
          (\<lambda>tbl v'. setitem tbl v' ''current'' (YFloat (py_round v 2))) = Inr (tblx, cx)"
    for c tblx cx
  proof -
    from that obtain c0 c1 where "frame {''velocity'', ''current''} tbl2 tblx"
      and "evolves {''velocity'', ''current''} tbl2 c tblx cx"
      by (rule write_under) simp_all
    then show ?thesis by simp
  qed
  have notin3: "''metrics'' \<notin> {''velocity'', ''current''}" by simp
  from s3 spec3 notin3 obtain ms2' tbl3a ms3 where
    ms2': "lookup tbl2 P2 ''metrics'' = Some ms2'"
    and inner: "in_place tbl2 ms2' ''velocity''
          (\<lambda>tbl v'. setitem tbl v' ''current'' (YFloat (py_round v 2))) = Inr (tbl3a, ms3)"
    and ms3: "lookup tbl3 P3 ''metrics'' = Some ms3"
    and same3: "\<And>j. lookup tbl3 ms3 j = lookup tbl3a ms3 j"
    and back3: "frame {''metrics''} tbl3a tbl3"
    and fr3: "frame (insert ''metrics'' {''velocity'', ''current''}) tbl2 tbl3"
    and ev3: "evolves (insert ''metrics'' {''velocity'', ''current''}) tbl2 P2 tbl3 P3"
    by (rule in_place_writes) simp_all
  from ms2 ms2' have [simp]: "ms2' = ms2" by simp
  from inner obtain vs3 where vs3: "lookup tbl3a ms3 ''velocity'' = Some vs3"
    and cur3a: "lookup tbl3a vs3 ''current'' = Some (YFloat (py_round v 2))"
    and ev3m: "evolves {''velocity'', ''current''} tbl2 ms2 tbl3a ms3"
    and fr3a: "frame {''velocity'', ''current''} tbl2 tbl3a"
    by (rule write_under) simp_all
  have vel3: "lookup tbl3 ms3 ''velocity'' = Some vs3" using vs3 by (simp add: same3)
  have cur3: "lookup tbl3 vs3 ''current'' = Some (YFloat (py_round v 2))"
    using frameD [OF back3, of "''current''" vs3] cur3a by simp
  have cnt3: "lookup tbl3 ms3 ''total_tasks'' = Some (YInt (int (total_tasks m)))"
    "lookup tbl3 ms3 ''completed_tasks'' = Some (YInt (int (completed_tasks m)))"
    "lookup tbl3 ms3 ''in_progress_tasks'' = Some (YInt (int (in_progress_tasks m)))"
    "lookup tbl3 ms3 ''blocked_tasks'' = Some (YInt (int (blocked_tasks m)))"
    using cnt2 evolvesD [OF ev3m] by (simp_all add: same3)
  \<comment> \<open>step 4\<close>
  note w4 = setitem_writes [OF s4]
  \<comment> \<open>the current_status mapping through steps 2 to 4\<close>
  have cs3: "lookup tbl3 P3 ''current_status'' = Some cs1"
    using cs1 evolvesD [OF ev2, of "''current_status''"] evolvesD [OF ev3, of "''current_status''"]
    by simp
  have cs4: "lookup tbl' P' ''current_status'' = Some cs1"
    using cs3 evolvesD [OF w4(3), of "''current_status''"] by simp
  have fr24: "frame (insert ''metrics'' ?C \<union> insert ''metrics'' {''velocity'', ''current''}
                      \<union> {''phases''}) tbl1 tbl'"
    by (rule frame_trans [OF frame_trans [OF fr2 fr3] w4(2)])
  have lu4: "lookup tbl' cs1 ''last_updated'' = Some (YStr t)"
    using frameD [OF fr24, of "''last_updated''" cs1] lu1 by simp
  have keep4: "lookup tbl' cs1 i = lookup tbl cs i" if "i \<notin> ?W" for i
    using frameD [OF fr24, of i cs1] keep1 [of i] that by simp
  \<comment> \<open>the metrics mapping through step 4\<close>
  have ms4: "lookup tbl' P' ''metrics'' = Some ms3"
    using ms3 evolvesD [OF w4(3), of "''metrics''"] by simp
  have cnt4: "lookup tbl' ms3 ''total_tasks'' = Some (YInt (int (total_tasks m)))"
    "lookup tbl' ms3 ''completed_tasks'' = Some (YInt (int (completed_tasks m)))"
    "lookup tbl' ms3 ''in_progress_tasks'' = Some (YInt (int (in_progress_tasks m)))"
    "lookup tbl' ms3 ''blocked_tasks'' = Some (YInt (int (blocked_tasks m)))"
    using cnt3 frameD [OF w4(2), of _ ms3] by simp_all
  have vel4: "lookup tbl' ms3 ''velocity'' = Some vs3"
    using vel3 frameD [OF w4(2), of "''velocity''" ms3] by simp
  have cur4: "lookup tbl' vs3 ''current'' = Some (YFloat (py_round v 2))"
    using cur3 frameD [OF w4(2), of "''current''" vs3] by simp
  have fr: "frame ?W tbl tbl'"
    by (rule frame_mono [OF frame_trans [OF fr1 fr24]]) auto
  have ev: "evolves ?W tbl P tbl' P'"
    by (rule evolves_mono [OF evolves_trans [OF evolves_trans [OF evolves_trans
          [OF ev1 ev2] ev3] w4(3)]]) auto
  from cs cs4 lu4 keep4 ms4 cnt4 vel4 cur4 w4(1) fr ev show thesis by (rule that)
qed

lemma determine_current_phase_writes:
  assumes "determine_current_phase ps tbl P = Inr (tbl', P')"
    and "lookup tbl P ''current_status'' = Some cs"
  obtains cs' where "lookup tbl' P' ''current_status'' = Some cs'"
    and "\<And>i. i \<notin> {''phase'', ''phase_name''} \<Longrightarrow> lookup tbl' cs' i = lookup tbl cs i"
    and "case find (\<lambda>p. status p = ''in_progress'') ps of
           None \<Rightarrow> lookup tbl' cs' ''phase'' = lookup tbl cs ''phase''
                  \<and> lookup tbl' cs' ''phase_name'' = lookup tbl cs ''phase_name''
         | Some p \<Rightarrow> lookup tbl' cs' ''phase'' = Some (YInt (phase p))
                  \<and> lookup tbl' cs' ''phase_name'' = Some (YStr (phase_entry.name p))"
    and "frame {''current_status'', ''phase'', ''phase_name''} tbl tbl'"
    and "evolves {''current_status'', ''phase'', ''phase_name''} tbl P tbl' P'"
  using assms
proof (induction ps arbitrary: thesis)
  case Nil
  from Nil.prems(2) have eq: "tbl' = tbl" "P' = P" by simp_all
  have ev: "evolves {''current_status'', ''phase'', ''phase_name''} tbl P tbl P"
    using Nil.prems(3)
    by (cases P) (auto simp: evolves_def lookup_def items_of_def)
  show ?case
    by (rule Nil.prems(1) [of cs]) (use Nil.prems(3) ev in \<open>simp_all add: eq frame_refl\<close>)
next
  case (Cons p ps)
  show ?case
  proof (cases "status p = ''in_progress''")
    case False
    with Cons.prems(2) have run: "determine_current_phase ps tbl P = Inr (tbl', P')" by simp
    show ?thesis
    proof (rule Cons.IH [OF _ run Cons.prems(3)])
      fix cs'
      assume "lookup tbl' P' ''current_status'' = Some cs'"
        and "\<And>i. i \<notin> {''phase'', ''phase_name''} \<Longrightarrow> lookup tbl' cs' i = lookup tbl cs i"
        and "case find (\<lambda>p. status p = ''in_progress'') ps of
           None \<Rightarrow> lookup tbl' cs' ''phase'' = lookup tbl cs ''phase''
                  \<and> lookup tbl' cs' ''phase_name'' = lookup tbl cs ''phase_name''
         | Some p \<Rightarrow> lookup tbl' cs' ''phase'' = Some (YInt (phase p))
                  \<and> lookup tbl' cs' ''phase_name'' = Some (YStr (phase_entry.name p))"
        and "frame {''current_status'', ''phase'', ''phase_name''} tbl tbl'"
        and "evolves {''current_status'', ''phase'', ''phase_name''} tbl P tbl' P'"
      then show thesis using False by (intro Cons.prems(1) [of cs']) simp_all
    qed
  next
    case True
    with Cons.prems(2) obtain tbl1 P1 where
      s1: "in_place tbl P ''current_status''
             (\<lambda>tbl cs. setitem tbl cs ''phase'' (YInt (phase p))) = Inr (tbl1, P1)"
      and s2: "in_place tbl1 P1 ''current_status''
             (\<lambda>tbl cs. setitem tbl cs ''phase_name'' (YStr (phase_entry.name p))) = Inr (tbl', P')"
      by (auto simp: and_then_Inr)
    from s1 obtain c c1 where c: "lookup tbl P ''current_status'' = Some c"
      and c1: "lookup tbl1 P1 ''current_status'' = Some c1"
      and ph1: "lookup tbl1 c1 ''phase'' = Some (YInt (phase p))"
      and keep1: "\<And>i. i \<noteq> ''phase'' \<Longrightarrow> lookup tbl1 c1 i = lookup tbl c i"
      and fr1: "frame {''current_status'', ''phase''} tbl tbl1"
      and ev1: "evolves {''current_status'', ''phase''} tbl P tbl1 P1"
      by (rule write_under) simp_all
    from s2 obtain d c2 where d: "lookup tbl1 P1 ''current_status'' = Some d"
      and c2: "lookup tbl' P' ''current_status'' = Some c2"
      and pn2: "lookup tbl' c2 ''phase_name'' = Some (YStr (phase_entry.name p))"
      and keep2: "\<And>i. i \<noteq> ''phase_name'' \<Longrightarrow> lookup tbl' c2 i = lookup tbl1 d i"
      and fr2: "frame {''current_status'', ''phase_name''} tbl1 tbl'"
      and ev2: "evolves {''current_status'', ''phase_name''} tbl1 P1 tbl' P'"
      by (rule write_under) simp_all
    from c Cons.prems(3) have [simp]: "c = cs" by simp
    from d c1 have [simp]: "d = c1" by simp
    have keep: "lookup tbl' c2 i = lookup tbl cs i" if "i \<notin> {''phase'', ''phase_name''}" for i
      using keep1 [of i] keep2 [of i] that by simp
    have ph: "lookup tbl' c2 ''phase'' = Some (YInt (phase p))"
      using keep2 [of "''phase''"] ph1 by simp
    have fr: "frame {''current_status'', ''phase'', ''phase_name''} tbl tbl'"
      by (rule frame_mono [OF frame_trans [OF fr1 fr2]]) auto
    have ev: "evolves {''current_status'', ''phase'', ''phase_name''} tbl P tbl' P'"
      by (rule evolves_mono [OF evolves_trans [OF ev1 ev2]]) auto
    show ?thesis
      by (rule Cons.prems(1) [of c2]) (use c2 keep ph pn2 fr ev True in simp_all)
  qed
qed

lemma update_health_status_writes:
  assumes "update_health_status tbl P = Inr (tbl', P')"
    and "lookup tbl P ''current_status'' = Some cs"
    and "lookup tbl P ''metrics'' = Some ms"
    and "lookup tbl ms ''blocked_tasks'' = Some (YInt b)"
  obtains cs' where "lookup tbl' P' ''current_status'' = Some cs'"
    and "lookup tbl' cs' ''health'' =
           Some (YStr (if b > 2 then ''red'' else if b > 0 then ''yellow'' else ''green''))"
    and "\<And>i. i \<noteq> ''health'' \<Longrightarrow> lookup tbl' cs' i = lookup tbl cs i"
    and "frame {''current_status'', ''health''} tbl tbl'"
    and "evolves {''current_status'', ''health''} tbl P tbl' P'"
proof -
  let ?h = "if b > 2 then ''red'' else if b > 0 then ''yellow'' else ''green''"
  have "update_health_status tbl P =
          in_place tbl P ''current_status'' (\<lambda>tbl cs. setitem tbl cs ''health'' (YStr ?h))"
  proof -
    have g: "getitem tbl P ''metrics'' = Inr ms" "getitem tbl ms ''blocked_tasks'' = Inr (YInt b)"
      using assms(3,4) by (simp_all add: getitem_Inr)
    show ?thesis
      by (simp add: update_health_status_def and_then_def g py_gt_def)
  qed
  with assms(1) have "in_place tbl P ''current_status''
      (\<lambda>tbl cs. setitem tbl cs ''health'' (YStr ?h)) = Inr (tbl', P')" by simp
  then obtain c c' where c: "lookup tbl P ''current_status'' = Some c"
    and c': "lookup tbl' P' ''current_status'' = Some c'"
    and h: "lookup tbl' c' ''health'' = Some (YStr ?h)"
    and keep: "\<And>i. i \<noteq> ''health'' \<Longrightarrow> lookup tbl' c' i = lookup tbl c i"
    and fr: "frame {''current_status'', ''health''} tbl tbl'"
    and ev: "evolves {''current_status'', ''health''} tbl P tbl' P'"
    by (rule write_under) simp_all
  from c assms(2) have [simp]: "c = cs" by simp
  show thesis by (rule that [of c']) (use c' h keep fr ev in simp_all)
qed

lemma updated_document_lookups:
  assumes "updated_document env doc = Inr (doc', m, v)"
  obtains issues phases cs cs' ms' vs' where
      "and_then (get_issues (response env)) iterate = Inr issues"
    and "m = get_project_metrics issues"
    and "calculate_velocity (fromisoformat env) (now_velocity env) issues = Inr v"
    and "get_phase_status issues = Inr phases"
    and "lookup (anchors doc) (root doc) ''current_status'' = Some cs"
    and "lookup (anchors doc') (root doc') ''current_status'' = Some cs'"
    and "lookup (anchors doc') cs' ''last_updated'' = Some (YStr (now_isoformat env))"
    and "lookup (anchors doc') cs' ''health'' =
           Some (YStr (if blocked_tasks m > 2 then ''red''
                       else if blocked_tasks m > 0 then ''yellow'' else ''green''))"
    and "case find (\<lambda>p. status p = ''in_progress'') phases of
           None \<Rightarrow> lookup (anchors doc') cs' ''phase'' = lookup (anchors doc) cs ''phase''
                  \<and> lookup (anchors doc') cs' ''phase_name''
                      = lookup (anchors doc) cs ''phase_name''
         | Some p \<Rightarrow> lookup (anchors doc') cs' ''phase'' = Some (YInt (phase p))
                  \<and> lookup (anchors doc') cs' ''phase_name''
                      = Some (YStr (phase_entry.name p))"
    and "lookup (anchors doc') (root doc') ''metrics'' = Some ms'"
    and "lookup (anchors doc') ms' ''total_tasks'' = Some (YInt (int (total_tasks m)))"
    and "lookup (anchors doc') ms' ''completed_tasks'' = Some (YInt (int (completed_tasks m)))"
    and "lookup (anchors doc') ms' ''in_progress_tasks'' = Some (YInt (int (in_progress_tasks m)))"
    and "lookup (anchors doc') ms' ''blocked_tasks'' = Some (YInt (int (blocked_tasks m)))"
    and "lookup (anchors doc') ms' ''velocity'' = Some vs'"
    and "lookup (anchors doc') vs' ''current'' = Some (YFloat (py_round v 2))"
    and "lookup (anchors doc') (root doc') ''phases'' = Some (YSeq (map phase_yaml phases))"
proof -
  from assms obtain issues phases tbl1 P1 tbl2 P2 tbl3 P3 where
    fetch: "and_then (get_issues (response env)) iterate = Inr issues"
    and m: "m = get_project_metrics issues"
    and vel: "calculate_velocity (fromisoformat env) (now_velocity env) issues = Inr v"
    and ph: "get_phase_status issues = Inr phases"
    and up: "update_progress (now_isoformat env) m v phases (anchors doc) (root doc)
               = Inr (tbl1, P1)"
    and det: "determine_current_phase phases tbl1 P1 = Inr (tbl2, P2)"
    and health: "update_health_status tbl2 P2 = Inr (tbl3, P3)"
    and doc': "doc' = \<lparr>anchors = tbl3, root = P3\<rparr>"
    by (auto simp: updated_document_def and_then_Inr Let_def)
  let ?W1 = "{''last_updated'', ''current_status'', ''metrics'', ''total_tasks'',
                ''completed_tasks'', ''in_progress_tasks'', ''blocked_tasks'', ''velocity'',
                ''current'', ''phases''}"
  from up obtain cs cs1 ms1 vs1 where
    cs: "lookup (anchors doc) (root doc) ''current_status'' = Some cs"
    and cs1: "lookup tbl1 P1 ''current_status'' = Some cs1"
    and lu1: "lookup tbl1 cs1 ''last_updated'' = Some (YStr (now_isoformat env))"
    and keep1: "\<And>i. i \<notin> ?W1 \<Longrightarrow> lookup tbl1 cs1 i = lookup (anchors doc) cs i"
    and ms1: "lookup tbl1 P1 ''metrics'' = Some ms1"
    and cnt1: "lookup tbl1 ms1 ''total_tasks'' = Some (YInt (int (total_tasks m)))"
      "lookup tbl1 ms1 ''completed_tasks'' = Some (YInt (int (completed_tasks m)))"
      "lookup tbl1 ms1 ''in_progress_tasks'' = Some (YInt (int (in_progress_tasks m)))"
      "lookup tbl1 ms1 ''blocked_tasks'' = Some (YInt (int (blocked_tasks m)))"
    and vel1: "lookup tbl1 ms1 ''velocity'' = Some vs1"
    and cur1: "lookup tbl1 vs1 ''current'' = Some (YFloat (py_round v 2))"
    and phs1: "lookup tbl1 P1 ''phases'' = Some (YSeq (map phase_yaml phases))"
    and fr1: "frame ?W1 (anchors doc) tbl1"
    and ev1: "evolves ?W1 (anchors doc) (root doc) tbl1 P1"
    by (rule update_progress_writes) simp_all
  let ?W2 = "{''current_status'', ''phase'', ''phase_name''}"
  from det cs1 obtain cs2 where
    cs2: "lookup tbl2 P2 ''current_status'' = Some cs2"
    and keep2: "\<And>i. i \<notin> {''phase'', ''phase_name''} \<Longrightarrow> lookup tbl2 cs2 i = lookup tbl1 cs1 i"
    and found2: "case find (\<lambda>p. status p = ''in_progress'') phases of
           None \<Rightarrow> lookup tbl2 cs2 ''phase'' = lookup tbl1 cs1 ''phase''
                  \<and> lookup tbl2 cs2 ''phase_name'' = lookup tbl1 cs1 ''phase_name''
         | Some p \<Rightarrow> lookup tbl2 cs2 ''phase'' = Some (YInt (phase p))
                  \<and> lookup tbl2 cs2 ''phase_name'' = Some (YStr (phase_entry.name p))"
    and fr2: "frame ?W2 tbl1 tbl2"
    and ev2: "evolves ?W2 tbl1 P1 tbl2 P2"
    by (rule determine_current_phase_writes) simp_all
  have ms2: "lookup tbl2 P2 ''metrics'' = Some ms1"
    using ms1 evolvesD [OF ev2, of "''metrics''"] by simp
  have blocked2: "lookup tbl2 ms1 ''blocked_tasks'' = Some (YInt (int (blocked_tasks m)))"
    using cnt1(4) frameD [OF fr2, of "''blocked_tasks''" ms1] by simp
  let ?W3 = "{''current_status'', ''health''}"
  from health cs2 ms2 blocked2 obtain cs3 where
    cs3: "lookup tbl3 P3 ''current_status'' = Some cs3"
    and h3: "lookup tbl3 cs3 ''health'' =
           Some (YStr (if int (blocked_tasks m) > 2 then ''red''
                       else if int (blocked_tasks m) > 0 then ''yellow'' else ''green''))"
    and keep3: "\<And>i. i \<noteq> ''health'' \<Longrightarrow> lookup tbl3 cs3 i = lookup tbl2 cs2 i"
    and fr3: "frame ?W3 tbl2 tbl3"
    and ev3: "evolves ?W3 tbl2 P2 tbl3 P3"
    by (rule update_health_status_writes) simp_all
  have fr23: "frame (?W2 \<union> ?W3) tbl1 tbl3" by (rule frame_trans [OF fr2 fr3])
  have ev23: "evolves (?W2 \<union> ?W3) tbl1 P1 tbl3 P3" by (rule evolves_trans [OF ev2 ev3])
  have a: "lookup (anchors doc') (root doc') ''current_status'' = Some cs3"
    by (simp add: doc' cs3)
  have b: "lookup (anchors doc') cs3 ''last_updated'' = Some (YStr (now_isoformat env))"
    using keep3 [of "''last_updated''"] keep2 [of "''last_updated''"] lu1 by (simp add: doc')
  have c: "lookup (anchors doc') cs3 ''health'' =
           Some (YStr (if blocked_tasks m > 2 then ''red''
                       else if blocked_tasks m > 0 then ''yellow'' else ''green''))"
    using h3 by (simp add: doc')
  have d: "case find (\<lambda>p. status p = ''in_progress'') phases of
           None \<Rightarrow> lookup (anchors doc') cs3 ''phase'' = lookup (anchors doc) cs ''phase''
                  \<and> lookup (anchors doc') cs3 ''phase_name''
                      = lookup (anchors doc) cs ''phase_name''
         | Some p \<Rightarrow> lookup (anchors doc') cs3 ''phase'' = Some (YInt (phase p))
                  \<and> lookup (anchors doc') cs3 ''phase_name''
                      = Some (YStr (phase_entry.name p))"
    using found2 keep3 [of "''phase''"] keep3 [of "''phase_name''"]
      keep1 [of "''phase''"] keep1 [of "''phase_name''"]
    by (simp add: doc' split: option.splits)
  have e: "lookup (anchors doc') (root doc') ''metrics'' = Some ms1"
    using ms1 evolvesD [OF ev23, of "''metrics''"] by (simp add: doc')
  have f: "lookup (anchors doc') ms1 ''total_tasks'' = Some (YInt (int (total_tasks m)))"
    "lookup (anchors doc') ms1 ''completed_tasks'' = Some (YInt (int (completed_tasks m)))"
    "lookup (anchors doc') ms1 ''in_progress_tasks'' = Some (YInt (int (in_progress_tasks m)))"
    "lookup (anchors doc') ms1 ''blocked_tasks'' = Some (YInt (int (blocked_tasks m)))"
    using cnt1 frameD [OF fr23, of _ ms1] by (simp_all add: doc')
  have g: "lookup (anchors doc') ms1 ''velocity'' = Some vs1"
    using vel1 frameD [OF fr23, of "''velocity''" ms1] by (simp add: doc')
  have h: "lookup (anchors doc') vs1 ''current'' = Some (YFloat (py_round v 2))"
    using cur1 frameD [OF fr23, of "''current''" vs1] by (simp add: doc')
  have i: "lookup (anchors doc') (root doc') ''phases'' = Some (YSeq (map phase_yaml phases))"
    using phs1 evolvesD [OF ev23, of "''phases''"] by (simp add: doc')
  from fetch m vel ph cs a b c d e f g h i show thesis by (rule that)
qed

subsection \<open>What a run does\<close>

lemma print_lines_file:
  "print_lines out ls w = (r, w') \<Longrightarrow> progress_file w' = progress_file w \<and> dumps w' = dumps w"
  by (induction out ls w rule: print_lines.induct) auto

lemma print_lines_Inr:
  "print_lines out ls w = (Inr u, w') \<Longrightarrow> console w' = console w @ ls"
  by (induction out ls w rule: print_lines.induct) auto

lemma load_Inr:
  assumes "load f = Inr doc"
  obtains "f = Empty" and "doc = \<lparr>anchors = [], root = YNull\<rparr>"
    | "f = Text doc" and "well_formed doc"
  using assms by (cases f) (auto simp: load_def split: if_splits)

lemma updated_document_root:
  assumes "updated_document env doc = Inr r"
  shows "root doc \<noteq> YNull"
proof -
  obtain doc' m v where "r = (doc', m, v)" by (cases r) auto
  with assms have "updated_document env doc = Inr (doc', m, v)" by simp
  then obtain cs where "lookup (anchors doc) (root doc) ''current_status'' = Some cs"
    by (rule updated_document_lookups)
  then show ?thesis by (auto simp: lookup_def items_of_def)
qed

lemma run_success:
  assumes "update_progress_file env w = (Inr u, w')"
  obtains doc doc' m v where "progress_file w = Text doc" and "well_formed doc"
    and "updated_document env doc = Inr (doc', m, v)"
    and "write_result env = WriteOk"
    and "progress_file w' = Text doc'"
    and "dumps w' = dumps w + 1"
    and "console w' = console w @ [ProgressUpdated (completed_tasks m) (total_tasks m),
                                    CurrentVelocity (py_round v 2)]"
proof -
  from assms obtain doc doc' m v where
    l: "load (progress_file w) = Inr doc"
    and d: "updated_document env doc = Inr (doc', m, v)"
    and rest: "(case write_back (write_result env) doc' w of
             (Inl e, w1) \<Rightarrow> (Inl e, w1)
           | (Inr u, w1) \<Rightarrow>
               print_lines (stdout env)
                 [ProgressUpdated (completed_tasks m) (total_tasks m),
                  CurrentVelocity (py_round v 2)] w1) = (Inr u, w')"
    by (auto simp: update_progress_file_def and_then_Inr split: sum.splits)
  from updated_document_root [OF d] have "root doc \<noteq> YNull" .
  with l have f: "progress_file w = Text doc" and wf: "well_formed doc"
    by (auto elim: load_Inr)
  from rest have ok: "write_result env = WriteOk"
    by (cases "write_result env") (auto simp: write_back_def)
  with rest have pr: "print_lines (stdout env)
                 [ProgressUpdated (completed_tasks m) (total_tasks m),
                  CurrentVelocity (py_round v 2)]
                 (w\<lparr>progress_file := Text doc', dumps := dumps w + 1\<rparr>) = (Inr u, w')"
    by (simp add: write_back_def)
  from print_lines_file [OF pr] have f': "progress_file w' = Text doc'"
    and n: "dumps w' = dumps w + 1" by simp_all
  from print_lines_Inr [OF pr] have c: "console w' = console w @
      [ProgressUpdated (completed_tasks m) (total_tasks m), CurrentVelocity (py_round v 2)]"
    by simp
  from f wf d ok f' n c show thesis by (rule that)
qed

lemma fetched_array:
  "response env = JsonArray issues \<Longrightarrow>
     and_then (get_issues (response env)) iterate = Inr issues' \<Longrightarrow> issues' = issues"
  by (simp add: get_issues_def iterate_def and_then_def)

lemma file_at_one:
  assumes "progress_file w = Text doc"
  shows "file_at w [a] = lookup (anchors doc) (root doc) a"
  using assms by (simp add: file_at_def split: option.splits)

lemma file_at_two:
  assumes "progress_file w = Text doc"
    and "lookup (anchors doc) (root doc) a = Some c"
  shows "file_at w [a, b] = lookup (anchors doc) c b"
  using assms by (simp add: file_at_def split: option.splits)

lemma file_at_three:
  assumes "progress_file w = Text doc"
    and "lookup (anchors doc) (root doc) a = Some c"
    and "lookup (anchors doc) c b = Some d"
  shows "file_at w [a, b, k] = lookup (anchors doc) d k"
  using assms by (simp add: file_at_def split: option.splits)

lemma run_writes:
  assumes "update_progress_file env w = (Inr u, w')"
  obtains issues velocity phases where
      "and_then (get_issues (response env)) iterate = Inr issues"
    and "calculate_velocity (fromisoformat env) (now_velocity env) issues = Inr velocity"
    and "get_phase_status issues = Inr phases"
    and "file_at w' [''current_status'', ''last_updated''] = Some (YStr (now_isoformat env))"
    and "file_at w' [''metrics'', ''total_tasks''] =
           Some (YInt (int (total_tasks (get_project_metrics issues))))"
    and "file_at w' [''metrics'', ''completed_tasks''] =
           Some (YInt (int (completed_tasks (get_project_metrics issues))))"
    and "file_at w' [''metrics'', ''in_progress_tasks''] =
           Some (YInt (int (in_progress_tasks (get_project_metrics issues))))"
    and "file_at w' [''metrics'', ''blocked_tasks''] =
           Some (YInt (int (blocked_tasks (get_project_metrics issues))))"
    and "file_at w' [''metrics'', ''velocity'', ''current''] =
           Some (YFloat (py_round velocity 2))"
    and "file_at w' [''phases''] = Some (YSeq (map phase_yaml phases))"
proof -
  from assms obtain doc doc' m v where d: "updated_document env doc = Inr (doc', m, v)"
    and f': "progress_file w' = Text doc'"
    by (rule run_success)
  from d obtain issues phases cs' ms' vs' where
    fetch: "and_then (get_issues (response env)) iterate = Inr issues"
    and m: "m = get_project_metrics issues"
    and vel: "calculate_velocity (fromisoformat env) (now_velocity env) issues = Inr v"
    and ph: "get_phase_status issues = Inr phases"
    and cs': "lookup (anchors doc') (root doc') ''current_status'' = Some cs'"
    and stamp: "lookup (anchors doc') cs' ''last_updated'' = Some (YStr (now_isoformat env))"
    and ms': "lookup (anchors doc') (root doc') ''metrics'' = Some ms'"
    and counters:
      "lookup (anchors doc') ms' ''total_tasks'' = Some (YInt (int (total_tasks m)))"
      "lookup (anchors doc') ms' ''completed_tasks'' = Some (YInt (int (completed_tasks m)))"
      "lookup (anchors doc') ms' ''in_progress_tasks'' = Some (YInt (int (in_progress_tasks m)))"
      "lookup (anchors doc') ms' ''blocked_tasks'' = Some (YInt (int (blocked_tasks m)))"
    and vs': "lookup (anchors doc') ms' ''velocity'' = Some vs'"
    and cur: "lookup (anchors doc') vs' ''current'' = Some (YFloat (py_round v 2))"
    and phs: "lookup (anchors doc') (root doc') ''phases'' = Some (YSeq (map phase_yaml phases))"
    by (rule updated_document_lookups)
  have a: "file_at w' [''current_status'', ''last_updated''] = Some (YStr (now_isoformat env))"
    using file_at_two [OF f' cs'] stamp by simp
  have b: "file_at w' [''metrics'', ''total_tasks''] =
           Some (YInt (int (total_tasks (get_project_metrics issues))))"
    "file_at w' [''metrics'', ''completed_tasks''] =
           Some (YInt (int (completed_tasks (get_project_metrics issues))))"
    "file_at w' [''metrics'', ''in_progress_tasks''] =
           Some (YInt (int (in_progress_tasks (get_project_metrics issues))))"
    "file_at w' [''metrics'', ''blocked_tasks''] =
           Some (YInt (int (blocked_tasks (get_project_metrics issues))))"
    using file_at_two [OF f' ms'] counters m by simp_all
  have c: "file_at w' [''metrics'', ''velocity'', ''current''] = Some (YFloat (py_round v 2))"
    using file_at_three [OF f' ms' vs'] cur by simp
  have e: "file_at w' [''phases''] = Some (YSeq (map phase_yaml phases))"
    using file_at_one [OF f'] phs by simp
  from fetch vel ph a b c e show thesis by (rule that)
qed

lemma print_two:
  "print_lines out [l1, l2] w =
     (case out of
        Healthy \<Rightarrow> (Inr (), w\<lparr>console := console w @ [l1, l2]\<rparr>)
      | BreaksAfter n \<Rightarrow>
          if n < 2 then (Inl OSError, w\<lparr>console := console w @ take n [l1, l2]\<rparr>)
          else (Inr (), w\<lparr>console := console w @ [l1, l2]\<rparr>))"
proof (cases out)
  case Healthy
  then show ?thesis by simp
next
  case (BreaksAfter n)
  then show ?thesis
    by (cases n rule: nat.exhaust [case_names zero Suc];
        cases "n - 1" rule: nat.exhaust [case_names zero Suc]) auto
qed

lemma update_progress_file_cases:
  obtains (before) e where "and_then (load (progress_file w)) (updated_document env) = Inl e"
      and "update_progress_file env w = (Inl e, w)"
    | (refused) doc doc' m v where "progress_file w = Text doc" and "well_formed doc"
      and "updated_document env doc = Inr (doc', m, v)"
      and "write_result env = OpenRefused"
      and "update_progress_file env w = (Inl OSError, w)"
    | (dumping) doc doc' m v part where "progress_file w = Text doc" and "well_formed doc"
      and "updated_document env doc = Inr (doc', m, v)"
      and "write_result env = DumpFails part"
      and "update_progress_file env w =
             (Inl OSError,
              w\<lparr>progress_file :=
                   (case part of Nothing \<Rightarrow> Empty | Unreadable \<Rightarrow> NotYaml
                    | ReadsAs d \<Rightarrow> Text d)\<rparr>)"
    | (printing) doc doc' m v n where "progress_file w = Text doc" and "well_formed doc"
      and "updated_document env doc = Inr (doc', m, v)"
      and "write_result env = WriteOk" and "stdout env = BreaksAfter n" and "n < 2"
      and "update_progress_file env w =
             (Inl OSError,
              w\<lparr>progress_file := Text doc', dumps := dumps w + 1,
                console := console w @
                  take n [ProgressUpdated (completed_tasks m) (total_tasks m),
                          CurrentVelocity (py_round v 2)]\<rparr>)"
    | (complete) doc doc' m v where "progress_file w = Text doc" and "well_formed doc"
      and "updated_document env doc = Inr (doc', m, v)"
      and "write_result env = WriteOk"
      and "stdout env = Healthy \<or> (\<exists>n. stdout env = BreaksAfter n \<and> 2 \<le> n)"
      and "update_progress_file env w =
             (Inr (),
              w\<lparr>progress_file := Text doc', dumps := dumps w + 1,
                console := console w @
                  [ProgressUpdated (completed_tasks m) (total_tasks m),
                   CurrentVelocity (py_round v 2)]\<rparr>)"
proof (cases "and_then (load (progress_file w)) (updated_document env)")
  case (Inl e)
  then have "update_progress_file env w = (Inl e, w)" by (simp add: update_progress_file_def)
  with Inl show thesis by (rule before)
next
  case (Inr r)
  obtain doc' m v where r: "r = (doc', m, v)" by (cases r) auto
  from Inr r obtain doc where l: "load (progress_file w) = Inr doc"
    and d: "updated_document env doc = Inr (doc', m, v)"
    by (auto simp: and_then_Inr)
  from updated_document_root [OF d] have "root doc \<noteq> YNull" .
  with l have f: "progress_file w = Text doc" and wf: "well_formed doc"
    by (auto elim: load_Inr)
  show thesis
  proof (cases "write_result env")
    case WriteOk
    show thesis
    proof (cases "stdout env")
      case Healthy
      have "update_progress_file env w =
             (Inr (),
              w\<lparr>progress_file := Text doc', dumps := dumps w + 1,
                console := console w @
                  [ProgressUpdated (completed_tasks m) (total_tasks m),
                   CurrentVelocity (py_round v 2)]\<rparr>)"
        using Inr r WriteOk Healthy by (simp add: update_progress_file_def write_back_def)
      with f wf d WriteOk Healthy show thesis by (intro complete [of doc doc' m v]) simp_all
    next
      case (BreaksAfter n)
      show thesis
      proof (cases "n < 2")
        case True
        have "update_progress_file env w =
             (Inl OSError,
              w\<lparr>progress_file := Text doc', dumps := dumps w + 1,
                console := console w @
                  take n [ProgressUpdated (completed_tasks m) (total_tasks m),
                          CurrentVelocity (py_round v 2)]\<rparr>)"
          using Inr r WriteOk BreaksAfter True
          by (simp add: update_progress_file_def write_back_def print_two)
        with f wf d WriteOk BreaksAfter True show thesis by (intro printing [of doc doc' m v n])
      next
        case False
        have "update_progress_file env w =
             (Inr (),
              w\<lparr>progress_file := Text doc', dumps := dumps w + 1,
                console := console w @
                  [ProgressUpdated (completed_tasks m) (total_tasks m),
                   CurrentVelocity (py_round v 2)]\<rparr>)"
          using Inr r WriteOk BreaksAfter False
          by (simp add: update_progress_file_def write_back_def print_two)
        with f wf d WriteOk BreaksAfter False show thesis
          by (intro complete [of doc doc' m v]) simp_all
      qed
    qed
  next
    case OpenRefused
    have "update_progress_file env w = (Inl OSError, w)"
      using Inr r OpenRefused by (simp add: update_progress_file_def write_back_def)
    with f wf d OpenRefused show thesis by (intro refused [of doc doc' m v])
  next
    case (DumpFails part)
    have "update_progress_file env w =
             (Inl OSError,
              w\<lparr>progress_file :=
                   (case part of Nothing \<Rightarrow> Empty | Unreadable \<Rightarrow> NotYaml
                    | ReadsAs d \<Rightarrow> Text d)\<rparr>)"
      using Inr r DumpFails by (simp add: update_progress_file_def write_back_def)
    with f wf d DumpFails show thesis by (intro dumping [of doc doc' m v part])
  qed
qed

lemma fetch_failure_aborts:
  assumes "response env = RequestRaises \<or> response env = BodyNotJson
           \<or> (\<exists>k ks. response env = JsonObject (k # ks))"
  shows "\<exists>e. update_progress_file env w = (Inl e, w)"
proof -
  have "\<exists>e. and_then (get_issues (response env)) iterate = Inl e"
    using assms by (auto simp: get_issues_def iterate_def and_then_def)
  then have "\<exists>e. updated_document env doc = Inl e" for doc
    by (auto simp: updated_document_def and_then_def split: sum.splits)
  then have "\<exists>e. and_then (load (progress_file w)) (updated_document env) = Inl e"
    by (cases "load (progress_file w)") (auto simp: and_then_def)
  then show ?thesis by (auto simp: update_progress_file_def)
qed

subsection \<open>What a run writes when the four dictionaries are not shared\<close>

lemma setitem_own:
  assumes "setitem tbl obj k v = Inr (tbl', obj')" and "\<And>a. obj \<noteq> YAlias a"
  obtains al where "obj = YMap al" and "tbl' = tbl" and "obj' = YMap (AList.update k v al)"
  using assms by (cases obj) (auto simp: setitem_def items_of_def put_def)

lemma dict_update_own:
  assumes "dict_update tbl obj new = Inr (tbl', obj')" and "\<And>a. obj \<noteq> YAlias a"
  obtains al where "obj = YMap al" and "tbl' = tbl"
    and "obj' = YMap (fold (\<lambda>(k, v). AList.update k v) new al)"
  using assms by (cases obj) (auto simp: dict_update_def items_of_def put_def)

lemma in_place_own:
  assumes "in_place tbl obj k f = Inr (tbl', obj')"
    and "\<And>a. obj \<noteq> YAlias a"
    and "\<And>a. lookup tbl obj k \<noteq> Some (YAlias a)"
  obtains al c c' where "obj = YMap al" and "map_of al k = Some c"
    and "f tbl c = Inr (tbl', c')" and "obj' = YMap (AList.update k c' al)"
proof -
  from assms(1) obtain c tbl1 c' where g: "getitem tbl obj k = Inr c"
    and f: "f tbl c = Inr (tbl1, c')"
    and rest: "(case c of YAlias a \<Rightarrow> Inr (tbl1, obj) | _ \<Rightarrow> setitem tbl1 obj k c')
                 = Inr (tbl', obj')"
    by (auto simp: in_place_def and_then_Inr)
  from g have l: "lookup tbl obj k = Some c" by (simp add: getitem_Inr)
  with assms(3) have "\<And>a. c \<noteq> YAlias a" by auto
  with rest have s: "setitem tbl1 obj k c' = Inr (tbl', obj')" by (cases c) auto
  from s assms(2) obtain al where o: "obj = YMap al" and t: "tbl' = tbl1"
    and o': "obj' = YMap (AList.update k c' al)"
    by (rule setitem_own)
  from l o have "map_of al k = Some c" by simp
  with o f t o' show thesis by (intro that [of al c c']) simp_all
qed

lemma in_place_YMap:
  assumes "in_place tbl (YMap al) k f = Inr (tbl', obj')"
    and "\<And>a. map_of al k \<noteq> Some (YAlias a)"
  obtains c c' where "map_of al k = Some c"
    and "f tbl c = Inr (tbl', c')" and "obj' = YMap (AList.update k c' al)"
proof -
  from assms(1) obtain al' c c' where "YMap al = YMap al'" and "map_of al' k = Some c"
    and "f tbl c = Inr (tbl', c')" and "obj' = YMap (AList.update k c' al')"
    by (rule in_place_own) (simp_all add: assms(2))
  then show thesis by (intro that [of c c']) simp_all
qed

lemma update_progress_own:
  assumes "update_progress t m v ps tbl progress = Inr (tbl', p')"
    and "\<And>a. progress \<noteq> YAlias a"
    and "\<And>a. lookup tbl progress ''current_status'' \<noteq> Some (YAlias a)"
    and "\<And>a. lookup tbl progress ''metrics'' \<noteq> Some (YAlias a)"
    and "\<And>a c. lookup tbl progress ''metrics'' = Some c \<Longrightarrow>
            lookup tbl c ''velocity'' \<noteq> Some (YAlias a)"
  obtains al cs ms vs where "progress = YMap al"
    and "map_of al ''current_status'' = Some (YMap cs)"
    and "map_of al ''metrics'' = Some (YMap ms)"
    and "map_of ms ''velocity'' = Some (YMap vs)"
    and "tbl' = tbl"
    and "p' = YMap (AList.update ''phases'' (YSeq (map phase_yaml ps))
                 (AList.update ''metrics''
                    (YMap (AList.update ''velocity''
                             (YMap (AList.update ''current'' (YFloat (py_round v 2)) vs))
                             (fold (\<lambda>(k, v). AList.update k v) (metrics_items m) ms)))
                 (AList.update ''current_status''
                    (YMap (AList.update ''last_updated'' (YStr t) cs)) al)))"
proof -
  from assms(1) obtain t1 p1 t2 p2 t3 p3 where
    s1: "in_place tbl progress ''current_status''
           (\<lambda>tbl cs. setitem tbl cs ''last_updated'' (YStr t)) = Inr (t1, p1)"
    and s2: "in_place t1 p1 ''metrics'' (\<lambda>tbl ms. dict_update tbl ms (metrics_items m))
               = Inr (t2, p2)"
    and s3: "in_place t2 p2 ''metrics'' (\<lambda>tbl ms.
                 in_place tbl ms ''velocity''
                   (\<lambda>tbl vs. setitem tbl vs ''current'' (YFloat (py_round v 2)))) = Inr (t3, p3)"
    and s4: "setitem t3 p3 ''phases'' (YSeq (map phase_yaml ps)) = Inr (tbl', p')"
    by (auto simp: update_progress_def and_then_Inr)
  \<comment> \<open>line 117\<close>
  from s1 assms(2,3) obtain al c c' where al: "progress = YMap al"
    and c: "map_of al ''current_status'' = Some c"
    and sc: "setitem tbl c ''last_updated'' (YStr t) = Inr (t1, c')"
    and p1: "p1 = YMap (AList.update ''current_status'' c' al)"
    by (rule in_place_own)
  from assms(3) al c have "\<And>a. c \<noteq> YAlias a" by auto
  with sc obtain cs where cs: "c = YMap cs" and t1: "t1 = tbl"
    and c': "c' = YMap (AList.update ''last_updated'' (YStr t) cs)"
    by (rule setitem_own)
  let ?al1 = "AList.update ''current_status''
                (YMap (AList.update ''last_updated'' (YStr t) cs)) al"
  have p1': "p1 = YMap ?al1" using p1 c' by simp
  \<comment> \<open>line 118\<close>
  have m1: "map_of ?al1 ''metrics'' = lookup tbl progress ''metrics''"
    using al by (simp add: update_conv')
  have n1: "\<And>a. map_of ?al1 ''metrics'' \<noteq> Some (YAlias a)"
    unfolding m1 by (rule assms(4))
  from s2 [unfolded t1 p1'] n1 obtain d d' where
    d: "map_of ?al1 ''metrics'' = Some d"
    and sd: "dict_update tbl d (metrics_items m) = Inr (t2, d')"
    and p2: "p2 = YMap (AList.update ''metrics'' d' ?al1)"
    by (rule in_place_YMap)
  from d have dm: "map_of al ''metrics'' = Some d" by (simp add: update_conv')
  with assms(4) al have "\<And>a. d \<noteq> YAlias a" by auto
  with sd obtain ms where ms: "d = YMap ms" and t2: "t2 = tbl"
    and d': "d' = YMap (fold (\<lambda>(k, v). AList.update k v) (metrics_items m) ms)"
    by (rule dict_update_own)
  let ?ms1 = "fold (\<lambda>(k, v). AList.update k v) (metrics_items m) ms"
  let ?al2 = "AList.update ''metrics'' (YMap ?ms1) ?al1"
  have p2': "p2 = YMap ?al2" using p2 d' by simp
  \<comment> \<open>line 119\<close>
  have l2: "map_of ?al2 ''metrics'' = Some (YMap ?ms1)"
    by (simp add: update_conv')
  have n2: "\<And>a. map_of ?al2 ''metrics'' \<noteq> Some (YAlias a)"
    unfolding l2 by simp
  from s3 [unfolded t2 p2'] n2 obtain e e' where
    e: "map_of ?al2 ''metrics'' = Some e"
    and se: "in_place tbl e ''velocity''
               (\<lambda>tbl vs. setitem tbl vs ''current'' (YFloat (py_round v 2))) = Inr (t3, e')"
    and p3: "p3 = YMap (AList.update ''metrics'' e' ?al2)"
    by (rule in_place_YMap)
  from e have e1: "e = YMap ?ms1" by (simp add: update_conv')
  have vel: "map_of ?ms1 ''velocity'' = lookup tbl (YMap ms) ''velocity''"
    by (simp add: update_conv' metrics_items_def)
  have "lookup tbl progress ''metrics'' = Some (YMap ms)" using al dm ms by simp
  then have n3: "\<And>a. map_of ?ms1 ''velocity'' \<noteq> Some (YAlias a)"
    unfolding vel by (rule assms(5))
  from se [unfolded e1] n3 obtain g g' where
    g: "map_of ?ms1 ''velocity'' = Some g"
    and sg: "setitem tbl g ''current'' (YFloat (py_round v 2)) = Inr (t3, g')"
    and e': "e' = YMap (AList.update ''velocity'' g' ?ms1)"
    by (rule in_place_YMap)
  from g have gv: "map_of ms ''velocity'' = Some g"
    by (simp add: update_conv' metrics_items_def)
  with n3 g have "\<And>a. g \<noteq> YAlias a" by auto
  with sg obtain vs where vs: "g = YMap vs" and t3: "t3 = tbl"
    and g': "g' = YMap (AList.update ''current'' (YFloat (py_round v 2)) vs)"
    by (rule setitem_own)
  let ?al3 = "AList.update ''metrics''
                (YMap (AList.update ''velocity''
                         (YMap (AList.update ''current'' (YFloat (py_round v 2)) vs)) ?ms1)) ?al2"
  have p3': "p3 = YMap ?al3" using p3 e' g' by simp
  \<comment> \<open>line 120\<close>
  from s4 [unfolded t3 p3'] have fin: "tbl' = tbl"
    "p' = YMap (AList.update ''phases'' (YSeq (map phase_yaml ps)) ?al3)"
    by (simp_all add: setitem_def items_of_def put_def)
  have same: "AList.update ''phases'' (YSeq (map phase_yaml ps)) ?al3 =
        AList.update ''phases'' (YSeq (map phase_yaml ps))
                 (AList.update ''metrics''
                    (YMap (AList.update ''velocity''
                             (YMap (AList.update ''current'' (YFloat (py_round v 2)) vs))
                             ?ms1))
                 ?al1)"
    by simp
  show thesis
    using al c [unfolded cs] dm [unfolded ms] gv [unfolded vs] fin(1) fin(2) [unfolded same]
    by (rule that)
qed

lemma determine_current_phase_own:
  assumes "map_of al ''current_status'' = Some (YMap cs)"
  shows "\<exists>al' cs'. determine_current_phase ps tbl (YMap al) = Inr (tbl, YMap al')
           \<and> map_of al' = (map_of al)(''current_status'' \<mapsto> YMap cs')
           \<and> map_of cs' =
               (case find (\<lambda>p. status p = ''in_progress'') ps of
                  None \<Rightarrow> map_of cs
                | Some p \<Rightarrow> (map_of cs)(''phase'' \<mapsto> YInt (phase p),
                                         ''phase_name'' \<mapsto> YStr (phase_entry.name p)))"
proof (induction ps)
  case Nil
  have "map_of al = (map_of al)(''current_status'' \<mapsto> YMap cs)"
    using assms by (simp add: fun_upd_idem)
  then have "determine_current_phase [] tbl (YMap al) = Inr (tbl, YMap al)
      \<and> map_of al = (map_of al)(''current_status'' \<mapsto> YMap cs)
      \<and> map_of cs = (case find (\<lambda>p. status p = ''in_progress'') [] of
                  None \<Rightarrow> map_of cs
                | Some p \<Rightarrow> (map_of cs)(''phase'' \<mapsto> YInt (phase p),
                                         ''phase_name'' \<mapsto> YStr (phase_entry.name p)))"
    by simp
  then show ?case by blast
next
  case (Cons p ps)
  show ?case
  proof (cases "status p = ''in_progress''")
    case True
    let ?cs1 = "AList.update ''phase'' (YInt (phase p)) cs"
    let ?cs2 = "AList.update ''phase_name'' (YStr (phase_entry.name p)) ?cs1"
    let ?al1 = "AList.update ''current_status'' (YMap ?cs1) al"
    let ?al2 = "AList.update ''current_status'' (YMap ?cs2) ?al1"
    have run: "determine_current_phase (p # ps) tbl (YMap al) = Inr (tbl, YMap ?al2)"
      using True assms
      by (simp add: and_then_def in_place_def getitem_def setitem_def items_of_def put_def
          update_conv')
    have "determine_current_phase (p # ps) tbl (YMap al) = Inr (tbl, YMap ?al2)
        \<and> map_of ?al2 = (map_of al)(''current_status'' \<mapsto> YMap ?cs2)
        \<and> map_of ?cs2 =
               (case find (\<lambda>p. status p = ''in_progress'') (p # ps) of
                  None \<Rightarrow> map_of cs
                | Some p \<Rightarrow> (map_of cs)(''phase'' \<mapsto> YInt (phase p),
                                         ''phase_name'' \<mapsto> YStr (phase_entry.name p)))"
      unfolding run using True by (simp add: update_conv')
    then show ?thesis by blast
  next
    case False
    then show ?thesis using Cons.IH by simp
  qed
qed

lemma update_health_status_own:
  assumes "map_of al ''current_status'' = Some (YMap cs)"
    and "map_of al ''metrics'' = Some (YMap ms)"
    and "map_of ms ''blocked_tasks'' = Some (YInt b)"
  shows "\<exists>al' cs'. update_health_status tbl (YMap al) = Inr (tbl, YMap al')
           \<and> map_of al' = (map_of al)(''current_status'' \<mapsto> YMap cs')
           \<and> map_of cs' = (map_of cs)(''health'' \<mapsto>
                 YStr (if b > 2 then ''red'' else if b > 0 then ''yellow'' else ''green''))"
proof -
  let ?h = "if b > 2 then ''red'' else if b > 0 then ''yellow'' else ''green''"
  let ?cs' = "AList.update ''health'' (YStr ?h) cs"
  let ?al' = "AList.update ''current_status'' (YMap ?cs') al"
  have "update_health_status tbl (YMap al) = Inr (tbl, YMap ?al')"
    using assms
    by (simp add: update_health_status_def and_then_def in_place_def getitem_def setitem_def
        items_of_def put_def py_gt_def)
  moreover have "map_of ?al' = (map_of al)(''current_status'' \<mapsto> YMap ?cs')"
    by (simp add: update_conv')
  moreover have "map_of ?cs' = (map_of cs)(''health'' \<mapsto> YStr ?h)"
    by (simp add: update_conv')
  ultimately show ?thesis by blast
qed

lemma updated_document_own:
  assumes "updated_document env doc = Inr (doc', m, velocity)"
    and "\<And>a. root doc \<noteq> YAlias a"
    and "\<And>a. lookup (anchors doc) (root doc) ''current_status'' \<noteq> Some (YAlias a)"
    and "\<And>a. lookup (anchors doc) (root doc) ''metrics'' \<noteq> Some (YAlias a)"
    and "\<And>a c. lookup (anchors doc) (root doc) ''metrics'' = Some c \<Longrightarrow>
            lookup (anchors doc) c ''velocity'' \<noteq> Some (YAlias a)"
  obtains issues phases al cs ms vs al' cs' ms' vs' where
      "and_then (get_issues (response env)) iterate = Inr issues"
      "m = get_project_metrics issues"
      "calculate_velocity (fromisoformat env) (now_velocity env) issues = Inr velocity"
      "get_phase_status issues = Inr phases"
      "root doc = YMap al"
      "map_of al ''current_status'' = Some (YMap cs)"
      "map_of al ''metrics'' = Some (YMap ms)"
      "map_of ms ''velocity'' = Some (YMap vs)"
      "anchors doc' = anchors doc"
      "root doc' = YMap al'"
      "map_of al' = (map_of al)(''phases'' \<mapsto> YSeq (map phase_yaml phases),
                               ''metrics'' \<mapsto> YMap ms', ''current_status'' \<mapsto> YMap cs')"
      "map_of ms' = (map_of ms)(
          ''total_tasks'' \<mapsto> YInt (int (total_tasks m)),
          ''completed_tasks'' \<mapsto> YInt (int (completed_tasks m)),
          ''in_progress_tasks'' \<mapsto> YInt (int (in_progress_tasks m)),
          ''blocked_tasks'' \<mapsto> YInt (int (blocked_tasks m)),
          ''velocity'' \<mapsto> YMap vs')"
      "map_of vs' = (map_of vs)(''current'' \<mapsto> YFloat (py_round velocity 2))"
      "map_of cs' =
         (case find (\<lambda>p. status p = ''in_progress'') phases of
            None \<Rightarrow> (map_of cs)(''last_updated'' \<mapsto> YStr (now_isoformat env))
          | Some p \<Rightarrow> (map_of cs)(''last_updated'' \<mapsto> YStr (now_isoformat env),
                                   ''phase'' \<mapsto> YInt (phase p),
                                   ''phase_name'' \<mapsto> YStr (phase_entry.name p)))
         (''health'' \<mapsto> YStr (if blocked_tasks m > 2 then ''red''
                           else if blocked_tasks m > 0 then ''yellow''
                           else ''green''))"
proof -
  from assms(1) obtain issues phases t1 p1 t2 p2 t3 p3 where
    fetch: "and_then (get_issues (response env)) iterate = Inr issues"
    and m: "m = get_project_metrics issues"
    and vel: "calculate_velocity (fromisoformat env) (now_velocity env) issues = Inr velocity"
    and ph: "get_phase_status issues = Inr phases"
    and up: "update_progress (now_isoformat env) m velocity phases
               (anchors doc) (root doc) = Inr (t1, p1)"
    and det: "determine_current_phase phases t1 p1 = Inr (t2, p2)"
    and health: "update_health_status t2 p2 = Inr (t3, p3)"
    and doc': "doc' = \<lparr>anchors = t3, root = p3\<rparr>"
    by (auto simp: updated_document_def and_then_Inr Let_def)
  from up assms(2-5) obtain al cs ms vs where
    shape: "root doc = YMap al" "map_of al ''current_status'' = Some (YMap cs)"
      "map_of al ''metrics'' = Some (YMap ms)" "map_of ms ''velocity'' = Some (YMap vs)"
    and t1: "t1 = anchors doc"
    and p1: "p1 = YMap (AList.update ''phases'' (YSeq (map phase_yaml phases))
                 (AList.update ''metrics''
                    (YMap (AList.update ''velocity''
                             (YMap (AList.update ''current'' (YFloat (py_round velocity 2)) vs))
                             (fold (\<lambda>(k, v). AList.update k v) (metrics_items m) ms)))
                 (AList.update ''current_status''
                    (YMap (AList.update ''last_updated'' (YStr (now_isoformat env)) cs)) al)))"
    by (rule update_progress_own)
  let ?vs' = "AList.update ''current'' (YFloat (py_round velocity 2)) vs"
  let ?ms' = "AList.update ''velocity'' (YMap ?vs')
                (fold (\<lambda>(k, v). AList.update k v) (metrics_items m) ms)"
  let ?cs1 = "AList.update ''last_updated'' (YStr (now_isoformat env)) cs"
  let ?al1 = "AList.update ''phases'' (YSeq (map phase_yaml phases))
                 (AList.update ''metrics'' (YMap ?ms')
                 (AList.update ''current_status'' (YMap ?cs1) al))"
  have al1_cs: "map_of ?al1 ''current_status'' = Some (YMap ?cs1)"
    by (simp add: update_conv')
  from determine_current_phase_own [OF al1_cs, of phases "anchors doc"] det p1 t1
  obtain al2 cs2 where
    t2: "t2 = anchors doc" and p2: "p2 = YMap al2"
    and al2: "map_of al2 = (map_of ?al1)(''current_status'' \<mapsto> YMap cs2)"
    and cs2: "map_of cs2 =
               (case find (\<lambda>p. status p = ''in_progress'') phases of
                  None \<Rightarrow> map_of ?cs1
                | Some p \<Rightarrow> (map_of ?cs1)(''phase'' \<mapsto> YInt (phase p),
                                         ''phase_name'' \<mapsto> YStr (phase_entry.name p)))"
    by auto
  have al2_cs: "map_of al2 ''current_status'' = Some (YMap cs2)"
    by (simp add: al2)
  have al2_ms: "map_of al2 ''metrics'' = Some (YMap ?ms')"
    by (simp add: al2 update_conv')
  have ms'_blocked: "map_of ?ms' ''blocked_tasks'' = Some (YInt (int (blocked_tasks m)))"
    by (simp add: update_conv' metrics_items_def)
  from update_health_status_own [OF al2_cs al2_ms ms'_blocked, of "anchors doc"] health p2 t2
  obtain al3 cs3 where
    t3: "t3 = anchors doc" and p3: "p3 = YMap al3"
    and al3: "map_of al3 = (map_of al2)(''current_status'' \<mapsto> YMap cs3)"
    and cs3: "map_of cs3 = (map_of cs2)(''health'' \<mapsto>
                 YStr (if int (blocked_tasks m) > 2 then ''red''
                       else if int (blocked_tasks m) > 0 then ''yellow'' else ''green''))"
    by auto
  have T: "anchors doc' = anchors doc" using doc' t3 by simp
  have R: "root doc' = YMap al3" using doc' p3 by simp
  have A: "map_of al3 = (map_of al)(''phases'' \<mapsto> YSeq (map phase_yaml phases),
                               ''metrics'' \<mapsto> YMap ?ms', ''current_status'' \<mapsto> YMap cs3)"
    by (auto simp: al3 al2 update_conv' fun_eq_iff)
  have B: "map_of ?ms' = (map_of ms)(
          ''total_tasks'' \<mapsto> YInt (int (total_tasks m)),
          ''completed_tasks'' \<mapsto> YInt (int (completed_tasks m)),
          ''in_progress_tasks'' \<mapsto> YInt (int (in_progress_tasks m)),
          ''blocked_tasks'' \<mapsto> YInt (int (blocked_tasks m)),
          ''velocity'' \<mapsto> YMap ?vs')"
    by (simp add: update_conv' metrics_items_def)
  have C: "map_of ?vs' = (map_of vs)(''current'' \<mapsto> YFloat (py_round velocity 2))"
    by (simp add: update_conv')
  have D: "map_of cs3 =
         (case find (\<lambda>p. status p = ''in_progress'') phases of
            None \<Rightarrow> (map_of cs)(''last_updated'' \<mapsto> YStr (now_isoformat env))
          | Some p \<Rightarrow> (map_of cs)(''last_updated'' \<mapsto> YStr (now_isoformat env),
                                   ''phase'' \<mapsto> YInt (phase p),
                                   ''phase_name'' \<mapsto> YStr (phase_entry.name p)))
         (''health'' \<mapsto> YStr (if blocked_tasks m > 2 then ''red''
                           else if blocked_tasks m > 0 then ''yellow''
                           else ''green''))"
    by (simp add: cs3 cs2 update_conv' split: option.splits)
  from fetch m vel ph shape T R A B C D show thesis by (rule that)
qed

lemma unsharedD:
  assumes "unshared w" and "progress_file w = Text doc"
  shows "\<And>a. root doc \<noteq> YAlias a"
    and "\<And>a. lookup (anchors doc) (root doc) ''current_status'' \<noteq> Some (YAlias a)"
    and "\<And>a. lookup (anchors doc) (root doc) ''metrics'' \<noteq> Some (YAlias a)"
    and "\<And>a c. lookup (anchors doc) (root doc) ''metrics'' = Some c \<Longrightarrow>
            lookup (anchors doc) c ''velocity'' \<noteq> Some (YAlias a)"
  using assms by (auto simp: unshared_def shared_def file_at_def)

lemma unsharedI:
  assumes "progress_file w = Text doc" and "root doc = YMap al"
    and "map_of al ''current_status'' = Some (YMap cs)"
    and "map_of al ''metrics'' = Some (YMap ms)"
    and "map_of ms ''velocity'' = Some (YMap vs)"
  shows "unshared w"
  using assms by (simp add: unshared_def shared_def file_at_def)

lemma run_summary_own:
  assumes "update_progress_file env w = (Inr u, w')" and "unshared w"
  obtains doc doc' issues velocity phases al cs ms vs al' cs' ms' vs' where
      "and_then (get_issues (response env)) iterate = Inr issues"
      "calculate_velocity (fromisoformat env) (now_velocity env) issues = Inr velocity"
      "get_phase_status issues = Inr phases"
      "progress_file w = Text doc"
      "root doc = YMap al"
      "map_of al ''current_status'' = Some (YMap cs)"
      "map_of al ''metrics'' = Some (YMap ms)"
      "map_of ms ''velocity'' = Some (YMap vs)"
      "progress_file w' = Text doc'"
      "anchors doc' = anchors doc"
      "root doc' = YMap al'"
      "map_of al' = (map_of al)(''phases'' \<mapsto> YSeq (map phase_yaml phases),
                               ''metrics'' \<mapsto> YMap ms', ''current_status'' \<mapsto> YMap cs')"
      "map_of ms' = (map_of ms)(
          ''total_tasks'' \<mapsto> YInt (int (total_tasks (get_project_metrics issues))),
          ''completed_tasks'' \<mapsto> YInt (int (completed_tasks (get_project_metrics issues))),
          ''in_progress_tasks'' \<mapsto> YInt (int (in_progress_tasks (get_project_metrics issues))),
          ''blocked_tasks'' \<mapsto> YInt (int (blocked_tasks (get_project_metrics issues))),
          ''velocity'' \<mapsto> YMap vs')"
      "map_of vs' = (map_of vs)(''current'' \<mapsto> YFloat (py_round velocity 2))"
      "map_of cs' =
         (case find (\<lambda>p. status p = ''in_progress'') phases of
            None \<Rightarrow> (map_of cs)(''last_updated'' \<mapsto> YStr (now_isoformat env))
          | Some p \<Rightarrow> (map_of cs)(''last_updated'' \<mapsto> YStr (now_isoformat env),
                                   ''phase'' \<mapsto> YInt (phase p),
                                   ''phase_name'' \<mapsto> YStr (phase_entry.name p)))
         (''health'' \<mapsto> YStr (if blocked_tasks (get_project_metrics issues) > 2 then ''red''
                           else if blocked_tasks (get_project_metrics issues) > 0 then ''yellow''
                           else ''green''))"
proof -
  from assms(1) obtain doc doc' m v where f: "progress_file w = Text doc"
    and d: "updated_document env doc = Inr (doc', m, v)"
    and f': "progress_file w' = Text doc'"
    by (rule run_success)
  note own = unsharedD [OF assms(2) f]
  from d own obtain issues phases al cs ms vs al' cs' ms' vs' where
      a: "and_then (get_issues (response env)) iterate = Inr issues"
      and m: "m = get_project_metrics issues"
      and b: "calculate_velocity (fromisoformat env) (now_velocity env) issues = Inr v"
      "get_phase_status issues = Inr phases"
      and c: "root doc = YMap al"
      "map_of al ''current_status'' = Some (YMap cs)"
      "map_of al ''metrics'' = Some (YMap ms)"
      "map_of ms ''velocity'' = Some (YMap vs)"
      and e: "anchors doc' = anchors doc"
      "root doc' = YMap al'"
      "map_of al' = (map_of al)(''phases'' \<mapsto> YSeq (map phase_yaml phases),
                               ''metrics'' \<mapsto> YMap ms', ''current_status'' \<mapsto> YMap cs')"
      and g: "map_of ms' = (map_of ms)(
          ''total_tasks'' \<mapsto> YInt (int (total_tasks m)),
          ''completed_tasks'' \<mapsto> YInt (int (completed_tasks m)),
          ''in_progress_tasks'' \<mapsto> YInt (int (in_progress_tasks m)),
          ''blocked_tasks'' \<mapsto> YInt (int (blocked_tasks m)),
          ''velocity'' \<mapsto> YMap vs')"
      and h: "map_of vs' = (map_of vs)(''current'' \<mapsto> YFloat (py_round v 2))"
      and i: "map_of cs' =
         (case find (\<lambda>p. status p = ''in_progress'') phases of
            None \<Rightarrow> (map_of cs)(''last_updated'' \<mapsto> YStr (now_isoformat env))
          | Some p \<Rightarrow> (map_of cs)(''last_updated'' \<mapsto> YStr (now_isoformat env),
                                   ''phase'' \<mapsto> YInt (phase p),
                                   ''phase_name'' \<mapsto> YStr (phase_entry.name p)))
         (''health'' \<mapsto> YStr (if blocked_tasks m > 2 then ''red''
                           else if blocked_tasks m > 0 then ''yellow''
                           else ''green''))"
    by (rule updated_document_own)
  from a b f c f' e g [unfolded m] h i [unfolded m] show thesis by (rule that)
qed

subsection \<open>The example, evaluated\<close>

lemma example_run:
  "update_progress_file example_env example_world = (Inr (), example_world_after)"
  by code_simp

lemma example_response: "response example_env = JsonArray example_issues"
  by (simp add: example_env_def)

lemma example_phases:
  "get_phase_status example_issues =
     Inr [\<lparr>phase = 1, name = ''Core Foundation'', status = ''in_progress'',
           tasks_total = 2, tasks_completed = 1\<rparr>,
          \<lparr>phase = 2, name = ''Testing Infrastructure'', status = ''not_started'',
           tasks_total = 0, tasks_completed = 0\<rparr>,
          \<lparr>phase = 3, name = ''API & Integration'', status = ''not_started'',
           tasks_total = 0, tasks_completed = 0\<rparr>,
          \<lparr>phase = 4, name = ''Developer Experience'', status = ''not_started'',
           tasks_total = 0, tasks_completed = 0\<rparr>,
          \<lparr>phase = 5, name = ''Platform Integration'', status = ''not_started'',
           tasks_total = 0, tasks_completed = 0\<rparr>,
          \<lparr>phase = 6, name = ''Production Readiness'', status = ''not_started'',
           tasks_total = 0, tasks_completed = 0\<rparr>]"
  by code_simp

lemma example_metrics:
  "get_project_metrics example_issues =
     \<lparr>total_tasks = 2, completed_tasks = 1, in_progress_tasks = 0, blocked_tasks = 1\<rparr>"
  by code_simp

lemma example_velocity:
  "calculate_velocity fromisoformat_utc 1710072000 example_issues = Inr (1 / 7)"
  by code_simp

lemma boundary_velocity:
  "calculate_velocity fromisoformat_utc 1710072000 [issue_closed_a_week_ago] = Inr 0"
  by code_simp

lemma boundary_timestamp:
  "closed_at_timestamp fromisoformat_utc issue_closed_a_week_ago = Inr (1710072000 - 7 * 24 * 60 * 60)"
  by code_simp

lemma example_timestamp:
  "closed_at_timestamp fromisoformat_utc issue_core_data_models = Inr 1709985600"
  by code_simp

lemma example_unshared: "unshared example_world"
  by (simp add: unshared_def shared_def file_at_def example_world_def example_progress_def)

lemma example_well_formed: "well_formed example_progress"
  by (simp add: well_formed_def example_progress_def)

lemma example_updated_document:
  "updated_document example_env example_progress =
     Inr (example_progress_after,
          \<lparr>total_tasks = 2, completed_tasks = 1, in_progress_tasks = 0, blocked_tasks = 1\<rparr>,
          1 / 7)"
  by code_simp

lemma disk_full_updated_document:
  "updated_document disk_full_env example_progress =
     Inr (example_progress_after,
          \<lparr>total_tasks = 2, completed_tasks = 1, in_progress_tasks = 0, blocked_tasks = 1\<rparr>,
          1 / 7)"
  by code_simp

lemma closed_stdout_updated_document:
  "updated_document closed_stdout_env example_progress =
     Inr (example_progress_after,
          \<lparr>total_tasks = 2, completed_tasks = 1, in_progress_tasks = 0, blocked_tasks = 1\<rparr>,
          1 / 7)"
  by code_simp

lemma offline_run:
  "update_progress_file offline_env example_world = (Inl ConnectionError, example_world)"
  by code_simp

lemma unauthorized_run:
  "update_progress_file unauthorized_env example_world = (Inl AttributeError, example_world)"
  by code_simp

lemma first_run: "update_progress_file first_run_env example_world = (Inr (), after_first_run)"
proof -
  have "fst (update_progress_file first_run_env example_world) = Inr ()" by code_simp
  then show ?thesis by (simp add: after_first_run_def prod_eq_iff)
qed

lemma second_run: "update_progress_file second_run_env after_first_run = (Inr (), after_second_run)"
proof -
  have "fst (update_progress_file second_run_env
          (snd (update_progress_file first_run_env example_world))) = Inr ()" by code_simp
  then show ?thesis by (simp add: after_second_run_def after_first_run_def prod_eq_iff)
qed

subsection \<open>The counters of get_project_metrics\<close>

text \<open>
  Claim C5. For every issue sequence, total_tasks is the number of entries without a
  pull-request marker and completed_tasks the number of closed entries without one, so
  completed_tasks never exceeds total_tasks; the empty sequence gives the all-zero snapshot.
\<close>

theorem metrics_task_counts:
  "total_tasks (get_project_metrics issues) =
     card {n. n < length issues \<and> pull_request (issues ! n) = None}
   \<and> completed_tasks (get_project_metrics issues) =
     card {n. n < length issues \<and> state (issues ! n) = ''closed''
              \<and> pull_request (issues ! n) = None}
   \<and> completed_tasks (get_project_metrics issues) \<le> total_tasks (get_project_metrics issues)
   \<and> get_project_metrics [] =
       \<lparr>total_tasks = 0, completed_tasks = 0, in_progress_tasks = 0, blocked_tasks = 0\<rparr>"
proof -
  have "length [i \<leftarrow> issues. state i = ''closed'' \<and> pull_request i = None]
        \<le> length [i \<leftarrow> issues. pull_request i = None]"
    by (induction issues) auto
  then show ?thesis
    by (simp add: get_project_metrics_def Let_def length_filter_conv_card)
qed

text \<open>
  Claim C6. For every issue sequence, in_progress_tasks is the number of open entries whose
  labels contain "in-progress" and blocked_tasks the number of open entries whose labels
  contain "blocked". Neither counter looks at the pull-request marker: rewriting the markers
  of all entries leaves both unchanged, whereas marking every entry as a pull request brings
  total_tasks and completed_tasks to zero.
\<close>

theorem metrics_label_counts:
  "in_progress_tasks (get_project_metrics issues) =
     card {n. n < length issues \<and> state (issues ! n) = ''open''
              \<and> ''in-progress'' \<in> label.name ` set (labels (issues ! n))}
   \<and> blocked_tasks (get_project_metrics issues) =
     card {n. n < length issues \<and> state (issues ! n) = ''open''
              \<and> ''blocked'' \<in> label.name ` set (labels (issues ! n))}
   \<and> in_progress_tasks (get_project_metrics (map (pull_request_update f) issues)) =
       in_progress_tasks (get_project_metrics issues)
   \<and> blocked_tasks (get_project_metrics (map (pull_request_update f) issues)) =
       blocked_tasks (get_project_metrics issues)
   \<and> total_tasks (get_project_metrics (map (pull_request_update (\<lambda>_. Some pr)) issues)) = 0
   \<and> completed_tasks (get_project_metrics (map (pull_request_update (\<lambda>_. Some pr)) issues)) = 0"
  by (simp add: get_project_metrics_def Let_def length_filter_conv_card list_ex_label
      filter_map o_def)

text \<open>
  Claim C10. The in-progress and the blocked counter are not exclusive: an open issue whose
  labels contain both "in-progress" and "blocked" adds one to each of them, wherever it
  stands in the sequence, and for that issue alone the four counters add up to more than
  the number of issues.
\<close>

theorem metrics_counters_overlap:
  assumes "state i = ''open''"
    and "''in-progress'' \<in> label.name ` set (labels i)"
    and "''blocked'' \<in> label.name ` set (labels i)"
  shows "in_progress_tasks (get_project_metrics (before @ i # after)) =
           in_progress_tasks (get_project_metrics (before @ after)) + 1
       \<and> blocked_tasks (get_project_metrics (before @ i # after)) =
           blocked_tasks (get_project_metrics (before @ after)) + 1
       \<and> total_tasks (get_project_metrics [i]) + completed_tasks (get_project_metrics [i])
          + in_progress_tasks (get_project_metrics [i]) + blocked_tasks (get_project_metrics [i])
          > length [i]"
  using assms by (simp add: get_project_metrics_def Let_def list_ex_label)

theorem metrics_counters_overlap_witness:
  "state issue_in_progress_and_blocked = ''open''
   \<and> in_progress_tasks (get_project_metrics
        [issue_core_data_models, issue_in_progress_and_blocked, issue_mock_sns_endpoint]) = 1
   \<and> blocked_tasks (get_project_metrics
        [issue_core_data_models, issue_in_progress_and_blocked, issue_mock_sns_endpoint]) = 2
   \<and> in_progress_tasks (get_project_metrics example_issues) = 0
   \<and> blocked_tasks (get_project_metrics example_issues) = 1
   \<and> total_tasks (get_project_metrics [issue_in_progress_and_blocked])
      + completed_tasks (get_project_metrics [issue_in_progress_and_blocked])
      + in_progress_tasks (get_project_metrics [issue_in_progress_and_blocked])
      + blocked_tasks (get_project_metrics [issue_in_progress_and_blocked]) = 3"
proof -
  have h: "state issue_in_progress_and_blocked = ''open''"
    "''in-progress'' \<in> label.name ` set (labels issue_in_progress_and_blocked)"
    "''blocked'' \<in> label.name ` set (labels issue_in_progress_and_blocked)"
    by (simp_all add: issue_in_progress_and_blocked_def)
  have single: "total_tasks (get_project_metrics [issue_in_progress_and_blocked])
      + completed_tasks (get_project_metrics [issue_in_progress_and_blocked])
      + in_progress_tasks (get_project_metrics [issue_in_progress_and_blocked])
      + blocked_tasks (get_project_metrics [issue_in_progress_and_blocked]) = 3"
    by (simp add: get_project_metrics_def issue_in_progress_and_blocked_def)
  from metrics_counters_overlap [OF h, of "[issue_core_data_models]" "[issue_mock_sns_endpoint]"]
  show ?thesis
    using h(1) single by (simp add: example_metrics example_issues_def [symmetric])
qed

subsection \<open>The status of a phase\<close>

text \<open>
  Claim C1. For every issue sequence \<open>get_phase_status\<close> returns the six phases in order, and
  for each of them, with the issues whose title contains one of the phase's task titles:
  the status is "completed" exactly when the completed count equals the total and the
  total is positive; otherwise it is "in_progress" exactly when the completed count is
  positive or a matching issue is open and labelled "in-progress"; otherwise it is
  "not_started". A phase without matching issues is "not_started".
\<close>

theorem phase_status_classification:
  "\<exists>phases. get_phase_status issues = Inr phases
     \<and> map phase phases = [1, 2, 3, 4, 5, 6]
     \<and> (\<forall>p \<in> set phases. \<exists>titles. map_of phase_mapping (phase p) = Some titles
          \<and> tasks_total p =
              card {n. n < length issues \<and> (\<exists>t \<in> set titles. str_contains (title (issues ! n)) t)}
          \<and> tasks_completed p =
              card {n. n < length issues \<and> (\<exists>t \<in> set titles. str_contains (title (issues ! n)) t)
                       \<and> state (issues ! n) = ''closed''}
          \<and> (status p = ''completed'' \<longleftrightarrow>
                tasks_completed p = tasks_total p \<and> tasks_total p > 0)
          \<and> (status p = ''in_progress'' \<longleftrightarrow>
                \<not> (tasks_completed p = tasks_total p \<and> tasks_total p > 0)
                \<and> (tasks_completed p > 0
                    \<or> (\<exists>i \<in> set issues. (\<exists>t \<in> set titles. str_contains (title i) t)
                          \<and> state i = ''open''
                          \<and> ''in-progress'' \<in> label.name ` set (labels i))))
          \<and> (status p = ''not_started'' \<longleftrightarrow>
                \<not> (tasks_completed p = tasks_total p \<and> tasks_total p > 0)
                \<and> \<not> (tasks_completed p > 0
                    \<or> (\<exists>i \<in> set issues. (\<exists>t \<in> set titles. str_contains (title i) t)
                          \<and> state i = ''open''
                          \<and> ''in-progress'' \<in> label.name ` set (labels i))))
          \<and> (tasks_total p = 0 \<longrightarrow> status p = ''not_started''))"
proof -
  obtain phases where ph: "get_phase_status issues = Inr phases"
    using get_phase_status_returns by blast
  have loop: "phase_loop issues phase_mapping = Inr phases"
    using ph by (simp add: get_phase_status_def)
  have "map phase phases = map fst phase_mapping"
    using loop by (rule phase_loop_numbers)
  then have numbers: "map phase phases = [1, 2, 3, 4, 5, 6]"
    by (simp add: phase_mapping_def)
  have each: "\<exists>titles. map_of phase_mapping (phase p) = Some titles
          \<and> tasks_total p =
              card {n. n < length issues \<and> (\<exists>t \<in> set titles. str_contains (title (issues ! n)) t)}
          \<and> tasks_completed p =
              card {n. n < length issues \<and> (\<exists>t \<in> set titles. str_contains (title (issues ! n)) t)
                       \<and> state (issues ! n) = ''closed''}
          \<and> (status p = ''completed'' \<longleftrightarrow>
                tasks_completed p = tasks_total p \<and> tasks_total p > 0)
          \<and> (status p = ''in_progress'' \<longleftrightarrow>
                \<not> (tasks_completed p = tasks_total p \<and> tasks_total p > 0)
                \<and> (tasks_completed p > 0
                    \<or> (\<exists>i \<in> set issues. (\<exists>t \<in> set titles. str_contains (title i) t)
                          \<and> state i = ''open''
                          \<and> ''in-progress'' \<in> label.name ` set (labels i))))
          \<and> (status p = ''not_started'' \<longleftrightarrow>
                \<not> (tasks_completed p = tasks_total p \<and> tasks_total p > 0)
                \<and> \<not> (tasks_completed p > 0
                    \<or> (\<exists>i \<in> set issues. (\<exists>t \<in> set titles. str_contains (title i) t)
                          \<and> state i = ''open''
                          \<and> ''in-progress'' \<in> label.name ` set (labels i))))
          \<and> (tasks_total p = 0 \<longrightarrow> status p = ''not_started'')"
    if "p \<in> set phases" for p
  proof -
    let ?m = "\<lambda>titles i. \<exists>t \<in> set titles. str_contains (title i) t"
    from loop that obtain titles where mem: "(phase p, titles) \<in> set phase_mapping"
      and total: "tasks_total p = length [i \<leftarrow> issues. ?m titles i]"
      and completed: "tasks_completed p =
                        length [i \<leftarrow> [i \<leftarrow> issues. ?m titles i]. state i = ''closed'']"
      and st: "status p =
         (if tasks_completed p = tasks_total p \<and> tasks_total p > 0 then ''completed''
          else if tasks_completed p > 0 then ''in_progress''
          else if \<exists>i \<in> set issues. ?m titles i \<and> state i = ''open''
                     \<and> ''in-progress'' \<in> label.name ` set (labels i)
            then ''in_progress''
          else ''not_started'')"
      by (rule phase_loop_member)
    have lookup: "map_of phase_mapping (phase p) = Some titles"
      using distinct_phase_mapping mem by (rule map_of_is_SomeI)
    have total': "tasks_total p = card {n. n < length issues \<and> ?m titles (issues ! n)}"
      unfolding total by (rule length_filter_conv_card)
    have completed': "tasks_completed p =
        card {n. n < length issues \<and> ?m titles (issues ! n) \<and> state (issues ! n) = ''closed''}"
      unfolding completed by (rule length_filter_filter)
    note cases = status_cases [OF st]
    have z: "tasks_total p = 0 \<longrightarrow> status p = ''not_started''"
    proof
      assume zero: "tasks_total p = 0"
      then have nil: "[i \<leftarrow> issues. ?m titles i] = []" by (simp add: total)
      then have "tasks_completed p = 0" by (simp add: completed)
      moreover have "\<not> (\<exists>i \<in> set issues. ?m titles i \<and> state i = ''open''
                     \<and> ''in-progress'' \<in> label.name ` set (labels i))"
        using nil unfolding filter_empty_conv by blast
      ultimately show "status p = ''not_started''"
        unfolding cases(3) using zero by simp
    qed
    show ?thesis
      by (intro exI [of _ titles] conjI lookup total' completed' cases z)
  qed
  show ?thesis
    by (intro exI [of _ phases] conjI ballI each ph numbers)
qed

theorem phase_status_classification_witness:
  "\<exists>phases. get_phase_status example_issues = Inr phases
     \<and> map phase phases = [1, 2, 3, 4, 5, 6]
     \<and> map status phases = [''in_progress'', ''not_started'', ''not_started'',
                             ''not_started'', ''not_started'', ''not_started'']
     \<and> map tasks_total phases = [2, 0, 0, 0, 0, 0]
     \<and> map tasks_completed phases = [1, 0, 0, 0, 0, 0]"
proof -
  from phase_status_classification [of example_issues]
  have "\<exists>phases. get_phase_status example_issues = Inr phases
          \<and> map phase phases = [1, 2, 3, 4, 5, 6]"
    by (elim exE conjE) (intro exI conjI, assumption+)
  then obtain phases where ph: "get_phase_status example_issues = Inr phases"
    and nums: "map phase phases = [1, 2, 3, 4, 5, 6]" by auto
  from ph have "phases = projr (get_phase_status example_issues)" by simp
  then have "map status phases = [''in_progress'', ''not_started'', ''not_started'',
                             ''not_started'', ''not_started'', ''not_started'']
     \<and> map tasks_total phases = [2, 0, 0, 0, 0, 0]
     \<and> map tasks_completed phases = [1, 0, 0, 0, 0, 0]"
    by (simp add: example_phases)
  with ph nums show ?thesis by (intro exI [of _ phases]) simp
qed

subsection \<open>The velocity\<close>

text \<open>
  Claim C2. When the closing timestamps of the closed issues that are not pull requests
  parse, \<open>calculate_velocity\<close> returns 0 if there is no such issue, and otherwise the number
  of them closed strictly later than seven days before the one clock reading, divided by 7.
  An issue closed exactly seven days before the reading is left out (alone it gives 0);
  one closed a second later is counted.
\<close>

theorem velocity_counts_last_seven_days:
  assumes "\<forall>i \<in> set issues. state i = ''closed'' \<and> pull_request i = None \<longrightarrow>
             (\<exists>ts. closed_at_timestamp parse i = Inr ts)"
  shows "calculate_velocity parse now issues =
           Inr (if \<forall>i \<in> set issues. \<not> (state i = ''closed'' \<and> pull_request i = None) then 0
                else of_nat (card {n. n < length issues
                                    \<and> (state (issues ! n) = ''closed''
                                        \<and> pull_request (issues ! n) = None)
                                    \<and> (\<exists>ts. closed_at_timestamp parse (issues ! n) = Inr ts
                                            \<and> ts > now - 7 * 24 * 60 * 60)}) / 7)
       \<and> (\<forall>b. state b = ''closed'' \<and> pull_request b = None
               \<and> closed_at_timestamp parse b = Inr (now - 7 * 24 * 60 * 60) \<longrightarrow>
               calculate_velocity parse now [b] = Inr 0)
       \<and> (\<forall>b. state b = ''closed'' \<and> pull_request b = None
               \<and> closed_at_timestamp parse b = Inr (now - 7 * 24 * 60 * 60 + 1) \<longrightarrow>
               calculate_velocity parse now [b] = Inr (1 / 7))"
proof -
  let ?closed = "[i \<leftarrow> issues. state i = ''closed'' \<and> pull_request i = None]"
  let ?t = "now - 7 * 24 * 60 * 60"
  have parse: "\<forall>i \<in> set ?closed. \<exists>ts. closed_at_timestamp parse i = Inr ts"
    using assms by simp
  have empty: "?closed = [] \<longleftrightarrow>
      (\<forall>i \<in> set issues. \<not> (state i = ''closed'' \<and> pull_request i = None))"
    by (simp add: filter_empty_conv)
  have main: "calculate_velocity parse now issues =
           Inr (if \<forall>i \<in> set issues. \<not> (state i = ''closed'' \<and> pull_request i = None) then 0
                else of_nat (card {n. n < length issues
                                    \<and> (state (issues ! n) = ''closed''
                                        \<and> pull_request (issues ! n) = None)
                                    \<and> (\<exists>ts. closed_at_timestamp parse (issues ! n) = Inr ts
                                            \<and> ts > ?t)}) / 7)"
  proof (cases "?closed = []")
    case True
    then show ?thesis using empty by (simp add: calculate_velocity_def)
  next
    case False
    have "calculate_velocity parse now issues =
       Inr (of_nat (length [i \<leftarrow> ?closed.
              \<exists>ts. closed_at_timestamp parse i = Inr ts \<and> ts > ?t]) / 7)"
      using False by (simp add: calculate_velocity_def Let_def recent_closed_Inr [OF parse])
    then show ?thesis using False empty by (simp only: length_filter_filter if_False)
  qed
  have boundary: "calculate_velocity parse now [b] = Inr 0"
    if "state b = ''closed'' \<and> pull_request b = None
               \<and> closed_at_timestamp parse b = Inr ?t" for b
    using that by (simp add: calculate_velocity_def)
  have inside: "calculate_velocity parse now [b] = Inr (1 / 7)"
    if "state b = ''closed'' \<and> pull_request b = None
               \<and> closed_at_timestamp parse b = Inr (?t + 1)" for b
    using that by (simp add: calculate_velocity_def)
  from main boundary inside show ?thesis by blast
qed

theorem velocity_counts_last_seven_days_witness:
  "closed_at_timestamp fromisoformat_utc issue_core_data_models = Inr 1709985600
   \<and> calculate_velocity fromisoformat_utc 1710072000 example_issues = Inr (1 / 7)
   \<and> closed_at_timestamp fromisoformat_utc issue_closed_a_week_ago
       = Inr (1710072000 - 7 * 24 * 60 * 60)
   \<and> calculate_velocity fromisoformat_utc 1710072000 [issue_closed_a_week_ago] = Inr 0"
proof -
  have parses: "\<forall>i \<in> set example_issues. state i = ''closed'' \<and> pull_request i = None \<longrightarrow>
             (\<exists>ts. closed_at_timestamp fromisoformat_utc i = Inr ts)"
    using example_timestamp
    by (simp add: example_issues_def issue_mock_sns_endpoint_def)
  have closed: "state issue_closed_a_week_ago = ''closed''
      \<and> pull_request issue_closed_a_week_ago = None"
    by (simp add: issue_closed_a_week_ago_def)
  from velocity_counts_last_seven_days [OF parses, of 1710072000]
  have "calculate_velocity fromisoformat_utc 1710072000 [issue_closed_a_week_ago] = Inr 0"
    using closed boundary_timestamp by blast
  then show ?thesis
    using example_timestamp example_velocity boundary_timestamp by simp
qed

subsection \<open>The document after a run\<close>

text \<open>
  Claim C3. After a successful run the document holds the computed phases, and the first
  phase in order whose status is "in_progress" gives current_status.phase and
  current_status.phase_name; when no phase is in progress both keep what the existing
  document had.
\<close>

theorem current_phase_is_first_in_progress:
  assumes "update_progress_file env w = (Inr u, w')"
    and "response env = JsonArray issues"
  shows "\<exists>phases. get_phase_status issues = Inr phases
     \<and> file_at w' [''phases''] = Some (YSeq (map phase_yaml phases))
     \<and> (\<forall>n < length phases.
           status (phases ! n) = ''in_progress''
           \<and> (\<forall>m < n. status (phases ! m) \<noteq> ''in_progress'') \<longrightarrow>
           file_at w' [''current_status'', ''phase''] = Some (YInt (phase (phases ! n)))
           \<and> file_at w' [''current_status'', ''phase_name''] =
               Some (YStr (phase_entry.name (phases ! n))))
     \<and> ((\<forall>p \<in> set phases. status p \<noteq> ''in_progress'') \<longrightarrow>
           file_at w' [''current_status'', ''phase''] = file_at w [''current_status'', ''phase'']
           \<and> file_at w' [''current_status'', ''phase_name''] =
               file_at w [''current_status'', ''phase_name''])"
proof -
  from assms(1) obtain doc doc' m v where f: "progress_file w = Text doc"
    and d: "updated_document env doc = Inr (doc', m, v)"
    and f': "progress_file w' = Text doc'"
    by (rule run_success)
  from d obtain issues' phases cs cs' where
    fetch: "and_then (get_issues (response env)) iterate = Inr issues'"
    and ph: "get_phase_status issues' = Inr phases"
    and cs: "lookup (anchors doc) (root doc) ''current_status'' = Some cs"
    and cs': "lookup (anchors doc') (root doc') ''current_status'' = Some cs'"
    and found: "case find (\<lambda>p. status p = ''in_progress'') phases of
           None \<Rightarrow> lookup (anchors doc') cs' ''phase'' = lookup (anchors doc) cs ''phase''
                  \<and> lookup (anchors doc') cs' ''phase_name''
                      = lookup (anchors doc) cs ''phase_name''
         | Some p \<Rightarrow> lookup (anchors doc') cs' ''phase'' = Some (YInt (phase p))
                  \<and> lookup (anchors doc') cs' ''phase_name''
                      = Some (YStr (phase_entry.name p))"
    and phs: "lookup (anchors doc') (root doc') ''phases'' = Some (YSeq (map phase_yaml phases))"
    by (rule updated_document_lookups)
  have same: "issues' = issues" using assms(2) fetch by (rule fetched_array)
  have stored: "file_at w' [''phases''] = Some (YSeq (map phase_yaml phases))"
    using file_at_one [OF f'] phs by simp
  have first: "file_at w' [''current_status'', ''phase''] = Some (YInt (phase (phases ! n)))
           \<and> file_at w' [''current_status'', ''phase_name''] =
               Some (YStr (phase_entry.name (phases ! n)))"
    if "n < length phases" "status (phases ! n) = ''in_progress''"
      "\<forall>m < n. status (phases ! m) \<noteq> ''in_progress''" for n
  proof -
    have "find (\<lambda>p. status p = ''in_progress'') phases = Some (phases ! n)"
      unfolding find_Some_iff using that by blast
    with found show ?thesis by (simp add: file_at_two [OF f' cs'])
  qed
  have none: "file_at w' [''current_status'', ''phase''] = file_at w [''current_status'', ''phase'']
           \<and> file_at w' [''current_status'', ''phase_name''] =
               file_at w [''current_status'', ''phase_name'']"
    if "\<forall>p \<in> set phases. status p \<noteq> ''in_progress''"
  proof -
    have "find (\<lambda>p. status p = ''in_progress'') phases = None"
      unfolding find_None_iff using that by blast
    with found show ?thesis by (simp add: file_at_two [OF f' cs'] file_at_two [OF f cs])
  qed
  from ph same stored first none show ?thesis by blast
qed

theorem current_phase_is_first_in_progress_witness:
  "update_progress_file example_env example_world = (Inr (), example_world_after)
   \<and> response example_env = JsonArray example_issues
   \<and> file_at example_world [''current_status'', ''phase''] = Some (YInt 2)
   \<and> file_at example_world_after [''current_status'', ''phase''] = Some (YInt 1)
   \<and> file_at example_world_after [''current_status'', ''phase_name'']
       = Some (YStr ''Core Foundation'')"
proof -
  from current_phase_is_first_in_progress [OF example_run example_response]
  obtain phases where ph: "get_phase_status example_issues = Inr phases"
    and rule: "\<forall>n < length phases.
           status (phases ! n) = ''in_progress''
           \<and> (\<forall>m < n. status (phases ! m) \<noteq> ''in_progress'') \<longrightarrow>
           file_at example_world_after [''current_status'', ''phase''] = Some (YInt (phase (phases ! n)))
           \<and> file_at example_world_after [''current_status'', ''phase_name''] =
               Some (YStr (phase_entry.name (phases ! n)))"
    by blast
  from ph have phases: "phases = projr (get_phase_status example_issues)" by simp
  have "0 < length phases \<and> status (phases ! 0) = ''in_progress''
      \<and> phase (phases ! 0) = 1 \<and> phase_entry.name (phases ! 0) = ''Core Foundation''"
    unfolding phases by (simp add: example_phases)
  with rule have "file_at example_world_after [''current_status'', ''phase''] = Some (YInt 1)
      \<and> file_at example_world_after [''current_status'', ''phase_name'']
          = Some (YStr ''Core Foundation'')"
    by force
  moreover have "file_at example_world [''current_status'', ''phase''] = Some (YInt 2)"
    by (simp add: file_at_def example_world_def example_progress_def)
  ultimately show ?thesis using example_run example_response by simp
qed

text \<open>
  Claim C4. After a successful run current_status.health is "red" exactly when blocked_tasks
  exceeds 2, "yellow" exactly when it is 1 or 2, and "green" exactly when it is 0, where
  blocked_tasks is the counter the run stored under metrics.
\<close>

theorem health_from_blocked_tasks:
  assumes "update_progress_file env w = (Inr u, w')"
    and "response env = JsonArray issues"
  shows "file_at w' [''metrics'', ''blocked_tasks''] =
           Some (YInt (int (blocked_tasks (get_project_metrics issues))))
     \<and> (file_at w' [''current_status'', ''health''] = Some (YStr ''red'')
          \<longleftrightarrow> blocked_tasks (get_project_metrics issues) > 2)
     \<and> (file_at w' [''current_status'', ''health''] = Some (YStr ''yellow'')
          \<longleftrightarrow> blocked_tasks (get_project_metrics issues) = 1
              \<or> blocked_tasks (get_project_metrics issues) = 2)
     \<and> (file_at w' [''current_status'', ''health''] = Some (YStr ''green'')
          \<longleftrightarrow> blocked_tasks (get_project_metrics issues) = 0)"
proof -
  from assms(1) obtain doc doc' m v where d: "updated_document env doc = Inr (doc', m, v)"
    and f': "progress_file w' = Text doc'"
    by (rule run_success)
  from d obtain issues' cs' ms' where
    fetch: "and_then (get_issues (response env)) iterate = Inr issues'"
    and m: "m = get_project_metrics issues'"
    and cs': "lookup (anchors doc') (root doc') ''current_status'' = Some cs'"
    and h: "lookup (anchors doc') cs' ''health'' =
           Some (YStr (if blocked_tasks m > 2 then ''red''
                       else if blocked_tasks m > 0 then ''yellow'' else ''green''))"
    and ms': "lookup (anchors doc') (root doc') ''metrics'' = Some ms'"
    and b: "lookup (anchors doc') ms' ''blocked_tasks'' = Some (YInt (int (blocked_tasks m)))"
    by (rule updated_document_lookups)
  have same: "issues' = issues" using assms(2) fetch by (rule fetched_array)
  let ?b = "blocked_tasks (get_project_metrics issues)"
  have blocked: "file_at w' [''metrics'', ''blocked_tasks''] = Some (YInt (int ?b))"
    using file_at_two [OF f' ms'] b m same by simp
  have health: "file_at w' [''current_status'', ''health''] =
      Some (YStr (if ?b > 2 then ''red'' else if ?b > 0 then ''yellow'' else ''green''))"
    using file_at_two [OF f' cs'] h m same by simp
  show ?thesis unfolding blocked health by auto
qed

theorem health_from_blocked_tasks_witness:
  "update_progress_file example_env example_world = (Inr (), example_world_after)
   \<and> response example_env = JsonArray example_issues
   \<and> blocked_tasks (get_project_metrics example_issues) = 1
   \<and> file_at example_world_after [''current_status'', ''health''] = Some (YStr ''yellow'')
   \<and> file_at example_world_after [''metrics'', ''blocked_tasks''] = Some (YInt 1)"
  using health_from_blocked_tasks [OF example_run example_response] example_run example_response
  by (simp add: example_metrics)

subsection \<open>The merge into metrics\<close>

text \<open>
  Claim C7 says that, for every existing document, a key of the metrics mapping other than
  the four counters keeps its previous value. A YAML text can name one mapping in two places,
  with an anchor and an alias, and \<open>yaml.safe_load\<close> returns one dictionary for both. In
  \<open>aliased_progress\<close> the key last_sprint under metrics is an alias of the velocity mapping:
  line 119 writes velocity.current into that dictionary, and last_sprint.current, which read
  0.0 before the run, reads 0.14 after it.
\<close>

theorem shared_velocity_counterexample:
  "fst (update_progress_file example_env aliased_world) = Inr ()
   \<and> response example_env = JsonArray example_issues
   \<and> file_at aliased_world [''metrics'', ''last_sprint'', ''current''] = Some (YFloat 0)
   \<and> file_at (snd (update_progress_file example_env aliased_world))
        [''metrics'', ''last_sprint'', ''current''] = Some (YFloat (7 / 50))"
proof -
  have "fst (update_progress_file example_env aliased_world) = Inr ()" by code_simp
  moreover have "response example_env = JsonArray example_issues"
    by (simp add: example_env_def)
  moreover have "file_at aliased_world [''metrics'', ''last_sprint'', ''current'']
                   = Some (YFloat 0)"
    by code_simp
  moreover have "file_at (snd (update_progress_file example_env aliased_world))
        [''metrics'', ''last_sprint'', ''current''] = Some (YFloat (7 / 50))"
    by code_simp
  ultimately show ?thesis by simp
qed

text \<open>
  Claim C7, amended. After a successful run the four counters under metrics and
  velocity.current hold the values computed from the issues. When the top-level mapping,
  current_status, metrics and the velocity mapping under metrics are each a dictionary of
  its own in the existing document (none of them is shared through an anchor and an alias),
  the merge is shallow: every key of metrics other than the four counters and velocity, and
  every key under velocity other than current, reads after the run as it did before, at any
  depth below it.
\<close>

theorem metrics_merge_is_shallow:
  assumes "update_progress_file env w = (Inr u, w')"
    and "response env = JsonArray issues"
  shows "file_at w' [''metrics'', ''total_tasks''] =
           Some (YInt (int (total_tasks (get_project_metrics issues))))
     \<and> file_at w' [''metrics'', ''completed_tasks''] =
           Some (YInt (int (completed_tasks (get_project_metrics issues))))
     \<and> file_at w' [''metrics'', ''in_progress_tasks''] =
           Some (YInt (int (in_progress_tasks (get_project_metrics issues))))
     \<and> file_at w' [''metrics'', ''blocked_tasks''] =
           Some (YInt (int (blocked_tasks (get_project_metrics issues))))
     \<and> (\<exists>velocity. calculate_velocity (fromisoformat env) (now_velocity env) issues = Inr velocity
           \<and> file_at w' [''metrics'', ''velocity'', ''current''] =
               Some (YFloat (py_round velocity 2)))
     \<and> (unshared w \<longrightarrow>
          (\<forall>k rest. k \<notin> {''total_tasks'', ''completed_tasks'', ''in_progress_tasks'',
                         ''blocked_tasks'', ''velocity''} \<longrightarrow>
             file_at w' (''metrics'' # k # rest) = file_at w (''metrics'' # k # rest))
        \<and> (\<forall>k rest. k \<noteq> ''current'' \<longrightarrow>
             file_at w' (''metrics'' # ''velocity'' # k # rest) =
             file_at w (''metrics'' # ''velocity'' # k # rest)))"
proof -
  from assms(1) obtain issues' velocity where
    fetch: "and_then (get_issues (response env)) iterate = Inr issues'"
    and vel: "calculate_velocity (fromisoformat env) (now_velocity env) issues' = Inr velocity"
    and counters:
      "file_at w' [''metrics'', ''total_tasks''] =
           Some (YInt (int (total_tasks (get_project_metrics issues'))))"
      "file_at w' [''metrics'', ''completed_tasks''] =
           Some (YInt (int (completed_tasks (get_project_metrics issues'))))"
      "file_at w' [''metrics'', ''in_progress_tasks''] =
           Some (YInt (int (in_progress_tasks (get_project_metrics issues'))))"
      "file_at w' [''metrics'', ''blocked_tasks''] =
           Some (YInt (int (blocked_tasks (get_project_metrics issues'))))"
    and current: "file_at w' [''metrics'', ''velocity'', ''current''] =
           Some (YFloat (py_round velocity 2))"
    by (rule run_writes)
  have same: "issues' = issues" using assms(2) fetch by (rule fetched_array)
  have new: "\<exists>velocity. calculate_velocity (fromisoformat env) (now_velocity env) issues
               = Inr velocity
           \<and> file_at w' [''metrics'', ''velocity'', ''current''] =
               Some (YFloat (py_round velocity 2))"
    using vel current same by blast
  have kept: "(\<forall>k rest. k \<notin> {''total_tasks'', ''completed_tasks'', ''in_progress_tasks'',
                         ''blocked_tasks'', ''velocity''} \<longrightarrow>
             file_at w' (''metrics'' # k # rest) = file_at w (''metrics'' # k # rest))
        \<and> (\<forall>k rest. k \<noteq> ''current'' \<longrightarrow>
             file_at w' (''metrics'' # ''velocity'' # k # rest) =
             file_at w (''metrics'' # ''velocity'' # k # rest))"
    if own: "unshared w"
  proof -
    from assms(1) own obtain doc doc' i vel' phases al cs ms vs al' cs' ms' vs' where
      "and_then (get_issues (response env)) iterate = Inr i"
      "calculate_velocity (fromisoformat env) (now_velocity env) i = Inr vel'"
      "get_phase_status i = Inr phases"
      and f: "progress_file w = Text doc"
      and r: "root doc = YMap al"
      and "map_of al ''current_status'' = Some (YMap cs)"
      and al: "map_of al ''metrics'' = Some (YMap ms)"
      and ms: "map_of ms ''velocity'' = Some (YMap vs)"
      and f': "progress_file w' = Text doc'"
      and t: "anchors doc' = anchors doc"
      and r': "root doc' = YMap al'"
      and al': "map_of al' = (map_of al)(''phases'' \<mapsto> YSeq (map phase_yaml phases),
                               ''metrics'' \<mapsto> YMap ms', ''current_status'' \<mapsto> YMap cs')"
      and ms': "map_of ms' = (map_of ms)(
          ''total_tasks'' \<mapsto> YInt (int (total_tasks (get_project_metrics i))),
          ''completed_tasks'' \<mapsto> YInt (int (completed_tasks (get_project_metrics i))),
          ''in_progress_tasks'' \<mapsto> YInt (int (in_progress_tasks (get_project_metrics i))),
          ''blocked_tasks'' \<mapsto> YInt (int (blocked_tasks (get_project_metrics i))),
          ''velocity'' \<mapsto> YMap vs')"
      and vs': "map_of vs' = (map_of vs)(''current'' \<mapsto> YFloat (py_round vel' 2))"
      by (rule run_summary_own)
    have other: "file_at w' (''metrics'' # k # rest) = file_at w (''metrics'' # k # rest)"
      if "k \<notin> {''total_tasks'', ''completed_tasks'', ''in_progress_tasks'',
                  ''blocked_tasks'', ''velocity''}" for k rest
      using that by (simp add: file_at_def f f' r r' t al al' ms')
    have nested: "file_at w' (''metrics'' # ''velocity'' # k # rest) =
              file_at w (''metrics'' # ''velocity'' # k # rest)"
      if "k \<noteq> ''current''" for k rest
      using that by (simp add: file_at_def f f' r r' t al al' ms ms' vs')
    from other nested show ?thesis by blast
  qed
  from kept have frame: "unshared w \<longrightarrow>
          (\<forall>k rest. k \<notin> {''total_tasks'', ''completed_tasks'', ''in_progress_tasks'',
                         ''blocked_tasks'', ''velocity''} \<longrightarrow>
             file_at w' (''metrics'' # k # rest) = file_at w (''metrics'' # k # rest))
        \<and> (\<forall>k rest. k \<noteq> ''current'' \<longrightarrow>
             file_at w' (''metrics'' # ''velocity'' # k # rest) =
             file_at w (''metrics'' # ''velocity'' # k # rest))"
    by (rule impI)
  from counters [unfolded same] new frame show ?thesis by (intro conjI)
qed

theorem metrics_merge_is_shallow_witness:
  "update_progress_file example_env example_world = (Inr (), example_world_after)
   \<and> response example_env = JsonArray example_issues
   \<and> unshared example_world
   \<and> file_at example_world [''metrics'', ''test_coverage''] = Some (YInt 85)
   \<and> file_at example_world_after [''metrics'', ''test_coverage''] = Some (YInt 85)
   \<and> file_at example_world_after [''metrics'', ''velocity'', ''target''] = Some (YFloat 2)
   \<and> file_at example_world_after [''metrics'', ''total_tasks''] = Some (YInt 2)"
proof -
  have before: "file_at example_world [''metrics'', ''test_coverage''] = Some (YInt 85)"
    "file_at example_world [''metrics'', ''velocity'', ''target''] = Some (YFloat 2)"
    by (simp_all add: file_at_def example_world_def example_progress_def)
  note t = metrics_merge_is_shallow [OF example_run example_response]
  from t have total: "file_at example_world_after [''metrics'', ''total_tasks'']
          = Some (YInt (int (total_tasks (get_project_metrics example_issues))))"
    by (elim conjE)
  from t have "unshared example_world \<longrightarrow>
          (\<forall>k rest. k \<notin> {''total_tasks'', ''completed_tasks'', ''in_progress_tasks'',
                         ''blocked_tasks'', ''velocity''} \<longrightarrow>
             file_at example_world_after (''metrics'' # k # rest)
             = file_at example_world (''metrics'' # k # rest))
        \<and> (\<forall>k rest. k \<noteq> ''current'' \<longrightarrow>
             file_at example_world_after (''metrics'' # ''velocity'' # k # rest) =
             file_at example_world (''metrics'' # ''velocity'' # k # rest))"
    by (elim conjE)
  with example_unshared have
    a: "\<forall>k rest. k \<notin> {''total_tasks'', ''completed_tasks'', ''in_progress_tasks'',
                         ''blocked_tasks'', ''velocity''} \<longrightarrow>
             file_at example_world_after (''metrics'' # k # rest)
             = file_at example_world (''metrics'' # k # rest)"
    and b: "\<forall>k rest. k \<noteq> ''current'' \<longrightarrow>
             file_at example_world_after (''metrics'' # ''velocity'' # k # rest) =
             file_at example_world (''metrics'' # ''velocity'' # k # rest)"
    by simp_all
  from a have "file_at example_world_after [''metrics'', ''test_coverage'']
          = file_at example_world [''metrics'', ''test_coverage'']" by simp
  moreover from b have "file_at example_world_after [''metrics'', ''velocity'', ''target'']
          = file_at example_world [''metrics'', ''velocity'', ''target'']" by simp
  ultimately show ?thesis
    using before total example_run example_response example_unshared
    by (simp add: example_metrics)
qed

subsection \<open>Failures and the file\<close>

text \<open>
  Claim C8 says that a run that fails at any step leaves the file as it was. The write-back
  is a direct overwrite: \<open>open(progress_file, 'w')\<close> empties the file before \<open>yaml.dump\<close>
  writes, so a dump that fails aborts the run with the previous document gone. Here the dump
  fails before any of the new text has reached the file.
\<close>

theorem dump_failure_truncates_counterexample:
  "fst (update_progress_file disk_full_env example_world) = Inl OSError
   \<and> progress_file example_world = Text example_progress
   \<and> progress_file (snd (update_progress_file disk_full_env example_world)) = Empty"
proof -
  have "fst (update_progress_file disk_full_env example_world) = Inl OSError" by code_simp
  moreover have "progress_file example_world = Text example_progress"
    by (simp add: example_world_def)
  moreover have "progress_file (snd (update_progress_file disk_full_env example_world)) = Empty"
    by code_simp
  ultimately show ?thesis by simp
qed

text \<open>
  Claim C8, amended. A run that fails leaves the world as it was, with two exceptions, both
  after every earlier step has succeeded. When the dump fails after the file was opened for
  writing, the previous document is gone and the file holds the part of the new text that
  had reached it: nothing, a text that is not YAML, or a text that reads as some document.
  When one of the two prints after the write fails, the run ends with an error although the
  file has been overwritten in full with the merged document. A run that succeeds read a
  document, computed the merged one, wrote it, once, and printed its two lines. A dump that
  fails and a print that fails do end the run in this way. A request that raises, a body that
  is not JSON, and the JSON object of an error answer (which \<open>get_issues\<close> returns to its
  caller as it is) each abort the run with the world as it was.
\<close>

theorem run_is_all_or_nothing_before_the_write:
  "(\<forall>e w'. update_progress_file env w = (Inl e, w') \<longrightarrow>
       w' = w
       \<or> (\<exists>doc doc' m v part. progress_file w = Text doc
             \<and> updated_document env doc = Inr (doc', m, v)
             \<and> write_result env = DumpFails part
             \<and> w' = w\<lparr>progress_file :=
                        (case part of Nothing \<Rightarrow> Empty | Unreadable \<Rightarrow> NotYaml
                         | ReadsAs d \<Rightarrow> Text d)\<rparr>)
       \<or> (\<exists>doc doc' m v n. progress_file w = Text doc
             \<and> updated_document env doc = Inr (doc', m, v)
             \<and> write_result env = WriteOk \<and> stdout env = BreaksAfter n \<and> n < 2
             \<and> w' = w\<lparr>progress_file := Text doc', dumps := dumps w + 1,
                       console := console w @
                         take n [ProgressUpdated (completed_tasks m) (total_tasks m),
                                 CurrentVelocity (py_round v 2)]\<rparr>))
   \<and> (\<forall>u w'. update_progress_file env w = (Inr u, w') \<longrightarrow>
         (\<exists>doc doc' m v. progress_file w = Text doc
            \<and> updated_document env doc = Inr (doc', m, v)
            \<and> write_result env = WriteOk
            \<and> w' = w\<lparr>progress_file := Text doc', dumps := dumps w + 1,
                      console := console w @
                        [ProgressUpdated (completed_tasks m) (total_tasks m),
                         CurrentVelocity (py_round v 2)]\<rparr>))
   \<and> (\<forall>doc doc' m v part. progress_file w = Text doc \<and> well_formed doc
         \<and> updated_document env doc = Inr (doc', m, v)
         \<and> write_result env = DumpFails part \<longrightarrow>
         update_progress_file env w =
           (Inl OSError,
            w\<lparr>progress_file :=
                 (case part of Nothing \<Rightarrow> Empty | Unreadable \<Rightarrow> NotYaml
                  | ReadsAs d \<Rightarrow> Text d)\<rparr>))
   \<and> (\<forall>doc doc' m v n. progress_file w = Text doc \<and> well_formed doc
         \<and> updated_document env doc = Inr (doc', m, v)
         \<and> write_result env = WriteOk \<and> stdout env = BreaksAfter n \<and> n < 2 \<longrightarrow>
         update_progress_file env w =
           (Inl OSError,
            w\<lparr>progress_file := Text doc', dumps := dumps w + 1,
              console := console w @
                take n [ProgressUpdated (completed_tasks m) (total_tasks m),
                        CurrentVelocity (py_round v 2)]\<rparr>))
   \<and> (response env = RequestRaises \<or> response env = BodyNotJson
         \<or> (\<exists>k ks. response env = JsonObject (k # ks)) \<longrightarrow>
         (\<exists>e. update_progress_file env w = (Inl e, w)))
   \<and> get_issues RequestRaises = Inl ConnectionError
   \<and> get_issues BodyNotJson = Inl JSONDecodeError
   \<and> get_issues (JsonObject keys) = Inr (Object keys)"
proof -
  have a: "\<forall>e w'. update_progress_file env w = (Inl e, w') \<longrightarrow>
       w' = w
       \<or> (\<exists>doc doc' m v part. progress_file w = Text doc
             \<and> updated_document env doc = Inr (doc', m, v)
             \<and> write_result env = DumpFails part
             \<and> w' = w\<lparr>progress_file :=
                        (case part of Nothing \<Rightarrow> Empty | Unreadable \<Rightarrow> NotYaml
                         | ReadsAs d \<Rightarrow> Text d)\<rparr>)
       \<or> (\<exists>doc doc' m v n. progress_file w = Text doc
             \<and> updated_document env doc = Inr (doc', m, v)
             \<and> write_result env = WriteOk \<and> stdout env = BreaksAfter n \<and> n < 2
             \<and> w' = w\<lparr>progress_file := Text doc', dumps := dumps w + 1,
                       console := console w @
                         take n [ProgressUpdated (completed_tasks m) (total_tasks m),
                                 CurrentVelocity (py_round v 2)]\<rparr>)"
  proof (intro allI impI)
    fix e w'
    assume run: "update_progress_file env w = (Inl e, w')"
    show "w' = w
       \<or> (\<exists>doc doc' m v part. progress_file w = Text doc
             \<and> updated_document env doc = Inr (doc', m, v)
             \<and> write_result env = DumpFails part
             \<and> w' = w\<lparr>progress_file :=
                        (case part of Nothing \<Rightarrow> Empty | Unreadable \<Rightarrow> NotYaml
                         | ReadsAs d \<Rightarrow> Text d)\<rparr>)
       \<or> (\<exists>doc doc' m v n. progress_file w = Text doc
             \<and> updated_document env doc = Inr (doc', m, v)
             \<and> write_result env = WriteOk \<and> stdout env = BreaksAfter n \<and> n < 2
             \<and> w' = w\<lparr>progress_file := Text doc', dumps := dumps w + 1,
                       console := console w @
                         take n [ProgressUpdated (completed_tasks m) (total_tasks m),
                                 CurrentVelocity (py_round v 2)]\<rparr>)"
    proof (cases rule: update_progress_file_cases [of w env])
      case (before e')
      with run show ?thesis by simp
    next
      case (refused doc doc' m v)
      with run show ?thesis by simp
    next
      case (dumping doc doc' m v part)
      from dumping(5) run have "w' = w\<lparr>progress_file :=
                        (case part of Nothing \<Rightarrow> Empty | Unreadable \<Rightarrow> NotYaml
                         | ReadsAs d \<Rightarrow> Text d)\<rparr>" by simp
      with dumping(1,3,4) show ?thesis by blast
    next
      case (printing doc doc' m v n)
      from printing(7) run have "w' = w\<lparr>progress_file := Text doc', dumps := dumps w + 1,
                       console := console w @
                         take n [ProgressUpdated (completed_tasks m) (total_tasks m),
                                 CurrentVelocity (py_round v 2)]\<rparr>" by simp
      with printing(1,3,4,5,6) show ?thesis by blast
    next
      case (complete doc doc' m v)
      with run show ?thesis by simp
    qed
  qed
  have b: "\<forall>u w'. update_progress_file env w = (Inr u, w') \<longrightarrow>
         (\<exists>doc doc' m v. progress_file w = Text doc
            \<and> updated_document env doc = Inr (doc', m, v)
            \<and> write_result env = WriteOk
            \<and> w' = w\<lparr>progress_file := Text doc', dumps := dumps w + 1,
                      console := console w @
                        [ProgressUpdated (completed_tasks m) (total_tasks m),
                         CurrentVelocity (py_round v 2)]\<rparr>)"
  proof (intro allI impI)
    fix u w'
    assume run: "update_progress_file env w = (Inr u, w')"
    show "\<exists>doc doc' m v. progress_file w = Text doc
            \<and> updated_document env doc = Inr (doc', m, v)
            \<and> write_result env = WriteOk
            \<and> w' = w\<lparr>progress_file := Text doc', dumps := dumps w + 1,
                      console := console w @
                        [ProgressUpdated (completed_tasks m) (total_tasks m),
                         CurrentVelocity (py_round v 2)]\<rparr>"
    proof (cases rule: update_progress_file_cases [of w env])
      case (before e')
      with run show ?thesis by simp
    next
      case (refused doc doc' m v)
      with run show ?thesis by simp
    next
      case (dumping doc doc' m v part)
      with run show ?thesis by simp
    next
      case (printing doc doc' m v n)
      with run show ?thesis by simp
    next
      case (complete doc doc' m v)
      from complete(6) run have "w' = w\<lparr>progress_file := Text doc', dumps := dumps w + 1,
                      console := console w @
                        [ProgressUpdated (completed_tasks m) (total_tasks m),
                         CurrentVelocity (py_round v 2)]\<rparr>" by simp
      with complete(1,3,4) show ?thesis by blast
    qed
  qed
  have c: "\<forall>doc doc' m v part. progress_file w = Text doc \<and> well_formed doc
         \<and> updated_document env doc = Inr (doc', m, v)
         \<and> write_result env = DumpFails part \<longrightarrow>
         update_progress_file env w =
           (Inl OSError,
            w\<lparr>progress_file :=
                 (case part of Nothing \<Rightarrow> Empty | Unreadable \<Rightarrow> NotYaml
                  | ReadsAs d \<Rightarrow> Text d)\<rparr>)"
    by (simp add: update_progress_file_def load_def and_then_def write_back_def)
  have d: "\<forall>doc doc' m v n. progress_file w = Text doc \<and> well_formed doc
         \<and> updated_document env doc = Inr (doc', m, v)
         \<and> write_result env = WriteOk \<and> stdout env = BreaksAfter n \<and> n < 2 \<longrightarrow>
         update_progress_file env w =
           (Inl OSError,
            w\<lparr>progress_file := Text doc', dumps := dumps w + 1,
              console := console w @
                take n [ProgressUpdated (completed_tasks m) (total_tasks m),
                        CurrentVelocity (py_round v 2)]\<rparr>)"
    by (simp add: update_progress_file_def load_def and_then_def write_back_def print_two)
  have e: "response env = RequestRaises \<or> response env = BodyNotJson
         \<or> (\<exists>k ks. response env = JsonObject (k # ks)) \<longrightarrow>
         (\<exists>e. update_progress_file env w = (Inl e, w))"
    using fetch_failure_aborts by blast
  have f: "get_issues RequestRaises = Inl ConnectionError"
    "get_issues BodyNotJson = Inl JSONDecodeError"
    "get_issues (JsonObject keys) = Inr (Object keys)"
    by (simp_all add: get_issues_def)
  from a b c d e f show ?thesis by (intro conjI)
qed

theorem run_is_all_or_nothing_before_the_write_witness:
  "response offline_env = RequestRaises
   \<and> update_progress_file offline_env example_world = (Inl ConnectionError, example_world)
   \<and> response unauthorized_env = JsonObject [''message'', ''documentation_url'', ''status'']
   \<and> update_progress_file unauthorized_env example_world = (Inl AttributeError, example_world)
   \<and> update_progress_file example_env example_world = (Inr (), example_world_after)
   \<and> dumps example_world_after = dumps example_world + 1
   \<and> progress_file example_world = Text example_progress
   \<and> well_formed example_progress
   \<and> write_result disk_full_env = DumpFails Nothing
   \<and> update_progress_file disk_full_env example_world
       = (Inl OSError, example_world\<lparr>progress_file := Empty\<rparr>)
   \<and> write_result closed_stdout_env = WriteOk
   \<and> stdout closed_stdout_env = BreaksAfter 0
   \<and> update_progress_file closed_stdout_env example_world
       = (Inl OSError, example_world\<lparr>progress_file := Text example_progress_after, dumps := 1\<rparr>)"
proof -
  have r: "response offline_env = RequestRaises"
    "response unauthorized_env = JsonObject [''message'', ''documentation_url'', ''status'']"
    by (simp_all add: offline_env_def unauthorized_env_def)
  have f: "progress_file example_world = Text example_progress"
    "dumps example_world = 0" "console example_world = []"
    by (simp_all add: example_world_def)
  have wr: "write_result disk_full_env = DumpFails Nothing"
    "write_result closed_stdout_env = WriteOk" "stdout closed_stdout_env = BreaksAfter 0"
    by (simp_all add: disk_full_env_def closed_stdout_env_def example_env_def)
  from run_is_all_or_nothing_before_the_write [of offline_env example_world "[]"]
  have "\<exists>e. update_progress_file offline_env example_world = (Inl e, example_world)"
    using r(1) by blast
  from run_is_all_or_nothing_before_the_write [of disk_full_env example_world "[]"]
  have "\<forall>doc doc' m v part. progress_file example_world = Text doc \<and> well_formed doc
         \<and> updated_document disk_full_env doc = Inr (doc', m, v)
         \<and> write_result disk_full_env = DumpFails part \<longrightarrow>
         update_progress_file disk_full_env example_world =
           (Inl OSError,
            example_world\<lparr>progress_file :=
                 (case part of Nothing \<Rightarrow> Empty | Unreadable \<Rightarrow> NotYaml
                  | ReadsAs d \<Rightarrow> Text d)\<rparr>)"
    by (elim conjE)
  with f(1) example_well_formed disk_full_updated_document wr(1)
  have dump: "update_progress_file disk_full_env example_world
       = (Inl OSError, example_world\<lparr>progress_file := Empty\<rparr>)"
    by fastforce
  from run_is_all_or_nothing_before_the_write [of closed_stdout_env example_world "[]"]
  have "\<forall>doc doc' m v n. progress_file example_world = Text doc \<and> well_formed doc
         \<and> updated_document closed_stdout_env doc = Inr (doc', m, v)
         \<and> write_result closed_stdout_env = WriteOk
         \<and> stdout closed_stdout_env = BreaksAfter n \<and> n < 2 \<longrightarrow>
         update_progress_file closed_stdout_env example_world =
           (Inl OSError,
            example_world\<lparr>progress_file := Text doc', dumps := dumps example_world + 1,
              console := console example_world @
                take n [ProgressUpdated (completed_tasks m) (total_tasks m),
                        CurrentVelocity (py_round v 2)]\<rparr>)"
    by (elim conjE)
  with f(1) example_well_formed closed_stdout_updated_document wr(2,3)
  have "update_progress_file closed_stdout_env example_world =
           (Inl OSError,
            example_world\<lparr>progress_file := Text example_progress_after,
              dumps := dumps example_world + 1,
              console := console example_world @
                take 0 [ProgressUpdated
                          (completed_tasks \<lparr>total_tasks = 2, completed_tasks = 1,
                                           in_progress_tasks = 0, blocked_tasks = 1\<rparr>)
                          (total_tasks \<lparr>total_tasks = 2, completed_tasks = 1,
                                        in_progress_tasks = 0, blocked_tasks = 1\<rparr>),
                        CurrentVelocity (py_round (1 / 7) 2)]\<rparr>)"
    by fastforce
  then have print: "update_progress_file closed_stdout_env example_world
       = (Inl OSError, example_world\<lparr>progress_file := Text example_progress_after, dumps := 1\<rparr>)"
    by (simp add: example_world_def)
  show ?thesis
    using r offline_run unauthorized_run example_run f(1) example_well_formed wr dump print
    by (simp add: example_world_after_def example_world_def)
qed

subsection \<open>Running twice\<close>

text \<open>
  Claim C9 says that two runs in succession on the same issues write the same phases and
  metrics. The velocity under metrics depends on the clock: between the two runs a closed
  issue can leave the seven-day window.
\<close>

theorem rerun_velocity_counterexample:
  "response second_run_env = response first_run_env
   \<and> fst (update_progress_file first_run_env example_world) = Inr ()
   \<and> fst (update_progress_file second_run_env
            (snd (update_progress_file first_run_env example_world))) = Inr ()
   \<and> file_at (snd (update_progress_file first_run_env example_world))
        [''metrics'', ''velocity'', ''current''] = Some (YFloat (7 / 50))
   \<and> file_at (snd (update_progress_file second_run_env
                  (snd (update_progress_file first_run_env example_world))))
        [''metrics'', ''velocity'', ''current''] = Some (YFloat 0)"
proof -
  have "response second_run_env = response first_run_env"
    by (simp add: second_run_env_def first_run_env_def)
  moreover have "fst (update_progress_file first_run_env example_world) = Inr ()" by code_simp
  moreover have "fst (update_progress_file second_run_env
            (snd (update_progress_file first_run_env example_world))) = Inr ()" by code_simp
  moreover have "file_at (snd (update_progress_file first_run_env example_world))
        [''metrics'', ''velocity'', ''current''] = Some (YFloat (7 / 50))" by code_simp
  moreover have "file_at (snd (update_progress_file second_run_env
                  (snd (update_progress_file first_run_env example_world))))
        [''metrics'', ''velocity'', ''current''] = Some (YFloat 0)" by code_simp
  ultimately show ?thesis by simp
qed

text \<open>
  Claim C9, amended. When two runs in succession both succeed on the same issue array, the
  second leaves the phases and the four counters under metrics as the first wrote them;
  current_status.last_updated holds, after each run, that run's timestamp; and
  metrics.velocity.current holds, after each run, the velocity at that run's reading of the
  clock, rounded to two decimals, so that the two runs agree on it exactly when the two rounded
  velocities are equal. When the top-level mapping, current_status, metrics and the velocity
  mapping under metrics are each a dictionary of its own in the document before the first
  run, the second run moreover leaves every key of metrics other than velocity, every key
  under velocity other than current, every key of current_status other than last_updated,
  and every other top-level key as the first run left them, at any depth.
\<close>

theorem rerun_changes_timestamp_and_velocity_only:
  assumes "update_progress_file env1 w0 = (Inr u1, w1)"
    and "update_progress_file env2 w1 = (Inr u2, w2)"
    and "response env1 = JsonArray issues"
    and "response env2 = JsonArray issues"
  shows "file_at w2 [''phases''] = file_at w1 [''phases'']
     \<and> file_at w2 [''metrics'', ''total_tasks''] = file_at w1 [''metrics'', ''total_tasks'']
     \<and> file_at w2 [''metrics'', ''completed_tasks'']
         = file_at w1 [''metrics'', ''completed_tasks'']
     \<and> file_at w2 [''metrics'', ''in_progress_tasks'']
         = file_at w1 [''metrics'', ''in_progress_tasks'']
     \<and> file_at w2 [''metrics'', ''blocked_tasks''] = file_at w1 [''metrics'', ''blocked_tasks'']
     \<and> file_at w1 [''current_status'', ''last_updated''] = Some (YStr (now_isoformat env1))
     \<and> file_at w2 [''current_status'', ''last_updated''] = Some (YStr (now_isoformat env2))
     \<and> (\<exists>v1 v2.
           calculate_velocity (fromisoformat env1) (now_velocity env1) issues = Inr v1
         \<and> calculate_velocity (fromisoformat env2) (now_velocity env2) issues = Inr v2
         \<and> file_at w1 [''metrics'', ''velocity'', ''current''] = Some (YFloat (py_round v1 2))
         \<and> file_at w2 [''metrics'', ''velocity'', ''current''] = Some (YFloat (py_round v2 2))
         \<and> (file_at w2 [''metrics'', ''velocity'', ''current'']
              = file_at w1 [''metrics'', ''velocity'', ''current'']
            \<longleftrightarrow> py_round v2 2 = py_round v1 2))
     \<and> (unshared w0 \<longrightarrow>
          (\<forall>k rest. k \<noteq> ''velocity'' \<longrightarrow>
             file_at w2 (''metrics'' # k # rest) = file_at w1 (''metrics'' # k # rest))
        \<and> (\<forall>k rest. k \<noteq> ''current'' \<longrightarrow>
             file_at w2 (''metrics'' # ''velocity'' # k # rest) =
             file_at w1 (''metrics'' # ''velocity'' # k # rest))
        \<and> (\<forall>k rest. k \<noteq> ''last_updated'' \<longrightarrow>
             file_at w2 (''current_status'' # k # rest) =
             file_at w1 (''current_status'' # k # rest))
        \<and> (\<forall>k rest. k \<noteq> ''current_status'' \<and> k \<noteq> ''metrics'' \<longrightarrow>
             file_at w2 (k # rest) = file_at w1 (k # rest)))"
proof -
  from assms(1) obtain j1 x1 q1 where
    fetch1: "and_then (get_issues (response env1)) iterate = Inr j1"
    and vel1: "calculate_velocity (fromisoformat env1) (now_velocity env1) j1 = Inr x1"
    and phases1: "get_phase_status j1 = Inr q1"
    and stamp1: "file_at w1 [''current_status'', ''last_updated'']
                   = Some (YStr (now_isoformat env1))"
    and counters1:
      "file_at w1 [''metrics'', ''total_tasks''] =
           Some (YInt (int (total_tasks (get_project_metrics j1))))"
      "file_at w1 [''metrics'', ''completed_tasks''] =
           Some (YInt (int (completed_tasks (get_project_metrics j1))))"
      "file_at w1 [''metrics'', ''in_progress_tasks''] =
           Some (YInt (int (in_progress_tasks (get_project_metrics j1))))"
      "file_at w1 [''metrics'', ''blocked_tasks''] =
           Some (YInt (int (blocked_tasks (get_project_metrics j1))))"
    and cur1: "file_at w1 [''metrics'', ''velocity'', ''current''] = Some (YFloat (py_round x1 2))"
    and stored1: "file_at w1 [''phases''] = Some (YSeq (map phase_yaml q1))"
    by (rule run_writes)
  from assms(2) obtain j2 x2 q2 where
    fetch2: "and_then (get_issues (response env2)) iterate = Inr j2"
    and vel2: "calculate_velocity (fromisoformat env2) (now_velocity env2) j2 = Inr x2"
    and phases2: "get_phase_status j2 = Inr q2"
    and stamp2: "file_at w2 [''current_status'', ''last_updated'']
                   = Some (YStr (now_isoformat env2))"
    and counters2:
      "file_at w2 [''metrics'', ''total_tasks''] =
           Some (YInt (int (total_tasks (get_project_metrics j2))))"
      "file_at w2 [''metrics'', ''completed_tasks''] =
           Some (YInt (int (completed_tasks (get_project_metrics j2))))"
      "file_at w2 [''metrics'', ''in_progress_tasks''] =
           Some (YInt (int (in_progress_tasks (get_project_metrics j2))))"
      "file_at w2 [''metrics'', ''blocked_tasks''] =
           Some (YInt (int (blocked_tasks (get_project_metrics j2))))"
    and cur2: "file_at w2 [''metrics'', ''velocity'', ''current''] = Some (YFloat (py_round x2 2))"
    and stored2: "file_at w2 [''phases''] = Some (YSeq (map phase_yaml q2))"
    by (rule run_writes)
  have j1: "j1 = issues" using assms(3) fetch1 by (rule fetched_array)
  have j2: "j2 = issues" using assms(4) fetch2 by (rule fetched_array)
  have q: "q2 = q1" using phases1 phases2 j1 j2 by simp
  have A: "file_at w2 [''phases''] = file_at w1 [''phases'']"
    using stored1 stored2 q by simp
  have B: "file_at w2 [''metrics'', ''total_tasks''] = file_at w1 [''metrics'', ''total_tasks'']"
    "file_at w2 [''metrics'', ''completed_tasks'']
         = file_at w1 [''metrics'', ''completed_tasks'']"
    "file_at w2 [''metrics'', ''in_progress_tasks'']
         = file_at w1 [''metrics'', ''in_progress_tasks'']"
    "file_at w2 [''metrics'', ''blocked_tasks''] = file_at w1 [''metrics'', ''blocked_tasks'']"
    using counters1 counters2 j1 j2 by simp_all
  have "file_at w2 [''metrics'', ''velocity'', ''current'']
              = file_at w1 [''metrics'', ''velocity'', ''current'']
            \<longleftrightarrow> py_round x2 2 = py_round x1 2"
    using cur1 cur2 by simp
  with vel1 vel2 cur1 cur2 j1 j2 have C: "\<exists>v1 v2.
           calculate_velocity (fromisoformat env1) (now_velocity env1) issues = Inr v1
         \<and> calculate_velocity (fromisoformat env2) (now_velocity env2) issues = Inr v2
         \<and> file_at w1 [''metrics'', ''velocity'', ''current''] = Some (YFloat (py_round v1 2))
         \<and> file_at w2 [''metrics'', ''velocity'', ''current''] = Some (YFloat (py_round v2 2))
         \<and> (file_at w2 [''metrics'', ''velocity'', ''current'']
              = file_at w1 [''metrics'', ''velocity'', ''current'']
            \<longleftrightarrow> py_round v2 2 = py_round v1 2)"
    by (intro exI [of _ x1] exI [of _ x2] conjI) simp_all
  have D: "(\<forall>k rest. k \<noteq> ''velocity'' \<longrightarrow>
             file_at w2 (''metrics'' # k # rest) = file_at w1 (''metrics'' # k # rest))
        \<and> (\<forall>k rest. k \<noteq> ''current'' \<longrightarrow>
             file_at w2 (''metrics'' # ''velocity'' # k # rest) =
             file_at w1 (''metrics'' # ''velocity'' # k # rest))
        \<and> (\<forall>k rest. k \<noteq> ''last_updated'' \<longrightarrow>
             file_at w2 (''current_status'' # k # rest) =
             file_at w1 (''current_status'' # k # rest))
        \<and> (\<forall>k rest. k \<noteq> ''current_status'' \<and> k \<noteq> ''metrics'' \<longrightarrow>
             file_at w2 (k # rest) = file_at w1 (k # rest))"
    if own: "unshared w0"
  proof -
    from assms(1) own obtain doc0 doc1 i1 v1 ph1 al0 cs0 ms0 vs0 al1 cs1 ms1 vs1 where
      fetch1: "and_then (get_issues (response env1)) iterate = Inr i1"
      and "calculate_velocity (fromisoformat env1) (now_velocity env1) i1 = Inr v1"
      and phases1: "get_phase_status i1 = Inr ph1"
      and "progress_file w0 = Text doc0"
      and "root doc0 = YMap al0"
      and "map_of al0 ''current_status'' = Some (YMap cs0)"
      and "map_of al0 ''metrics'' = Some (YMap ms0)"
      and "map_of ms0 ''velocity'' = Some (YMap vs0)"
      and f1: "progress_file w1 = Text doc1"
      and "anchors doc1 = anchors doc0"
      and r1: "root doc1 = YMap al1"
      and al1: "map_of al1 = (map_of al0)(''phases'' \<mapsto> YSeq (map phase_yaml ph1),
                               ''metrics'' \<mapsto> YMap ms1, ''current_status'' \<mapsto> YMap cs1)"
      and ms1: "map_of ms1 = (map_of ms0)(
          ''total_tasks'' \<mapsto> YInt (int (total_tasks (get_project_metrics i1))),
          ''completed_tasks'' \<mapsto> YInt (int (completed_tasks (get_project_metrics i1))),
          ''in_progress_tasks'' \<mapsto> YInt (int (in_progress_tasks (get_project_metrics i1))),
          ''blocked_tasks'' \<mapsto> YInt (int (blocked_tasks (get_project_metrics i1))),
          ''velocity'' \<mapsto> YMap vs1)"
      and vs1: "map_of vs1 = (map_of vs0)(''current'' \<mapsto> YFloat (py_round v1 2))"
      and cs1: "map_of cs1 =
         (case find (\<lambda>p. status p = ''in_progress'') ph1 of
            None \<Rightarrow> (map_of cs0)(''last_updated'' \<mapsto> YStr (now_isoformat env1))
          | Some p \<Rightarrow> (map_of cs0)(''last_updated'' \<mapsto> YStr (now_isoformat env1),
                                   ''phase'' \<mapsto> YInt (phase p),
                                   ''phase_name'' \<mapsto> YStr (phase_entry.name p)))
         (''health'' \<mapsto> YStr (if blocked_tasks (get_project_metrics i1) > 2 then ''red''
                           else if blocked_tasks (get_project_metrics i1) > 0 then ''yellow''
                           else ''green''))"
      by (rule run_summary_own)
    have c1: "map_of al1 ''current_status'' = Some (YMap cs1)" by (simp add: al1)
    have c2: "map_of al1 ''metrics'' = Some (YMap ms1)" by (simp add: al1)
    have c3: "map_of ms1 ''velocity'' = Some (YMap vs1)" by (simp add: ms1)
    have own1: "unshared w1" using f1 r1 c1 c2 c3 by (rule unsharedI)
    from assms(2) own1 obtain docb doc2 i2 v2 ph2 bl1 ds1 ns1 ws1 al2 cs2 ms2 vs2 where
      fetch2: "and_then (get_issues (response env2)) iterate = Inr i2"
      and "calculate_velocity (fromisoformat env2) (now_velocity env2) i2 = Inr v2"
      and phases2: "get_phase_status i2 = Inr ph2"
      and g1: "progress_file w1 = Text docb"
      and rb: "root docb = YMap bl1"
      and bl1: "map_of bl1 ''current_status'' = Some (YMap ds1)"
        "map_of bl1 ''metrics'' = Some (YMap ns1)"
      and ns1: "map_of ns1 ''velocity'' = Some (YMap ws1)"
      and f2: "progress_file w2 = Text doc2"
      and t2: "anchors doc2 = anchors docb"
      and r2: "root doc2 = YMap al2"
      and al2: "map_of al2 = (map_of bl1)(''phases'' \<mapsto> YSeq (map phase_yaml ph2),
                               ''metrics'' \<mapsto> YMap ms2, ''current_status'' \<mapsto> YMap cs2)"
      and ms2: "map_of ms2 = (map_of ns1)(
          ''total_tasks'' \<mapsto> YInt (int (total_tasks (get_project_metrics i2))),
          ''completed_tasks'' \<mapsto> YInt (int (completed_tasks (get_project_metrics i2))),
          ''in_progress_tasks'' \<mapsto> YInt (int (in_progress_tasks (get_project_metrics i2))),
          ''blocked_tasks'' \<mapsto> YInt (int (blocked_tasks (get_project_metrics i2))),
          ''velocity'' \<mapsto> YMap vs2)"
      and vs2: "map_of vs2 = (map_of ws1)(''current'' \<mapsto> YFloat (py_round v2 2))"
      and cs2: "map_of cs2 =
         (case find (\<lambda>p. status p = ''in_progress'') ph2 of
            None \<Rightarrow> (map_of ds1)(''last_updated'' \<mapsto> YStr (now_isoformat env2))
          | Some p \<Rightarrow> (map_of ds1)(''last_updated'' \<mapsto> YStr (now_isoformat env2),
                                   ''phase'' \<mapsto> YInt (phase p),
                                   ''phase_name'' \<mapsto> YStr (phase_entry.name p)))
         (''health'' \<mapsto> YStr (if blocked_tasks (get_project_metrics i2) > 2 then ''red''
                           else if blocked_tasks (get_project_metrics i2) > 0 then ''yellow''
                           else ''green''))"
      by (rule run_summary_own)
    have i1: "i1 = issues" using assms(3) fetch1 by (rule fetched_array)
    have i2: "i2 = issues" using assms(4) fetch2 by (rule fetched_array)
    have ph: "ph2 = ph1" using phases1 phases2 i1 i2 by simp
    have docb: "docb = doc1" using f1 g1 by simp
    have same: "bl1 = al1" using r1 rb docb by simp
    have t: "anchors doc2 = anchors doc1" using t2 docb by simp
    have ds1: "ds1 = cs1" using bl1(1) al1 same by simp
    have ns1': "ns1 = ms1" using bl1(2) al1 same by simp
    have ws1: "ws1 = vs1" using ns1 ms1 ns1' by simp
    have metrics: "file_at w2 (''metrics'' # k # rest) = file_at w1 (''metrics'' # k # rest)"
      if "k \<noteq> ''velocity''" for k rest
      using that by (simp add: file_at_def f1 f2 r1 r2 t al1 al2 same ms1 ms2 ns1' i1 i2)
    have velocity: "file_at w2 (''metrics'' # ''velocity'' # k # rest) =
              file_at w1 (''metrics'' # ''velocity'' # k # rest)"
      if "k \<noteq> ''current''" for k rest
      using that by (simp add: file_at_def f1 f2 r1 r2 t al1 al2 same ms1 ms2 ns1' vs1 vs2 ws1)
    have current_status: "file_at w2 (''current_status'' # k # rest) =
              file_at w1 (''current_status'' # k # rest)"
      if "k \<noteq> ''last_updated''" for k rest
      using that
      by (simp add: file_at_def f1 f2 r1 r2 t al1 al2 same cs1 cs2 ds1 ph i1 i2
          split: option.splits)
    have others: "file_at w2 (k # rest) = file_at w1 (k # rest)"
      if "k \<noteq> ''current_status'' \<and> k \<noteq> ''metrics''" for k rest
      using that by (simp add: file_at_def f1 f2 r1 r2 t al1 al2 same ph)
    from metrics velocity current_status others show ?thesis by (intro conjI allI impI)
  qed
  then have E: "unshared w0 \<longrightarrow>
          (\<forall>k rest. k \<noteq> ''velocity'' \<longrightarrow>
             file_at w2 (''metrics'' # k # rest) = file_at w1 (''metrics'' # k # rest))
        \<and> (\<forall>k rest. k \<noteq> ''current'' \<longrightarrow>
             file_at w2 (''metrics'' # ''velocity'' # k # rest) =
             file_at w1 (''metrics'' # ''velocity'' # k # rest))
        \<and> (\<forall>k rest. k \<noteq> ''last_updated'' \<longrightarrow>
             file_at w2 (''current_status'' # k # rest) =
             file_at w1 (''current_status'' # k # rest))
        \<and> (\<forall>k rest. k \<noteq> ''current_status'' \<and> k \<noteq> ''metrics'' \<longrightarrow>
             file_at w2 (k # rest) = file_at w1 (k # rest))"
    by (rule impI)
  from A B stamp1 stamp2 C E show ?thesis by (intro conjI)
qed

theorem rerun_changes_timestamp_and_velocity_only_witness:
  "update_progress_file first_run_env example_world = (Inr (), after_first_run)
   \<and> update_progress_file second_run_env after_first_run = (Inr (), after_second_run)
   \<and> response first_run_env = JsonArray example_issues
   \<and> response second_run_env = JsonArray example_issues
   \<and> unshared example_world
   \<and> file_at after_second_run [''phases''] = file_at after_first_run [''phases'']
   \<and> file_at after_second_run [''metrics'', ''completed_tasks'']
       = file_at after_first_run [''metrics'', ''completed_tasks'']
   \<and> file_at after_second_run [''metrics'', ''test_coverage'']
       = file_at after_first_run [''metrics'', ''test_coverage'']
   \<and> file_at after_second_run [''current_status'', ''health'']
       = file_at after_first_run [''current_status'', ''health'']
   \<and> file_at after_second_run [''project''] = file_at after_first_run [''project'']
   \<and> file_at after_first_run [''current_status'', ''last_updated'']
       = Some (YStr ''2024-03-16T11:59:59.100000+00:00'')
   \<and> file_at after_second_run [''current_status'', ''last_updated'']
       = Some (YStr ''2024-03-16T12:00:01.100000+00:00'')"
proof -
  have r: "response first_run_env = JsonArray example_issues"
    "response second_run_env = JsonArray example_issues"
    by (simp_all add: first_run_env_def second_run_env_def example_env_def)
  have s: "now_isoformat first_run_env = ''2024-03-16T11:59:59.100000+00:00''"
    "now_isoformat second_run_env = ''2024-03-16T12:00:01.100000+00:00''"
    by (simp_all add: first_run_env_def second_run_env_def)
  note t = rerun_changes_timestamp_and_velocity_only [OF first_run second_run r]
  from t have a: "file_at after_second_run [''phases''] = file_at after_first_run [''phases'']"
    by (elim conjE)
  from t have b: "file_at after_second_run [''metrics'', ''completed_tasks'']
       = file_at after_first_run [''metrics'', ''completed_tasks'']"
    by (elim conjE)
  from t have e1: "file_at after_first_run [''current_status'', ''last_updated'']
       = Some (YStr (now_isoformat first_run_env))"
    by (elim conjE)
  from t have e2: "file_at after_second_run [''current_status'', ''last_updated'']
       = Some (YStr (now_isoformat second_run_env))"
    by (elim conjE)
  from t have "unshared example_world \<longrightarrow>
          (\<forall>k rest. k \<noteq> ''velocity'' \<longrightarrow>
             file_at after_second_run (''metrics'' # k # rest)
             = file_at after_first_run (''metrics'' # k # rest))
        \<and> (\<forall>k rest. k \<noteq> ''current'' \<longrightarrow>
             file_at after_second_run (''metrics'' # ''velocity'' # k # rest) =
             file_at after_first_run (''metrics'' # ''velocity'' # k # rest))
        \<and> (\<forall>k rest. k \<noteq> ''last_updated'' \<longrightarrow>
             file_at after_second_run (''current_status'' # k # rest) =
             file_at after_first_run (''current_status'' # k # rest))
        \<and> (\<forall>k rest. k \<noteq> ''current_status'' \<and> k \<noteq> ''metrics'' \<longrightarrow>
             file_at after_second_run (k # rest) = file_at after_first_run (k # rest))"
    by (elim conjE)
  with example_unshared have
    m: "\<forall>k rest. k \<noteq> ''velocity'' \<longrightarrow>
             file_at after_second_run (''metrics'' # k # rest)
             = file_at after_first_run (''metrics'' # k # rest)"
    and c: "\<forall>k rest. k \<noteq> ''last_updated'' \<longrightarrow>
             file_at after_second_run (''current_status'' # k # rest) =
             file_at after_first_run (''current_status'' # k # rest)"
    and d: "\<forall>k rest. k \<noteq> ''current_status'' \<and> k \<noteq> ''metrics'' \<longrightarrow>
             file_at after_second_run (k # rest) = file_at after_first_run (k # rest)"
    by simp_all
  from m have m': "file_at after_second_run [''metrics'', ''test_coverage'']
       = file_at after_first_run [''metrics'', ''test_coverage'']" by simp
  from c have c': "file_at after_second_run [''current_status'', ''health'']
       = file_at after_first_run [''current_status'', ''health'']" by simp
  from d have d': "file_at after_second_run [''project''] = file_at after_first_run [''project'']"
    by simp
  from first_run second_run r example_unshared a b m' c' d' e1 e2 s show ?thesis by simp
qed

end
